(* ===== verification/Prelude.thy ===== *)
theory Prelude
  imports Main "HOL-Library.Word"
begin

unbundle bit_operations_syntax

section \<open>Prelude: the types and lemmas the components share\<close>

text \<open>
  Go's values as HOL values. \<^verbatim>\<open>byte\<close>, \<^verbatim>\<open>uint32\<close> and \<^verbatim>\<open>uint64\<close> are words of their
  width, so that \<open>+\<close>, \<open>-\<close> and \<open>*\<close> wrap around as they do in Go; \<^verbatim>\<open>big.Int\<close> is
  \<open>int\<close>; a byte slice is a list of bytes, and where the code tells a nil slice from an
  empty one it is a \<open>bytes option\<close> with \<open>None\<close> for nil.

  A Go call can return a value, return an error, or panic. The type \<open>('e, 'a) res\<close> has
  one constructor for each, and \<open>andThen\<close> is the sequencing that stops at the first
  error or panic, which is what \<^verbatim>\<open>if err != nil { return err }\<close> does.
\<close>

type_synonym byte = "8 word"
type_synonym bytes = "byte list"
type_synonym u32 = "32 word"
type_synonym u64 = "64 word"

datatype (errval: 'e, okval: 'a) res = Panic | Err 'e | Ok 'a

definition andThen :: "('e, 'a) res \<Rightarrow> ('a \<Rightarrow> ('e, 'b) res) \<Rightarrow> ('e, 'b) res" where
  "andThen r f = (case r of Panic \<Rightarrow> Panic | Err e \<Rightarrow> Err e | Ok x \<Rightarrow> f x)"

lemma andThen_simps [simp]:
  "andThen Panic f = Panic"
  "andThen (Err e) f = Err e"
  "andThen (Ok x) f = f x"
  by (simp_all add: andThen_def)

lemma andThen_eq_Ok_iff: "andThen r f = Ok y \<longleftrightarrow> (\<exists>x. r = Ok x \<and> f x = Ok y)"
  by (cases r) auto

lemma andThen_eq_Err_iff:
  "andThen r f = Err e \<longleftrightarrow> r = Err e \<or> (\<exists>x. r = Ok x \<and> f x = Err e)"
  by (cases r) auto

lemma andThen_eq_Panic_iff:
  "andThen r f = Panic \<longleftrightarrow> r = Panic \<or> (\<exists>x. r = Ok x \<and> f x = Panic)"
  by (cases r) auto

lemma andThen_assoc: "andThen (andThen r f) g = andThen r (\<lambda>x. andThen (f x) g)"
  by (cases r) simp_all

lemmas andThen_iffs = andThen_eq_Ok_iff andThen_eq_Err_iff andThen_eq_Panic_iff

text \<open>
  \<open>lift_panic\<close> reads an option whose \<open>None\<close> is a panic as a \<open>res\<close>.
\<close>

definition lift_panic :: "'a option \<Rightarrow> ('e, 'a) res" where
  "lift_panic x = (case x of None \<Rightarrow> Panic | Some a \<Rightarrow> Ok a)"

lemma lift_panic_simps [simp]:
  "lift_panic None = Panic"
  "lift_panic (Some a) = Ok a"
  "lift_panic x = Ok a \<longleftrightarrow> x = Some a"
  "lift_panic x = Panic \<longleftrightarrow> x = None"
  "lift_panic x \<noteq> Err e"
  by (auto simp: lift_panic_def split: option.splits)

section \<open>Actions on a state\<close>

text \<open>
  A call that changes a state returns its result beside the new state. \<open>bindA\<close> sequences two
  calls and stops at the first error or panic; \<open>tryA\<close> hands the error to the caller as a
  value, which is what \<^verbatim>\<open>x, err := f()\<close> does before the error is looked at.
\<close>

type_synonym ('s, 'e, 'a) action = "'s \<Rightarrow> ('e, 'a) res \<times> 's"

definition returnA :: "'a \<Rightarrow> ('s, 'e, 'a) action" where
  "returnA a s = (Ok a, s)"

definition raiseA :: "'e \<Rightarrow> ('s, 'e, 'a) action" where
  "raiseA e s = (Err e, s)"

definition bindA :: "('s, 'e, 'a) action \<Rightarrow> ('a \<Rightarrow> ('s, 'e, 'b) action) \<Rightarrow> ('s, 'e, 'b) action" where
  "bindA m f s = (case m s of (Ok a, s') \<Rightarrow> f a s' | (Err e, s') \<Rightarrow> (Err e, s') | (Panic, s') \<Rightarrow> (Panic, s'))"

definition tryA :: "('s, 'e, 'a) action \<Rightarrow> ('s, 'e, ('e, 'a) res) action" where
  "tryA m s = (case m s of (Panic, s') \<Rightarrow> (Panic, s') | (r, s') \<Rightarrow> (Ok r, s'))"

lemma action_simps [simp]:
  "returnA a s = (Ok a, s)"
  "raiseA e s = (Err e, s)"
  "m s = (Ok a, s') \<Longrightarrow> bindA m f s = f a s'"
  "m s = (Err e, s') \<Longrightarrow> bindA m f s = (Err e, s')"
  "m s = (Panic, s') \<Longrightarrow> bindA m f s = (Panic, s')"
  "m s = (Ok a, s') \<Longrightarrow> tryA m s = (Ok (Ok a), s')"
  "m s = (Err e, s') \<Longrightarrow> tryA m s = (Ok (Err e), s')"
  "m s = (Panic, s') \<Longrightarrow> tryA m s = (Panic, s')"
  by (simp_all add: returnA_def raiseA_def bindA_def tryA_def)

lemma bindA_Ok_iff:
  "bindA m f s = (Ok b, s'') \<longleftrightarrow> (\<exists>a s'. m s = (Ok a, s') \<and> f a s' = (Ok b, s''))"
  by (auto simp: bindA_def split: prod.splits res.splits)

section \<open>Slices\<close>

text \<open>
  \<^verbatim>\<open>s[i:j]\<close> panics unless \<open>i \<le> j \<le> len s\<close> (the capacity beyond the length is never
  used by the modelled code); \<^verbatim>\<open>s[i]\<close> panics unless \<open>i < len s\<close>.
\<close>

definition slice :: "'a list \<Rightarrow> nat \<Rightarrow> nat \<Rightarrow> 'a list option" where
  "slice xs i j = (if i \<le> j \<and> j \<le> length xs then Some (take (j - i) (drop i xs)) else None)"

definition index_at :: "'a list \<Rightarrow> nat \<Rightarrow> 'a option" where
  "index_at xs i = (if i < length xs then Some (xs ! i) else None)"

lemma slice_SomeD: "slice xs i j = Some ys \<Longrightarrow> length ys = j - i"
  by (auto simp: slice_def split: if_splits)

lemma index_at_Some_iff: "index_at xs i = Some x \<longleftrightarrow> i < length xs \<and> xs ! i = x"
  by (auto simp: index_at_def)

lemma index_at_None_iff: "index_at xs i = None \<longleftrightarrow> length xs \<le> i"
  by (auto simp: index_at_def)

text \<open>Removing one position of a list, as \<^verbatim>\<open>append(s[:i], s[i+1:]...)\<close> does.\<close>

definition remove_nth :: "nat \<Rightarrow> 'a list \<Rightarrow> 'a list" where
  "remove_nth i xs = take i xs @ drop (Suc i) xs"

lemma length_remove_nth: "i < length xs \<Longrightarrow> length (remove_nth i xs) = length xs - 1"
  by (simp add: remove_nth_def)

lemma set_remove_nth_subset: "set (remove_nth i xs) \<subseteq> set xs"
  by (auto simp: remove_nth_def dest: in_set_takeD in_set_dropD)

section \<open>Words\<close>

lemma unat_add_no_wrap:
  fixes x y :: "'a::len word"
  assumes "unat x + unat y < 2 ^ LENGTH('a)"
  shows "unat (x + y) = unat x + unat y"
  using assms by (simp add: unat_word_ariths)

lemma word_less_Suc_numeral: "x < y \<Longrightarrow> unat x < unat y" for x y :: "'a::len word"
  by (simp add: word_less_nat_alt)

lemma unat_of_nat_u64: "n < 2 ^ 64 \<Longrightarrow> unat (of_nat n :: u64) = n"
  by (simp add: unsigned_of_nat take_bit_nat_eq_self)

lemma of_nat_u64_inject:
  "\<lbrakk>m < 2 ^ 64; n < 2 ^ 64\<rbrakk> \<Longrightarrow> (of_nat m :: u64) = of_nat n \<longleftrightarrow> m = n"
  using unat_of_nat_u64 by metis

end
