(* ===== verification/TrieEncoding.thy ===== *)
theory TrieEncoding
  imports Prelude "HOL-Library.Sublist"
begin

section \<open>Trie key encodings (common/trie/encoding.go)\<close>

text \<open>
  The three encodings of a trie key: the key's bytes, one byte per nibble with an optional
  terminator 16 (hex), and the hex-prefix form stored on disk (compact). The functions
  that index past a slice panic there; they return \<open>None\<close>. The lemmas show that the
  encodings are inverse to each other on the keys the trie uses.
\<close>

subsection \<open>The functions\<close>

definition hasTerm :: "bytes \<Rightarrow> bool" where
  "hasTerm s = (length s > 0 \<and> s ! (length s - 1) = 16)"

fun prefixLen :: "bytes \<Rightarrow> bytes \<Rightarrow> nat" where
  "prefixLen (a # as) (b # bs) = (if a \<noteq> b then 0 else Suc (prefixLen as bs))"
| "prefixLen _ _ = 0"

fun decodeNibbles :: "bytes \<Rightarrow> bytes \<Rightarrow> bytes option" where
  "decodeNibbles [] buf = Some buf"
| "decodeNibbles [x] buf = None"
| "decodeNibbles (x # y # ns) [] = None"
| "decodeNibbles (x # y # ns) (b # buf) =
     map_option ((#) (push_bit 4 x OR y)) (decodeNibbles ns buf)"

definition keybytesToHex :: "bytes \<Rightarrow> bytes" where
  "keybytesToHex str = concat (map (\<lambda>b. [b div 16, b mod 16]) str) @ [16]"

definition hexToKeybytes :: "bytes \<Rightarrow> bytes option" where
  "hexToKeybytes hex0 =
     (let hex = (if hasTerm hex0 then take (length hex0 - 1) hex0 else hex0)
      in if odd (length hex) then None
         else decodeNibbles hex (replicate (length hex div 2) 0))"

definition hexToCompact :: "bytes \<Rightarrow> bytes option" where
  "hexToCompact hex0 =
     (let terminator = (if hasTerm hex0 then 1 else 0);
          hex = (if hasTerm hex0 then take (length hex0 - 1) hex0 else hex0);
          buf = replicate (length hex div 2 + 1) (0 :: byte);
          b0 = push_bit 5 terminator
      in if odd (length hex)
         then map_option ((#) (b0 OR push_bit 4 1 OR hex ! 0)) (decodeNibbles (tl hex) (tl buf))
         else map_option ((#) b0) (decodeNibbles hex (tl buf)))"

definition compactToHex :: "bytes \<Rightarrow> bytes" where
  "compactToHex compact =
     (if length compact = 0 then compact
      else let base = keybytesToHex compact;
               base' = (if base ! 0 < 2 then take (length base - 1) base else base);
               chop = unat (2 - (base' ! 0 AND 1))
           in drop chop base')"

subsection \<open>Nibbles\<close>

text \<open>A hex key the trie uses: nibbles below 16, with at most one terminator at the end.\<close>

definition nibbles :: "bytes \<Rightarrow> bool" where
  "nibbles ns = (\<forall>n\<in>set ns. n < 16)"

definition hexkey :: "bytes \<Rightarrow> bool" where
  "hexkey hex = nibbles (if hasTerm hex then butlast hex else hex)"

lemma nibbles_simps [simp]:
  "nibbles []"
  "nibbles (x # xs) \<longleftrightarrow> x < 16 \<and> nibbles xs"
  "nibbles (xs @ ys) \<longleftrightarrow> nibbles xs \<and> nibbles ys"
  by (auto simp: nibbles_def)

lemma nibble_bit: "x < 16 \<Longrightarrow> bit x n \<Longrightarrow> n < 4" for x :: byte
proof -
  assume h: "x < 16" "bit x n"
  then have "take_bit 4 x = x"
    by (simp add: take_bit_eq_mod word_unat_eq_iff unat_mod word_less_nat_alt)
  with h(2) show "n < 4" by (metis bit_take_bit_iff)
qed

lemma or_nibbles_div: "x < 16 \<Longrightarrow> y < 16 \<Longrightarrow> (push_bit 4 x OR y) div 16 = x" for x y :: byte
proof -
  assume h: "x < 16" "y < 16"
  have "drop_bit 4 (push_bit 4 x OR y) = x"
    by (rule bit_word_eqI) (use h nibble_bit in \<open>force simp: bit_simps\<close>)
  then show ?thesis by (simp add: drop_bit_eq_div)
qed

lemma or_nibbles_mod: "y < 16 \<Longrightarrow> (push_bit 4 x OR y) mod 16 = y" for x y :: byte
proof -
  assume h: "y < 16"
  have "take_bit 4 (push_bit 4 x OR y) = y"
    by (rule bit_word_eqI) (use h nibble_bit in \<open>force simp: bit_simps\<close>)
  then show ?thesis by (simp add: take_bit_eq_mod)
qed

lemma or_nibbles_byte: "push_bit 4 (b div 16) OR (b mod 16) = b" for b :: byte
proof -
  have "push_bit 4 (drop_bit 4 b) OR take_bit 4 b = b"
    by (rule bit_word_eqI) (force simp: bit_simps)
  then show ?thesis by (simp add: take_bit_eq_mod drop_bit_eq_div)
qed

lemma nibble_bounds [simp]: "b div 16 < 16" "b mod 16 < 16" for b :: byte
  using unsigned_less[where 'a = nat, of b] by (simp_all add: word_less_nat_alt unat_div unat_mod)

lemmas or_nibbles = or_nibbles_div or_nibbles_mod or_nibbles_byte

text \<open>The nibbles of a byte string, without the terminator.\<close>

abbreviation nibblesOf :: "bytes \<Rightarrow> bytes" where
  "nibblesOf str \<equiv> concat (map (\<lambda>b. [b div 16, b mod 16]) str)"

lemma length_nibblesOf: "length (nibblesOf str) = 2 * length str"
  by (induction str) simp_all

lemma nibbles_nibblesOf: "nibbles (nibblesOf str)"
  by (induction str) simp_all

lemma decodeNibbles_nibblesOf:
  "length buf = length str \<Longrightarrow> decodeNibbles (nibblesOf str) buf = Some str"
proof (induction str arbitrary: buf)
  case (Cons b str)
  then show ?case by (cases buf) (simp_all add: or_nibbles_byte)
qed simp

lemma decodeNibbles_Some:
  assumes "nibbles ns" "even (length ns)" "2 * length buf = length ns"
  obtains ys where "decodeNibbles ns buf = Some ys" "nibblesOf ys = ns"
proof -
  have "\<exists>ys. decodeNibbles ns buf = Some ys \<and> nibblesOf ys = ns"
    using assms by (induction ns buf rule: decodeNibbles.induct) (auto simp: or_nibbles)
  with that show thesis by blast
qed

lemma decodeNibbles_odd: "odd (length ns) \<Longrightarrow> decodeNibbles ns buf = None"
  by (induction ns buf rule: decodeNibbles.induct) auto

subsection \<open>Round trips\<close>

lemma hasTerm_iff: "hasTerm s \<longleftrightarrow> (\<exists>t. s = t @ [16])"
  by (cases s rule: rev_cases) (auto simp: hasTerm_def nth_append)

lemma hasTerm_simps [simp]: "hasTerm (s @ [16])" "\<not> hasTerm []"
  by (auto simp: hasTerm_iff)

lemma nibbles_not_hasTerm: "nibbles ns \<Longrightarrow> \<not> hasTerm ns"
  by (auto simp: hasTerm_iff)

lemma hexkey_cases:
  assumes "hexkey hex"
  obtains (terminated) ns where "hex = ns @ [16]" "nibbles ns" | (plain) "nibbles hex" "\<not> hasTerm hex"
  using assms by (fastforce simp: hexkey_def hasTerm_iff split: if_splits)

lemma keybytesToHex_hexkey: "hexkey (keybytesToHex str)"
  by (simp add: keybytesToHex_def hexkey_def nibbles_nibblesOf)

lemma hexToKeybytes_inverse: "hexToKeybytes (keybytesToHex str) = Some str"
  by (simp add: hexToKeybytes_def keybytesToHex_def length_nibblesOf decodeNibbles_nibblesOf)

lemma keybytesToHex_inj: "keybytesToHex a = keybytesToHex b \<Longrightarrow> a = b"
  by (metis hexToKeybytes_inverse option.inject)

text \<open>The flag byte of the compact form, read back as its two nibbles.\<close>

lemma compactToHex_flag:
  assumes "f < 4" "h < 16"
  shows "compactToHex ((push_bit 4 f OR h) # ys) =
    drop (if odd f then 1 else 2) ([f, h] @ nibblesOf ys @ (if f < 2 then [] else [16]))"
proof -
  have f16: "f < 16" using assms(1) by (auto simp: word_less_nat_alt)
  have chop: "unat (2 - (f AND 1)) = (if odd f then 1 else 2)"
    by (simp add: and_one_eq mod2_eq_if)
  show ?thesis
    using assms f16 chop
    by (simp add: compactToHex_def keybytesToHex_def or_nibbles Let_def)
qed

lemma compact_roundtrip_parts:
  assumes "nibbles ns" and flag: "flag = 0 \<or> flag = (1 :: byte)"
  shows "\<exists>c. (if odd (length ns)
      then map_option ((#) (push_bit 5 flag OR push_bit 4 1 OR ns ! 0))
             (decodeNibbles (tl ns) (replicate (length ns div 2) 0))
      else map_option ((#) (push_bit 5 flag)) (decodeNibbles ns (replicate (length ns div 2) 0)))
      = Some c \<and> compactToHex c = ns @ (if flag = 1 then [16] else [])"
proof (cases "odd (length ns)")
  case True
  then obtain h ms where ns: "ns = h # ms" by (cases ns) auto
  from True ns assms(1) obtain ys
    where ys: "decodeNibbles ms (replicate (length ns div 2) 0) = Some ys" "nibblesOf ys = ms"
    using decodeNibbles_Some[of ms "replicate (length ns div 2) 0"] by auto
  have "push_bit 5 flag OR push_bit 4 1 OR h = push_bit 4 (push_bit 1 flag OR 1) OR h"
    using flag by (auto simp: push_bit_or or.assoc)
  moreover have "compactToHex ((push_bit 4 (push_bit 1 flag OR 1) OR h) # ys)
      = ns @ (if flag = 1 then [16] else [])"
    using flag ns assms(1) ys(2) by (subst compactToHex_flag) auto
  ultimately show ?thesis using True ns ys by simp
next
  case False
  from False assms(1) obtain ys
    where ys: "decodeNibbles ns (replicate (length ns div 2) 0) = Some ys" "nibblesOf ys = ns"
    using decodeNibbles_Some[of ns "replicate (length ns div 2) 0"] by auto
  have "push_bit 5 flag = push_bit 4 (push_bit 1 flag) OR 0" using flag by auto
  moreover have "compactToHex ((push_bit 4 (push_bit 1 flag) OR 0) # ys)
      = ns @ (if flag = 1 then [16] else [])"
    using flag assms(1) ys(2) by (subst compactToHex_flag) auto
  ultimately show ?thesis using False ys by simp
qed

lemma hexToCompact_inverse:
  assumes "hexkey hex"
  shows "\<exists>c. hexToCompact hex = Some c \<and> compactToHex c = hex"
  using assms
proof (cases rule: hexkey_cases)
  case (terminated ns)
  then show ?thesis
    using compact_roundtrip_parts[of ns 1] by (simp add: hexToCompact_def Let_def split: if_splits)
next
  case plain
  then show ?thesis
    using compact_roundtrip_parts[of hex 0] by (simp add: hexToCompact_def Let_def split: if_splits)
qed

lemma hexToCompact_inj:
  "\<lbrakk>hexkey a; hexkey b; hexToCompact a = hexToCompact b\<rbrakk> \<Longrightarrow> a = b"
  by (metis hexToCompact_inverse option.inject)

subsection \<open>Common prefixes\<close>

lemma prefixLen_le: "prefixLen a b \<le> length a" "prefixLen a b \<le> length b"
  by (induction a b rule: prefixLen.induct) auto

lemma prefixLen_take: "take (prefixLen a b) a = take (prefixLen a b) b"
  by (induction a b rule: prefixLen.induct) auto

lemma prefixLen_differ:
  "\<lbrakk>prefixLen a b < length a; prefixLen a b < length b\<rbrakk>
    \<Longrightarrow> a ! prefixLen a b \<noteq> b ! prefixLen a b"
  by (induction a b rule: prefixLen.induct) auto

lemma prefixLen_full: "prefixLen a b = length b \<longleftrightarrow> prefix b a"
  by (induction a b rule: prefixLen.induct) (auto simp: neq_Nil_conv)

lemma prefixLen_commute: "prefixLen a b = prefixLen b a"
  by (induction a b rule: prefixLen.induct) auto

end
