(* ===== verification/ChainTypes.thy ===== *)
theory ChainTypes
  imports Prelude
begin

section \<open>Data of the chain (types/, crypto/address.go, crypto/hash.go, params/)\<close>

text \<open>
  The structs of the \<^verbatim>\<open>types\<close> package that the chain, the stores and the transaction pool
  share. A pointer to a block node is a \<open>ptr\<close>; nil is \<open>None\<close>. Fields that only
  memoise a computed value (\<^verbatim>\<open>txHash\<close>, \<^verbatim>\<open>blockHash\<close>, \<dots>) are left out: what they hold is
  what the computation returns. Keccak, the binary codec and public-key recovery are
  parameters of the functions that call them.
\<close>

type_synonym hash = bytes
type_synonym address = bytes
type_synonym ptr = nat

definition HashLength :: nat where "HashLength = 32"
definition AddressLength :: nat where "AddressLength = 20"

definition ZeroHash :: hash where "ZeroHash = replicate HashLength 0"
definition ZeroAddress :: address where "ZeroAddress = replicate AddressLength 0"

text \<open>
  \<^verbatim>\<open>copy(a[20-len(b):], b)\<close> on a fresh (zero) address: a longer \<open>b\<close> is cropped from
  the left, a shorter one is padded on the left.
\<close>

definition BytesToAddress :: "bytes \<Rightarrow> address" where
  "BytesToAddress b =
     (let b' = (if length b > AddressLength then drop (length b - AddressLength) b else b)
      in replicate (AddressLength - length b') 0 @ b')"

definition CreateAddress :: "(bytes \<Rightarrow> bytes) \<Rightarrow> address \<Rightarrow> u64 \<Rightarrow> address" where
  "CreateAddress kec b nonce =
     BytesToAddress (drop 12 (kec (b @ map (\<lambda>i. ucast (drop_bit (8 * (7 - i)) nonce)) [0..<8])))"

text \<open>\<^verbatim>\<open>SetBytes\<close> of a hash panics on more than 32 bytes; nil gives the zero hash.\<close>

definition Bytes2Hash :: "bytes option \<Rightarrow> hash option" where
  "Bytes2Hash b =
     (case b of None \<Rightarrow> Some ZeroHash
      | Some b \<Rightarrow> if length b > HashLength then None
                  else Some (replicate (HashLength - length b) 0 @ b))"

subsection \<open>Address strings\<close>

definition hexDigit :: "byte \<Rightarrow> byte" where
  "hexDigit n = (if n < 10 then 48 + n else 87 + n)"

definition hexEncode :: "bytes \<Rightarrow> bytes" where
  "hexEncode bs = concat (map (\<lambda>b. [hexDigit (b div 16), hexDigit (b mod 16)]) bs)"

text \<open>
  \<^verbatim>\<open>Hex\<close> is the EIP-55 form: a letter whose nibble of the Keccak hash of the lower-case
  form exceeds 7 is put in upper case. Keccak returns 32 bytes, so \<^verbatim>\<open>hash[i/2]\<close> is in
  range for the 40 digits of an address.
\<close>

definition checksumDigit :: "bytes \<Rightarrow> nat \<Rightarrow> byte \<Rightarrow> byte" where
  "checksumDigit hsh i c =
     (let hb = (if i div 2 < length hsh then hsh ! (i div 2) else 0);
          hashByte = (if even i then drop_bit 4 hb else hb AND 15)
      in if c > 57 \<and> hashByte > 7 then c - 32 else c)"

definition addrHex :: "(bytes \<Rightarrow> bytes) \<Rightarrow> address \<Rightarrow> bytes" where
  "addrHex keccak a =
     (let unchecksummed = hexEncode a; hsh = keccak unchecksummed
      in [48, 120] @ map (\<lambda>(i, c). checksumDigit hsh i c) (enumerate 0 unchecksummed))"

definition addrIsEmpty :: "address \<Rightarrow> bool" where
  "addrIsEmpty a = (a = ZeroAddress)"

subsection \<open>Headers and block nodes\<close>

record BlockHeader =
  hChainId :: u32
  hVersion :: "32 word"
  hPreviousHash :: hash
  hGasLimit :: int
  hGasUsed :: int
  hHeight :: u64
  hTimestamp :: u64
  hStateRoot :: bytes
  hTxRoot :: bytes
  hReceiptRoot :: hash
  hMinerAddr :: address
  hBloom :: bytes

text \<open>The validation state of a block is a bit field in a byte.\<close>

definition StatusDataStored :: byte where "StatusDataStored = 1"
definition StatusValid :: byte where "StatusValid = 2"
definition StatusValidateFailed :: byte where "StatusValidateFailed = 4"
definition StatusInvalidAncestor :: byte where "StatusInvalidAncestor = 8"
definition StatusNone :: byte where "StatusNone = 0"

definition HaveData :: "byte \<Rightarrow> bool" where
  "HaveData status = (status AND StatusDataStored \<noteq> 0)"

definition KnownValid :: "byte \<Rightarrow> bool" where
  "KnownValid status = (status AND StatusValid \<noteq> 0)"

definition KnownInvalid :: "byte \<Rightarrow> bool" where
  "KnownInvalid status = (status AND (StatusValidateFailed OR StatusInvalidAncestor) \<noteq> 0)"

record BlockNode =
  Parent :: "ptr option"
  Hash :: hash
  StateRoot :: bytes
  TimeStamp :: u64
  Height :: u64
  ChainId :: u32
  Version :: "32 word"
  PreviousHash :: hash
  GasLimit :: int
  GasUsed :: int
  MerkleRoot :: bytes
  ReceiptRoot :: hash
  Bloom :: bytes
  Status :: byte
  MinerAddr :: address

text \<open>The block nodes in memory: what each pointer holds.\<close>

type_synonym nodes = "ptr \<Rightarrow> BlockNode"

subsection \<open>Transactions\<close>

text \<open>
  A transaction as the pool and the executors see it: the data fields, its hash and what
  \<^verbatim>\<open>From()\<close> recovers from the signature (\<open>None\<close> when the recovery fails). The
  persistent form is the codec's output, of which only the bytes matter (for the gas).
\<close>

record Transaction =
  txNonce :: u64
  txType :: u64
  txTo :: address
  txChainId :: u32
  txAmount :: int
  txGasPrice :: int
  txGasLimit :: int
  txTimestamp :: int
  txData :: bytes
  txHash :: hash
  txFrom :: "address option"
  txPersistent :: bytes

definition TransferType :: u64 where "TransferType = 0"
definition CreateContractType :: u64 where "CreateContractType = 1"
definition CallContractType :: u64 where "CallContractType = 2"
definition SetAliasType :: u64 where "SetAliasType = 3"
definition VoteCreditType :: u64 where "VoteCreditType = 4"
definition CancelVoteCreditType :: u64 where "CancelVoteCreditType = 5"
definition CandidateType :: u64 where "CandidateType = 6"
definition CancelCandidateType :: u64 where "CancelCandidateType = 7"
definition RegisterProducer :: u64 where "RegisterProducer = 8"

lemmas TxType_defs = TransferType_def CreateContractType_def CallContractType_def
  SetAliasType_def VoteCreditType_def CancelVoteCreditType_def CandidateType_def
  CancelCandidateType_def RegisterProducer_def

text \<open>\<^verbatim>\<open>big.Int.Uint64\<close> is the low 64 bits of the absolute value.\<close>

definition bigUint64 :: "int \<Rightarrow> u64" where
  "bigUint64 x = word_of_int \<bar>x\<bar>"

definition txGas :: "Transaction \<Rightarrow> u64" where
  "txGas tx = bigUint64 (txGasLimit tx)"

definition txCost :: "Transaction \<Rightarrow> int" where
  "txCost tx = txGasPrice tx * uint (txGas tx) + txAmount tx"

definition Coin :: int where "Coin = 10 ^ 18"
definition Rewards :: int where "Rewards = 100"
definition AliasGas :: u64 where "AliasGas = 68"
definition MinGasLimit :: u64 where "MinGasLimit = 18000000"
definition MaxGasLimit :: u64 where "MaxGasLimit = 70000000"
definition TxGas :: u64 where "TxGas = 21000"
definition TxGasContractCreation :: u64 where "TxGasContractCreation = 53000"
definition TxDataZeroGas :: u64 where "TxDataZeroGas = 4"
definition TxDataNonZeroGas :: u64 where "TxDataNonZeroGas = 68"

definition CoinFromNumer :: "int \<Rightarrow> int" where
  "CoinFromNumer number = Coin * number"

definition HoleAddress :: address where "HoleAddress = replicate AddressLength 0"

text \<open>
  \<^verbatim>\<open>IntrinsicGas\<close>: the base price plus a price per zero and per non-zero byte of the
  persistent form, each addition guarded against wrap-around (\<open>None\<close> is \<^verbatim>\<open>ErrOutOfGas\<close>).
\<close>

definition IntrinsicGas :: "Transaction \<Rightarrow> u64 option" where
  "IntrinsicGas tx =
     (let data = txPersistent tx;
          contractCreation = (addrIsEmpty (txTo tx) \<and> txType tx = CreateContractType);
          gas = (if contractCreation then TxGasContractCreation else TxGas)
      in if length data = 0 then Some gas
         else let nz = of_nat (length (filter (\<lambda>b. b \<noteq> 0) data))
              in if (- 1 - gas) div TxDataNonZeroGas < nz then None
                 else let gas1 = gas + nz * TxDataNonZeroGas;
                          z = of_nat (length data) - nz
                      in if (- 1 - gas1) div TxDataZeroGas < z then None
                         else Some (gas1 + z * TxDataZeroGas))"

subsection \<open>Lemmas\<close>

text \<open>Two addresses have the same string only if they are equal, whatever Keccak returns.\<close>

lemma nibble_values:
  assumes "n < (16 :: byte)"
  shows "n \<in> {0, 1, 2, 3, 4, 5, 6, 7, 8, 9, 10, 11, 12, 13, 14, 15}"
proof -
  have "unat n < 16" using assms by (simp add: word_less_nat_alt)
  then have "unat n \<in> {0, 1, 2, 3, 4, 5, 6, 7, 8, 9, 10, 11, 12, 13, 14, 15}"
    unfolding insert_iff empty_iff by presburger
  then have "of_nat (unat n) \<in> (of_nat ` {0, 1, 2, 3, 4, 5, 6, 7, 8, 9, 10, 11, 12, 13, 14, 15} :: byte set)"
    by (rule imageI)
  then show ?thesis by simp
qed

definition lowerDigit :: "byte \<Rightarrow> byte" where
  "lowerDigit c = (if 65 \<le> c \<and> c \<le> 70 then c + 32 else c)"

lemma lowerDigit_checksumDigit:
  assumes "n < 16"
  shows "lowerDigit (checksumDigit hsh i (hexDigit n)) = hexDigit n"
  using nibble_values[OF assms]
  by (elim insertE emptyE)
     (simp_all add: lowerDigit_def checksumDigit_def hexDigit_def Let_def)

lemma hexDigit_inj: "\<lbrakk>m < 16; n < 16; hexDigit m = hexDigit n\<rbrakk> \<Longrightarrow> m = n"
proof -
  assume h: "m < 16" "n < 16" and eq: "hexDigit m = hexDigit n"
  show "m = n"
    using nibble_values[OF h(1)] nibble_values[OF h(2)] eq
    by (elim insertE emptyE) (simp_all add: hexDigit_def)
qed

lemma byte_nibbles_less [simp]: "b div 16 < 16" "b mod 16 < 16" for b :: byte
  using unsigned_less[where 'a = nat, of b] by (simp_all add: word_less_nat_alt unat_div unat_mod)

lemma byte_eq_nibbles: "\<lbrakk>a div 16 = b div 16; a mod 16 = b mod 16\<rbrakk> \<Longrightarrow> a = b" for a b :: byte
  by (metis div_mult_mod_eq)

lemma hexEncode_inj: "hexEncode a = hexEncode b \<Longrightarrow> a = b"
proof (induction a arbitrary: b)
  case Nil
  then show ?case by (cases b) (simp_all add: hexEncode_def)
next
  case (Cons x a)
  then obtain y c where b: "b = y # c" by (cases b) (simp_all add: hexEncode_def)
  with Cons.prems have "hexDigit (x div 16) = hexDigit (y div 16)"
    "hexDigit (x mod 16) = hexDigit (y mod 16)" "hexEncode a = hexEncode c"
    by (simp_all add: hexEncode_def)
  then show ?case
    using b Cons.IH by (auto intro: byte_eq_nibbles dest!: hexDigit_inj[rotated 2])
qed

lemma hexEncode_digits: "c \<in> set (hexEncode bs) \<Longrightarrow> \<exists>n < 16. c = hexDigit n"
  by (auto simp: hexEncode_def) (metis byte_nibbles_less)+

lemma lower_addrHex:
  "map lowerDigit (drop 2 (addrHex keccak a)) = hexEncode a"
proof (rule nth_equalityI)
  show "length (map lowerDigit (drop 2 (addrHex keccak a))) = length (hexEncode a)"
    by (simp add: addrHex_def Let_def)
next
  fix i
  assume "i < length (map lowerDigit (drop 2 (addrHex keccak a)))"
  then have i: "i < length (hexEncode a)" by (simp add: addrHex_def Let_def)
  obtain n where "n < 16" "hexEncode a ! i = hexDigit n"
    using hexEncode_digits[OF nth_mem[OF i]] by blast
  then show "map lowerDigit (drop 2 (addrHex keccak a)) ! i = hexEncode a ! i"
    using i by (simp add: addrHex_def Let_def nth_enumerate_eq lowerDigit_checksumDigit)
qed

lemma addrHex_eq_iff [simp]: "addrHex keccak a = addrHex keccak b \<longleftrightarrow> a = b"
  by (metis lower_addrHex hexEncode_inj)

lemma length_BytesToAddress: "length (BytesToAddress b) = AddressLength"
  by (auto simp: BytesToAddress_def Let_def)

lemma BytesToAddress_id: "length a = AddressLength \<Longrightarrow> BytesToAddress a = a"
  by (simp add: BytesToAddress_def)

lemma length_Bytes2Hash: "Bytes2Hash b = Some h \<Longrightarrow> length h = HashLength"
  by (auto simp: Bytes2Hash_def ZeroHash_def split: option.splits if_splits)

end
