(* ===== verification/Trie.thy ===== *)
theory Trie
  imports TrieEncoding ChainTypes
begin

section \<open>The Merkle Patricia trie\<close>

text \<open>
  \<^verbatim>\<open>common/trie/trie.go\<close> and the node types of \<^verbatim>\<open>common/trie/node.go\<close>. A node that is not
  loaded is a hash node; the operations load it through the reader of the trie's database.
  The recursive operations are partial functions whose \<open>None\<close> is a panic or a call that
  does not return, and otherwise give the code's result tuple with its error value.
\<close>

subsection \<open>Nodes\<close>

record nodeFlag =
  fHash :: "bytes option"
  fDirty :: bool

datatype tnode =
    NilNode
  | FullNode "tnode list" nodeFlag
  | ShortNode bytes tnode nodeFlag
  | HashNode bytes
  | ValueNode bytes

datatype trieError = MissingNodeError hash bytes

text \<open>How a database finds a node: \<open>Ok None\<close> when it does not have it, \<open>Panic\<close> when the stored bytes do not decode.\<close>

type_synonym nodeReader = "hash \<Rightarrow> (trieError, tnode option) res"

record Trie =
  tDb :: nodeReader
  tDbWrite :: "nodeReader option"
  tRoot :: tnode

definition newFlag :: nodeFlag where
  "newFlag = \<lparr>fHash = None, fDirty = True\<rparr>"

definition resolveHash :: "Trie \<Rightarrow> bytes \<Rightarrow> bytes \<Rightarrow> (trieError, tnode) res" where
  "resolveHash t n path =
     andThen (lift_panic (Bytes2Hash (Some n))) (\<lambda>h.
     andThen (case tDbWrite t of None \<Rightarrow> Ok None | Some w \<Rightarrow> w h) (\<lambda>found.
     case found of Some nd \<Rightarrow> Ok nd
     | None \<Rightarrow> andThen (tDb t h) (\<lambda>found.
         case found of Some nd \<Rightarrow> Ok nd | None \<Rightarrow> Err (MissingNodeError h path))))"

definition resolve :: "Trie \<Rightarrow> tnode \<Rightarrow> bytes \<Rightarrow> (trieError, tnode) res" where
  "resolve t n path = (case n of HashNode h \<Rightarrow> resolveHash t h path | _ \<Rightarrow> Ok n)"

subsection \<open>Lookup\<close>

type_synonym getResult = "bytes option \<times> tnode \<times> bool \<times> trieError option"

partial_function (option) tryGet :: "Trie \<Rightarrow> tnode \<Rightarrow> bytes \<Rightarrow> nat \<Rightarrow> getResult option" where
  "tryGet t n key pos =
     (case n of
        NilNode \<Rightarrow> Some (None, NilNode, False, None)
      | ValueNode v \<Rightarrow> Some (Some v, n, False, None)
      | ShortNode k v fl \<Rightarrow>
          if length key < pos + length k \<or> k \<noteq> take (length k) (drop pos key)
          then Some (None, n, False, None)
          else Option.bind (tryGet t v key (pos + length k)) (\<lambda>(value, nn, didResolve, err).
            Some (value, if err = None \<and> didResolve then ShortNode k nn fl else n, didResolve, err))
      | FullNode cs fl \<Rightarrow>
          Option.bind (index_at key pos) (\<lambda>b.
          Option.bind (index_at cs (unat b)) (\<lambda>c.
          Option.bind (tryGet t c key (pos + 1)) (\<lambda>(value, nn, didResolve, err).
            Some (value, if err = None \<and> didResolve then FullNode (cs[unat b := nn]) fl else n,
                  didResolve, err))))
      | HashNode h \<Rightarrow>
          (case resolveHash t h (take pos key) of
             Panic \<Rightarrow> None
           | Err e \<Rightarrow> Some (None, n, True, Some e)
           | Ok child \<Rightarrow> Option.bind (tryGet t child key pos) (\<lambda>(value, nn, _, err).
               Some (value, nn, True, err))))"

definition TryGet :: "Trie \<Rightarrow> bytes \<Rightarrow> (bytes option \<times> trieError option \<times> Trie) option" where
  "TryGet t key =
     Option.bind (tryGet t (tRoot t) (keybytesToHex key) 0) (\<lambda>(value, newroot, didResolve, err).
       Some (value, err, if err = None \<and> didResolve then t\<lparr>tRoot := newroot\<rparr> else t))"

subsection \<open>Insertion\<close>

type_synonym editResult = "bool \<times> tnode \<times> trieError option"

partial_function (option) insert_t :: "Trie \<Rightarrow> tnode \<Rightarrow> bytes \<Rightarrow> bytes \<Rightarrow> tnode \<Rightarrow> editResult option" where
  "insert_t t n path key value =
     (if key = [] then
        (case n of
           ValueNode v \<Rightarrow> (case value of ValueNode w \<Rightarrow> Some (v \<noteq> w, value, None) | _ \<Rightarrow> None)
         | _ \<Rightarrow> Some (True, value, None))
      else
        (case n of
           ShortNode nkey nval fl \<Rightarrow>
             let matchlen = prefixLen key nkey
             in if matchlen = length nkey then
                  Option.bind (insert_t t nval (path @ take matchlen key) (drop matchlen key) value)
                    (\<lambda>(dirty, nn, err).
                      if \<not> dirty \<or> err \<noteq> None then Some (False, n, err)
                      else Some (True, ShortNode nkey nn newFlag, None))
                else
                  Option.bind (index_at nkey matchlen) (\<lambda>i.
                  Option.bind (insert_t t NilNode (path @ take (matchlen + 1) nkey) (drop (matchlen + 1) nkey) nval)
                    (\<lambda>(_, old, err1).
                  if err1 \<noteq> None then Some (False, NilNode, err1) else
                  Option.bind (index_at key matchlen) (\<lambda>j.
                  Option.bind (insert_t t NilNode (path @ take (matchlen + 1) key) (drop (matchlen + 1) key) value)
                    (\<lambda>(_, new, err2).
                  if err2 \<noteq> None then Some (False, NilNode, err2) else
                  if unat i < 17 \<and> unat j < 17 then
                    let branch = FullNode ((replicate 17 NilNode)[unat i := old, unat j := new]) newFlag
                    in if matchlen = 0 then Some (True, branch, None)
                       else Some (True, ShortNode (take matchlen key) branch newFlag, None)
                  else None))))
         | FullNode cs fl \<Rightarrow>
             Option.bind (index_at cs (unat (key ! 0))) (\<lambda>c.
             Option.bind (insert_t t c (path @ [key ! 0]) (drop 1 key) value) (\<lambda>(dirty, nn, err).
               if \<not> dirty \<or> err \<noteq> None then Some (False, n, err)
               else Some (True, FullNode (cs[unat (key ! 0) := nn]) newFlag, None)))
         | NilNode \<Rightarrow> Some (True, ShortNode key value newFlag, None)
         | HashNode h \<Rightarrow>
             (case resolveHash t h path of
                Panic \<Rightarrow> None
              | Err e \<Rightarrow> Some (False, NilNode, Some e)
              | Ok rn \<Rightarrow> Option.bind (insert_t t rn path key value) (\<lambda>(dirty, nn, err).
                  if \<not> dirty \<or> err \<noteq> None then Some (False, rn, err)
                  else Some (True, nn, None)))
         | ValueNode v \<Rightarrow> None))"

subsection \<open>Deletion\<close>

text \<open>The position of the only child, -1 for no child, -2 for two or more.\<close>

fun remainingChild :: "nat \<Rightarrow> int \<Rightarrow> tnode list \<Rightarrow> int" where
  "remainingChild i pos [] = pos"
| "remainingChild i pos (c # cs) =
     (if c \<noteq> NilNode then (if pos = -1 then remainingChild (i + 1) (int i) cs else -2)
      else remainingChild (i + 1) pos cs)"

text \<open>The full node after one of its children has changed: it becomes a short node when a single child is left.\<close>

definition reduceFull :: "Trie \<Rightarrow> bytes \<Rightarrow> tnode list \<Rightarrow> editResult option" where
  "reduceFull t path cs =
     (let pos = remainingChild 0 (-1) cs
      in if pos \<ge> 0 then
           let i = nat pos;
               short = Some (True, ShortNode [of_int pos] (cs ! i) newFlag, None)
           in if pos \<noteq> 16 then
                (case resolve t (cs ! i) path of
                   Panic \<Rightarrow> None
                 | Err e \<Rightarrow> Some (False, NilNode, Some e)
                 | Ok cnode \<Rightarrow>
                     (case cnode of
                        ShortNode ckey cval _ \<Rightarrow> Some (True, ShortNode (of_int pos # ckey) cval newFlag, None)
                      | _ \<Rightarrow> short))
              else short
         else Some (True, FullNode cs newFlag, None))"

partial_function (option) delete_t :: "Trie \<Rightarrow> tnode \<Rightarrow> bytes \<Rightarrow> bytes \<Rightarrow> editResult option" where
  "delete_t t n path key =
     (case n of
        ShortNode nkey nval fl \<Rightarrow>
          let matchlen = prefixLen key nkey
          in if matchlen < length nkey then Some (False, n, None)
             else if matchlen = length key then Some (True, NilNode, None)
             else Option.bind (delete_t t nval (path @ take (length nkey) key) (drop (length nkey) key))
               (\<lambda>(dirty, child, err).
                 if \<not> dirty \<or> err \<noteq> None then Some (False, n, err)
                 else case child of
                   ShortNode ckey cval _ \<Rightarrow> Some (True, ShortNode (nkey @ ckey) cval newFlag, None)
                 | _ \<Rightarrow> Some (True, ShortNode nkey child newFlag, None))
      | FullNode cs fl \<Rightarrow>
          Option.bind (index_at key 0) (\<lambda>b.
          Option.bind (index_at cs (unat b)) (\<lambda>c.
          Option.bind (delete_t t c (path @ [b]) (drop 1 key)) (\<lambda>(dirty, nn, err).
            if \<not> dirty \<or> err \<noteq> None then Some (False, n, err)
            else reduceFull t path (cs[unat b := nn]))))
      | ValueNode v \<Rightarrow> Some (True, NilNode, None)
      | NilNode \<Rightarrow> Some (False, NilNode, None)
      | HashNode h \<Rightarrow>
          (case resolveHash t h path of
             Panic \<Rightarrow> None
           | Err e \<Rightarrow> Some (False, NilNode, Some e)
           | Ok rn \<Rightarrow> Option.bind (delete_t t rn path key) (\<lambda>(dirty, nn, err).
               if \<not> dirty \<or> err \<noteq> None then Some (False, rn, err)
               else Some (True, nn, None))))"

definition TryDelete :: "Trie \<Rightarrow> bytes \<Rightarrow> (trieError option \<times> Trie) option" where
  "TryDelete t key =
     Option.bind (delete_t t (tRoot t) [] (keybytesToHex key)) (\<lambda>(_, n, err).
       Some (if err \<noteq> None then (err, t) else (None, t\<lparr>tRoot := n\<rparr>)))"

definition TryUpdate :: "Trie \<Rightarrow> bytes \<Rightarrow> bytes \<Rightarrow> (trieError option \<times> Trie) option" where
  "TryUpdate t key value =
     (let k = keybytesToHex key
      in if value \<noteq> [] then
           Option.bind (insert_t t (tRoot t) [] k (ValueNode value)) (\<lambda>(_, n, err).
             Some (if err \<noteq> None then (err, t) else (None, t\<lparr>tRoot := n\<rparr>)))
         else
           Option.bind (delete_t t (tRoot t) [] k) (\<lambda>(_, n, err).
             Some (if err \<noteq> None then (err, t) else (None, t\<lparr>tRoot := n\<rparr>))))"

end
