(* ===== verification/MapStore.thy ===== *)
theory MapStore
  imports Prelude
begin

section \<open>The interface of a key-value store\<close>

text \<open>
  What the components above a store rely on: a lookup returns the value of the key, an
  update with a non-empty value sets it, an update with an empty value and a deletion
  remove it, none of them fails, and lookups do not change the contents. Each operation
  is a Go call: \<open>None\<close> when it does not return, otherwise its results and the new state.
\<close>

datatype storeOp = OpGet bytes | OpPut bytes bytes | OpDel bytes

definition updated :: "bytes \<Rightarrow> bytes option" where
  "updated v = (if v = [] then None else Some v)"

fun applyOp :: "(bytes \<rightharpoonup> bytes) \<Rightarrow> storeOp \<Rightarrow> (bytes \<rightharpoonup> bytes)" where
  "applyOp c (OpGet k) = c"
| "applyOp c (OpPut k v) = c(k := updated v)"
| "applyOp c (OpDel k) = c(k := None)"

text \<open>A sequence of operations, stopping at the first error.\<close>

fun runOps :: "('s \<Rightarrow> bytes \<Rightarrow> (bytes option \<times> 'e option \<times> 's) option) \<Rightarrow>
    ('s \<Rightarrow> bytes \<Rightarrow> bytes \<Rightarrow> ('e option \<times> 's) option) \<Rightarrow>
    ('s \<Rightarrow> bytes \<Rightarrow> ('e option \<times> 's) option) \<Rightarrow> 's \<Rightarrow> storeOp list \<Rightarrow> ('e option \<times> 's) option" where
  "runOps get put del s [] = Some (None, s)"
| "runOps get put del s (x # xs) =
     Option.bind (case x of
         OpGet k \<Rightarrow> map_option (\<lambda>(_, err, s'). (err, s')) (get s k)
       | OpPut k v \<Rightarrow> put s k v
       | OpDel k \<Rightarrow> del s k)
       (\<lambda>(err, s'). if err \<noteq> None then Some (err, s') else runOps get put del s' xs)"

locale map_store =
  fixes rep :: "'s \<Rightarrow> (bytes \<rightharpoonup> bytes) \<Rightarrow> bool"
    and get :: "'s \<Rightarrow> bytes \<Rightarrow> (bytes option \<times> 'e option \<times> 's) option"
    and put :: "'s \<Rightarrow> bytes \<Rightarrow> bytes \<Rightarrow> ('e option \<times> 's) option"
    and del :: "'s \<Rightarrow> bytes \<Rightarrow> ('e option \<times> 's) option"
  assumes get_ok: "rep s c \<Longrightarrow> \<exists>s'. get s k = Some (c k, None, s') \<and> rep s' c"
    and put_ok: "rep s c \<Longrightarrow> \<exists>s'. put s k v = Some (None, s') \<and> rep s' (c(k := updated v))"
    and del_ok: "rep s c \<Longrightarrow> \<exists>s'. del s k = Some (None, s') \<and> rep s' (c(k := None))"
begin

lemma run_ok:
  "rep s c \<Longrightarrow> \<exists>s'. runOps get put del s xs = Some (None, s') \<and> rep s' (foldl applyOp c xs)"
proof (induction xs arbitrary: s c)
  case (Cons x xs)
  show ?case
  proof (cases x)
    case (OpGet k)
    with get_ok [OF Cons.prems, of k] Cons.IH show ?thesis by fastforce
  next
    case (OpPut k v)
    with put_ok [OF Cons.prems, of k v] Cons.IH show ?thesis by fastforce
  next
    case (OpDel k)
    with del_ok [OF Cons.prems, of k] Cons.IH show ?thesis by fastforce
  qed
qed simp

lemma get_after_run:
  assumes "rep s c"
  shows "\<exists>s' s''. runOps get put del s xs = Some (None, s') \<and>
           get s' k = Some (foldl applyOp c xs k, None, s'')"
  using run_ok [OF assms, of xs] get_ok by blast

lemma get_after_put:
  assumes "rep s c" "v \<noteq> []"
  shows "\<exists>s' s''. put s k v = Some (None, s') \<and> get s' k = Some (Some v, None, s'')"
proof -
  obtain s' where s': "put s k v = Some (None, s')" "rep s' (c(k := updated v))"
    using put_ok [OF assms(1)] by blast
  then show ?thesis using get_ok [OF s'(2), of k] assms(2) by (auto simp: updated_def)
qed

lemma get_other_after_put:
  assumes "rep s c" "j \<noteq> k"
  shows "\<exists>s' s''. put s k v = Some (None, s') \<and> get s' j = Some (c j, None, s'')"
proof -
  obtain s' where s': "put s k v = Some (None, s')" "rep s' (c(k := updated v))"
    using put_ok [OF assms(1)] by blast
  then show ?thesis using get_ok [OF s'(2), of j] assms(2) by auto
qed

end

end
