(* ===== verification/TrieCorrect.thy ===== *)
theory TrieCorrect
  imports Trie MapStore
begin

section \<open>Correctness of the trie operations\<close>

text \<open>
  The relation \<open>trep t b n m\<close> says that node \<open>n\<close> of trie \<open>t\<close> has the canonical form of a
  Patricia trie and stores the finite map \<open>m\<close> from hex keys (what is left of the key below
  the node) to values. Lookup, insertion and deletion are proved to return on such nodes
  and to be the lookup, update and restriction of \<open>m\<close>, loading hash nodes as they go; and
  two loaded nodes that store the same map are equal up to flags.
\<close>

section \<open>What a node stores\<close>

text \<open>Keys are nibbles followed by the terminator 16.\<close>

definition hextail :: "bytes \<Rightarrow> bool" where
  "hextail k \<longleftrightarrow> (\<exists>ns. nibbles ns \<and> k = ns @ [16])"

definition keyok :: "bool \<Rightarrow> bytes \<Rightarrow> bool" where
  "keyok b k \<longleftrightarrow> (if b then k = [] else hextail k)"

definition under :: "bytes \<Rightarrow> (bytes \<rightharpoonup> bytes) \<Rightarrow> (bytes \<rightharpoonup> bytes)" where
  "under k m x = (if prefix k x then m (drop (length k) x) else None)"

definition branchMap :: "(nat \<Rightarrow> bytes \<rightharpoonup> bytes) \<Rightarrow> (bytes \<rightharpoonup> bytes)" where
  "branchMap ms x = (case x of [] \<Rightarrow> None | b # r \<Rightarrow> if unat b < 17 then ms (unat b) r else None)"

definition isFull :: "Trie \<Rightarrow> tnode \<Rightarrow> bool" where
  "isFull t n \<longleftrightarrow> (case n of FullNode _ _ \<Rightarrow> True
     | HashNode h \<Rightarrow> (\<exists>cs fl. \<forall>p. resolveHash t h p = Ok (FullNode cs fl)) | _ \<Rightarrow> False)"

definition twoChildren :: "tnode list \<Rightarrow> bool" where
  "twoChildren cs \<longleftrightarrow> (\<exists>i j. i < j \<and> j < length cs \<and> cs ! i \<noteq> NilNode \<and> cs ! j \<noteq> NilNode)"

text \<open>
  \<open>trep t b n m\<close>: node \<open>n\<close> stores \<open>m\<close>; \<open>b\<close> tells whether the terminator is already
  consumed above \<open>n\<close>. Short nodes are leaves or lead to a full node, and full nodes have
  at least two children.
\<close>

inductive trep :: "Trie \<Rightarrow> bool \<Rightarrow> tnode \<Rightarrow> (bytes \<rightharpoonup> bytes) \<Rightarrow> bool" for t where
  empty: "trep t b NilNode Map.empty"
| val: "v \<noteq> [] \<Longrightarrow> trep t True (ValueNode v) [[] \<mapsto> v]"
| leaf: "\<lbrakk>hextail k; v \<noteq> []\<rbrakk> \<Longrightarrow> trep t False (ShortNode k (ValueNode v) fl) [k \<mapsto> v]"
| ext: "\<lbrakk>k \<noteq> []; nibbles k; isFull t n; trep t False n m\<rbrakk> \<Longrightarrow>
    trep t False (ShortNode k n fl) (under k m)"
| full: "\<lbrakk>length cs = 17; \<And>i. i < 17 \<Longrightarrow> trep t (i = 16) (cs ! i) (ms i); twoChildren cs\<rbrakk> \<Longrightarrow>
    trep t False (FullNode cs fl) (branchMap ms)"
| hash: "\<lbrakk>\<And>p. resolveHash t h p = Ok n; \<And>g. n \<noteq> HashNode g; n \<noteq> NilNode; trep t False n m\<rbrakk> \<Longrightarrow>
    trep t False (HashNode h) m"

inductive_cases trep_NilE [elim!]: "trep t b NilNode m"
inductive_cases trep_ValueE: "trep t b (ValueNode v) m"
inductive_cases trep_ShortE: "trep t b (ShortNode k n fl) m"
inductive_cases trep_FullE: "trep t b (FullNode cs fl) m"
inductive_cases trep_HashE: "trep t b (HashNode h) m"

lemma isFull_simps [simp]:
  "\<not> isFull t NilNode" "isFull t (FullNode cs fl)" "\<not> isFull t (ShortNode k n fl)"
  "\<not> isFull t (ValueNode v)"
  "isFull t (HashNode h) \<longleftrightarrow> (\<exists>cs fl. \<forall>p. resolveHash t h p = Ok (FullNode cs fl))"
  by (simp_all add: isFull_def)

lemma hextail_Cons: "hextail (b # r) \<longleftrightarrow> (b = 16 \<and> r = []) \<or> (b < 16 \<and> hextail r)"
proof -
  have ex: "(\<exists>ns. P ns) \<longleftrightarrow> P [] \<or> (\<exists>a l. P (a # l))" for P :: "bytes \<Rightarrow> bool"
    by (metis list.exhaust)
  show ?thesis unfolding hextail_def by (subst ex) auto
qed

lemma hextail_not_Nil [simp]: "\<not> hextail []"
  by (simp add: hextail_def)

lemma keyok_simps [simp]: "keyok True k \<longleftrightarrow> k = []" "keyok False k \<longleftrightarrow> hextail k"
  by (simp_all add: keyok_def)

lemma hextail_split: "hextail k \<Longrightarrow> i < length k \<Longrightarrow>
    unat (k ! i) < 17 \<and> keyok (k ! i = 16) (drop (Suc i) k)"
proof (induction k arbitrary: i)
  case (Cons b r)
  show ?case
  proof (cases i)
    case 0
    then show ?thesis using Cons.prems by (auto simp: hextail_Cons word_less_nat_alt keyok_def)
  next
    case (Suc j)
    then have "hextail r" using Cons.prems by (auto simp: hextail_Cons)
    then show ?thesis using Cons.IH [of j] Cons.prems Suc by simp
  qed
qed simp

lemma hextail_drop_nibbles: "\<lbrakk>hextail k; nibbles (take i k); i \<le> length k\<rbrakk> \<Longrightarrow> hextail (drop i k)"
proof (induction k arbitrary: i)
  case (Cons b r)
  then show ?case by (cases i) (auto simp: hextail_Cons)
qed simp

lemma hextail_append: "\<lbrakk>nibbles k; hextail r\<rbrakk> \<Longrightarrow> hextail (k @ r)"
  by (induction k) (auto simp: hextail_Cons)

lemma hextail_prefix_eq: "\<lbrakk>hextail a; hextail b; prefix a b\<rbrakk> \<Longrightarrow> a = b"
proof (induction a arbitrary: b)
  case (Cons x a)
  then show ?case by (cases b) (auto simp: hextail_Cons)
qed simp

section \<open>Maps of nodes\<close>

lemma under_append [simp]: "under k m (k @ x) = m x"
  by (simp add: under_def)

lemma under_Nil [simp]: "under [] m = m"
  by (rule HOL.ext) (simp add: under_def)

lemma under_upd: "(under k m)(k @ x := v) = under k (m(x := v))"
  by (rule HOL.ext) (auto simp: under_def prefix_def)

lemma under_under: "under a (under b m) = under (a @ b) m"
  by (rule HOL.ext) (auto simp: under_def prefix_def)

lemma under_single: "under k [x \<mapsto> v] = [k @ x \<mapsto> v]"
  by (rule HOL.ext) (auto simp: under_def prefix_def)

lemma branchMap_Cons [simp]: "unat b < 17 \<Longrightarrow> branchMap ms (b # r) = ms (unat b) r"
  by (simp add: branchMap_def)

lemma branchMap_upd:
  "unat b < 17 \<Longrightarrow> (branchMap ms)(b # r := v) = branchMap (ms(unat b := (ms (unat b))(r := v)))"
  by (rule HOL.ext) (auto simp: branchMap_def word_unat_eq_iff split: list.splits)

section \<open>Lookup\<close>

lemma tryGet_simps:
  "tryGet t NilNode key pos = Some (None, NilNode, False, None)"
  "tryGet t (ValueNode v) key pos = Some (Some v, ValueNode v, False, None)"
  by (subst tryGet.simps, simp)+

lemma tryGet_Short:
  "tryGet t (ShortNode k v fl) key pos =
     (if length key < pos + length k \<or> k \<noteq> take (length k) (drop pos key)
      then Some (None, ShortNode k v fl, False, None)
      else Option.bind (tryGet t v key (pos + length k)) (\<lambda>(value, nn, didResolve, err).
        Some (value, if err = None \<and> didResolve then ShortNode k nn fl else ShortNode k v fl, didResolve, err)))"
  by (subst tryGet.simps) simp

lemma tryGet_Full:
  "\<lbrakk>pos < length key; unat (key ! pos) < length cs\<rbrakk> \<Longrightarrow> tryGet t (FullNode cs fl) key pos =
     Option.bind (tryGet t (cs ! unat (key ! pos)) key (pos + 1)) (\<lambda>(value, nn, didResolve, err).
       Some (value, if err = None \<and> didResolve then FullNode (cs[unat (key ! pos) := nn]) fl
                    else FullNode cs fl, didResolve, err))"
  by (subst tryGet.simps) (simp add: index_at_def)

lemma tryGet_Hash:
  "resolveHash t h (take pos key) = Ok n \<Longrightarrow> tryGet t (HashNode h) key pos =
     Option.bind (tryGet t n key pos) (\<lambda>(value, nn, _, err). Some (value, nn, True, err))"
  by (subst tryGet.simps) simp

text \<open>
  A lookup returns the stored value and an equivalent node, in which the nodes on the path
  are loaded.
\<close>

definition sameKind :: "Trie \<Rightarrow> tnode \<Rightarrow> tnode \<Rightarrow> bool" where
  "sameKind t n n' \<longleftrightarrow> (isFull t n \<longrightarrow> isFull t n') \<and> (n' = NilNode \<longleftrightarrow> n = NilNode)"

lemma sameKind_refl [simp]: "sameKind t n n"
  by (simp add: sameKind_def)

lemma twoChildren_update:
  assumes "twoChildren cs" "cs ! i \<noteq> NilNode \<Longrightarrow> c \<noteq> NilNode"
  shows "twoChildren (cs[i := c])"
proof -
  have keep: "cs[i := c] ! k \<noteq> NilNode" if "k < length cs" "cs ! k \<noteq> NilNode" for k
    using assms(2) that by (cases "k = i") simp_all
  obtain p q where "p < q" "q < length cs" "cs ! p \<noteq> NilNode" "cs ! q \<noteq> NilNode"
    using assms(1) by (auto simp: twoChildren_def)
  with keep show ?thesis
    unfolding twoChildren_def by (intro exI [of _ p] exI [of _ q]) auto
qed

lemma trep_full_update:
  assumes "length cs = 17" "\<And>i. i < 17 \<Longrightarrow> trep t (i = 16) (cs ! i) (ms i)" "i < 17"
    "trep t (i = 16) c m" "twoChildren (cs[i := c])"
  shows "trep t False (FullNode (cs[i := c]) fl) (branchMap (ms(i := m)))"
  by (rule trep.full) (use assms in \<open>auto simp: nth_list_update\<close>)

lemma hextail_word16: "unat b = 16 \<longleftrightarrow> b = (16 :: byte)"
  using word_unat_eq_iff [of b 16] by simp

lemma tryGet_trep:
  "\<lbrakk>trep t b n m; keyok b (drop pos key); pos \<le> length key\<rbrakk> \<Longrightarrow>
   \<exists>n' r. tryGet t n key pos = Some (m (drop pos key), n', r, None) \<and> trep t b n' m \<and> sameKind t n n'"
proof (induction arbitrary: pos rule: trep.induct)
  case (empty b)
  then show ?case by (auto simp: tryGet_simps intro: trep.empty)
next
  case (val v)
  have "trep t True (ValueNode v) [[] \<mapsto> v]" using val.hyps by (rule trep.val)
  moreover have "tryGet t (ValueNode v) key pos =
      Some ([[] \<mapsto> v] (drop pos key), ValueNode v, False, None)"
    using val.prems by (simp add: tryGet_simps)
  ultimately show ?case using sameKind_refl by blast
next
  case (leaf k v fl)
  have "take (length k) (drop pos key) = k \<Longrightarrow> drop pos key = k"
    using leaf hextail_prefix_eq by (metis keyok_simps(2) take_is_prefix)
  moreover have "drop pos key = k \<Longrightarrow> \<not> length key < pos + length k"
    using leaf.prems(2) by auto
  ultimately have "tryGet t (ShortNode k (ValueNode v) fl) key pos =
      Some ([k \<mapsto> v] (drop pos key), ShortNode k (ValueNode v) fl, False, None)"
    by (auto simp: tryGet_simps tryGet_Short)
  moreover have "trep t False (ShortNode k (ValueNode v) fl) [k \<mapsto> v]"
    using leaf.hyps by (rule trep.leaf)
  ultimately show ?case using sameKind_refl by blast
next
  case (ext k n m fl)
  show ?case
  proof (cases "take (length k) (drop pos key) = k")
    case True
    then have kd: "drop pos key = k @ drop (pos + length k) key"
      by (metis add.commute append_take_drop_id drop_drop)
    have len: "pos + length k \<le> length key"
      using arg_cong [OF True, of length] ext.prems(2) by simp
    have ht: "hextail (drop (pos + length k) key)"
      using hextail_drop_nibbles [of "drop pos key" "length k"] ext.prems ext.hyps True len
      by (simp add: add.commute)
    from ext.IH [of "pos + length k"] ht len obtain n' r where
      n': "tryGet t n key (pos + length k) = Some (m (drop (pos + length k) key), n', r, None)"
        "trep t False n' m" "sameKind t n n'" by auto
    have "trep t False (ShortNode k n' fl) (under k m)" "trep t False (ShortNode k n fl) (under k m)"
      using n' ext by (auto intro: trep.ext simp: sameKind_def)
    then show ?thesis using n' kd True len by (auto simp: tryGet_Short sameKind_def)
  next
    case False
    then have "under k m (drop pos key) = None" by (auto simp: under_def prefix_def)
    with False have "tryGet t (ShortNode k n fl) key pos =
        Some (under k m (drop pos key), ShortNode k n fl, False, None)" by (auto simp: tryGet_Short)
    moreover have "trep t False (ShortNode k n fl) (under k m)" using ext.hyps by (rule trep.ext)
    ultimately show ?thesis using sameKind_refl by blast
  qed
next
  case (full cs ms fl)
  then have ne: "pos < length key" by (cases "pos = length key") auto
  then have kd: "drop pos key = key ! pos # drop (Suc pos) key" by (simp add: Cons_nth_drop_Suc)
  let ?i = "unat (key ! pos)"
  have i: "?i < 17" "keyok (?i = 16) (drop (Suc pos) key)"
    using hextail_split [of "drop pos key" 0] full.prems ne by (auto simp: hextail_word16)
  from full.IH [OF i(1), of "Suc pos"] i(2) ne obtain n' r where
    n': "tryGet t (cs ! ?i) key (Suc pos) = Some (ms ?i (drop (Suc pos) key), n', r, None)"
      "trep t (?i = 16) n' (ms ?i)" "sameKind t (cs ! ?i) n'" by auto
  have "trep t False (FullNode (cs[?i := n']) fl) (branchMap (ms(?i := ms ?i)))"
    by (rule trep_full_update) (use full i n' in \<open>auto intro!: twoChildren_update simp: sameKind_def\<close>)
  moreover have "trep t False (FullNode cs fl) (branchMap ms)"
    by (rule trep.full) (use full in auto)
  ultimately show ?case using n' full.hyps i ne kd
    by (auto simp: tryGet_Full sameKind_def)
next
  case (hash h n m)
  from hash.IH [OF hash.prems] obtain n' r where
    n': "tryGet t n key pos = Some (m (drop pos key), n', r, None)" "trep t False n' m" "sameKind t n n'"
    by auto
  then show ?case using hash.hyps
    by (auto simp: tryGet_Hash sameKind_def)
qed

section \<open>Insertion\<close>

definition mkShort :: "bytes \<Rightarrow> tnode \<Rightarrow> tnode" where
  "mkShort k n = (if k = [] then n else ShortNode k n newFlag)"

lemma insert_t_Nil: "insert_t t NilNode path k n = Some (True, mkShort k n, None)"
  by (subst insert_t.simps) (simp add: mkShort_def)

lemma insert_t_Value: "insert_t t (ValueNode v) path [] (ValueNode w) = Some (v \<noteq> w, ValueNode w, None)"
  by (subst insert_t.simps) simp

lemma insert_t_match:
  "\<lbrakk>key \<noteq> []; prefix nkey key\<rbrakk> \<Longrightarrow> insert_t t (ShortNode nkey nval fl) path key value =
     Option.bind (insert_t t nval (path @ nkey) (drop (length nkey) key) value) (\<lambda>(dirty, nn, err).
       if \<not> dirty \<or> err \<noteq> None then Some (False, ShortNode nkey nval fl, err)
       else Some (True, ShortNode nkey nn newFlag, None))"
proof -
  assume a: "key \<noteq> []" "prefix nkey key"
  then have "prefixLen key nkey = length nkey" "take (length nkey) key = nkey"
    by (auto simp: prefixLen_full prefix_def)
  with a show ?thesis by (subst insert_t.simps) (simp add: Let_def)
qed

lemma insert_t_split:
  "\<lbrakk>ml = prefixLen key nkey; ml < length nkey; ml < length key; unat (nkey ! ml) < 17; unat (key ! ml) < 17\<rbrakk> \<Longrightarrow>
   insert_t t (ShortNode nkey nval fl) path key value =
     Some (True, mkShort (take ml key)
       (FullNode ((replicate 17 NilNode)[unat (nkey ! ml) := mkShort (drop (ml + 1) nkey) nval,
                                       unat (key ! ml) := mkShort (drop (ml + 1) key) value]) newFlag), None)"
  by (subst insert_t.simps) (auto simp: insert_t_Nil Let_def index_at_def mkShort_def)

lemma insert_t_Full:
  "unat b < length cs \<Longrightarrow> insert_t t (FullNode cs fl) path (b # r) value =
     Option.bind (insert_t t (cs ! unat b) (path @ [b]) r value) (\<lambda>(dirty, nn, err).
       if \<not> dirty \<or> err \<noteq> None then Some (False, FullNode cs fl, err)
       else Some (True, FullNode (cs[unat b := nn]) newFlag, None))"
  by (subst insert_t.simps, unfold nth_Cons_0) (simp add: index_at_def)

lemma insert_t_Hash:
  "\<lbrakk>key \<noteq> []; resolveHash t h path = Ok n\<rbrakk> \<Longrightarrow> insert_t t (HashNode h) path key value =
     Option.bind (insert_t t n path key value) (\<lambda>(dirty, nn, err).
       if \<not> dirty \<or> err \<noteq> None then Some (False, n, err) else Some (True, nn, None))"
  by (subst insert_t.simps) simp

text \<open>Splitting a short node at the first nibble where the keys differ.\<close>

lemma branchMap_one: "unat b < 17 \<Longrightarrow> branchMap ((\<lambda>_. Map.empty)(unat b := m)) = under [b] m"
  by (rule HOL.ext) (auto simp: branchMap_def under_def word_unat_eq_iff split: list.splits)

lemma split_map:
  assumes "ml < length nkey" "ml < length key" "take ml key = take ml nkey" "nkey ! ml \<noteq> key ! ml"
    "unat (nkey ! ml) < 17" "unat (key ! ml) < 17"
  shows "under (take ml key) (branchMap ((\<lambda>_. Map.empty)
      (unat (nkey ! ml) := under (drop (Suc ml) nkey) m, unat (key ! ml) := [drop (Suc ml) key \<mapsto> v])))
    = (under nkey m)(key \<mapsto> v)"
proof -
  let ?p = "take ml key" and ?i = "nkey ! ml" and ?j = "key ! ml"
  have nk: "nkey = ?p @ [?i] @ drop (Suc ml) nkey"
    using assms(1,3) id_take_nth_drop [of ml nkey] by simp
  have k: "key = ?p @ ?j # drop (Suc ml) key" using assms(2) id_take_nth_drop by blast
  have ij: "unat ?i \<noteq> unat ?j" using assms(4) by (simp add: word_unat_eq_iff)
  have "branchMap ((\<lambda>_. Map.empty)(unat ?i := under (drop (Suc ml) nkey) m, unat ?j := [drop (Suc ml) key \<mapsto> v]))
      = (branchMap ((\<lambda>_. Map.empty)(unat ?i := under (drop (Suc ml) nkey) m)))(?j # drop (Suc ml) key \<mapsto> v)"
    using branchMap_upd [OF assms(6)] ij by simp
  also have "\<dots> = (under ([?i] @ drop (Suc ml) nkey) m)(?j # drop (Suc ml) key \<mapsto> v)"
    by (simp only: branchMap_one [OF assms(5)] under_under)
  finally show ?thesis
    using under_upd [of ?p "under ([?i] @ drop (Suc ml) nkey) m"] nk k
    by (metis under_under)
qed

lemma trep_branch2:
  assumes "i \<noteq> j" "i < 17" "j < 17" "trep t (i = 16) c1 m1" "trep t (j = 16) c2 m2"
    "c1 \<noteq> NilNode" "c2 \<noteq> NilNode"
  shows "trep t False (FullNode ((replicate 17 NilNode)[i := c1, j := c2]) fl)
           (branchMap ((\<lambda>_. Map.empty)(i := m1, j := m2)))"
proof (rule trep.full)
  show "twoChildren ((replicate 17 NilNode)[i := c1, j := c2])"
    unfolding twoChildren_def
    by (rule exI [of _ "min i j"], rule exI [of _ "max i j"])
      (use assms in \<open>auto simp: min_def max_def nth_list_update\<close>)
  show "trep t (k = 16) ((replicate 17 NilNode)[i := c1, j := c2] ! k) (((\<lambda>_. Map.empty)(i := m1, j := m2)) k)"
    if "k < 17" for k
    using assms that by (auto simp: nth_list_update intro: trep.empty)
qed simp

lemma trep_mkShort_ext:
  "\<lbrakk>nibbles k; isFull t n; trep t False n m\<rbrakk> \<Longrightarrow> trep t False (mkShort k n) (under k m)"
  by (cases "k = []") (auto simp: mkShort_def intro: trep.ext)

lemma trep_mkShort_leaf:
  assumes "keyok b k" "v \<noteq> []"
  shows "trep t b (mkShort k (ValueNode v)) [k \<mapsto> v]"
  using assms trep.val [of v] trep.leaf [of k v] by (cases b) (auto simp: mkShort_def)

lemma hextail_take: "\<lbrakk>hextail k; i < length k\<rbrakk> \<Longrightarrow> nibbles (take i k)"
proof (induction k arbitrary: i)
  case (Cons b r)
  then show ?case by (cases i) (auto simp: hextail_Cons)
qed simp

lemma mkShort_not_Nil: "n \<noteq> NilNode \<Longrightarrow> mkShort k n \<noteq> NilNode"
  by (simp add: mkShort_def)

text \<open>The short node of either kind, seen from the split: its key, its child and the child's map.\<close>

lemma trep_split:
  assumes nkey: "ml < length nkey" and key: "ml < length key" "hextail key" "v \<noteq> []"
    and pre: "take ml key = take ml nkey" "nkey ! ml \<noteq> key ! ml"
    and i: "unat (nkey ! ml) < 17" "nval \<noteq> NilNode"
    and old: "trep t (unat (nkey ! ml) = 16) (mkShort (drop (ml + 1) nkey) nval) (under (drop (Suc ml) nkey) m)"
  shows "trep t False (mkShort (take ml key)
      (FullNode ((replicate 17 NilNode)[unat (nkey ! ml) := mkShort (drop (ml + 1) nkey) nval,
        unat (key ! ml) := mkShort (drop (ml + 1) key) (ValueNode v)]) newFlag)) ((under nkey m)(key \<mapsto> v))"
proof -
  have j: "unat (key ! ml) < 17" "keyok (unat (key ! ml) = 16) (drop (Suc ml) key)"
    using hextail_split [OF key(2,1)] by (simp_all add: hextail_word16)
  have ne: "unat (nkey ! ml) \<noteq> unat (key ! ml)" using pre(2) by (simp add: word_unat_eq_iff)
  have "trep t False (FullNode ((replicate 17 NilNode)[unat (nkey ! ml) := mkShort (drop (ml + 1) nkey) nval,
        unat (key ! ml) := mkShort (drop (ml + 1) key) (ValueNode v)]) newFlag)
      (branchMap ((\<lambda>_. Map.empty)(unat (nkey ! ml) := under (drop (Suc ml) nkey) m,
        unat (key ! ml) := [drop (Suc ml) key \<mapsto> v])))"
    by (rule trep_branch2 [OF ne i(1) j(1) old])
      (use trep_mkShort_leaf [OF j(2) key(3)] i(2) in \<open>auto simp: mkShort_not_Nil\<close>)
  then have "trep t False (mkShort (take ml key)
      (FullNode ((replicate 17 NilNode)[unat (nkey ! ml) := mkShort (drop (ml + 1) nkey) nval,
        unat (key ! ml) := mkShort (drop (ml + 1) key) (ValueNode v)]) newFlag))
      (under (take ml key) (branchMap ((\<lambda>_. Map.empty)(unat (nkey ! ml) := under (drop (Suc ml) nkey) m,
        unat (key ! ml) := [drop (Suc ml) key \<mapsto> v]))))"
    by (intro trep_mkShort_ext hextail_take key) simp_all
  then show ?thesis by (simp only: split_map [OF nkey key(1) pre i(1) j(1)])
qed

lemma prefixLen_split:
  assumes "\<not> prefix nkey key" "hextail key" "hextail nkey \<or> nibbles nkey"
  shows "prefixLen key nkey < length nkey" "prefixLen key nkey < length key"
    "nkey ! prefixLen key nkey \<noteq> key ! prefixLen key nkey"
proof -
  show 1: "prefixLen key nkey < length nkey"
    using assms(1) prefixLen_full prefixLen_le(2) by (metis nat_less_le)
  have "\<not> prefix key nkey"
  proof
    assume p: "prefix key nkey"
    show False
    proof (cases "hextail nkey")
      case True
      then show ?thesis using hextail_prefix_eq [OF assms(2) True p] assms(1) by simp
    next
      case False
      then have "nibbles key" using assms(3) p by (auto simp: prefix_def)
      then show ?thesis using assms(2) by (auto simp: hextail_def)
    qed
  qed
  then show 2: "prefixLen key nkey < length key"
    using prefixLen_full prefixLen_le(1) prefixLen_commute by (metis nat_less_le)
  show "nkey ! prefixLen key nkey \<noteq> key ! prefixLen key nkey"
    using prefixLen_differ 1 2 by metis
qed

text \<open>What an insertion at a node promises to the caller above it.\<close>

definition inserted :: "Trie \<Rightarrow> bool \<Rightarrow> tnode \<Rightarrow> (bytes \<rightharpoonup> bytes) \<Rightarrow> bytes \<Rightarrow> bytes \<Rightarrow> editResult option \<Rightarrow> bool" where
  "inserted t b n m key v r \<longleftrightarrow>
     (\<exists>d n'. r = Some (d, n', None) \<and> trep t b n' (m(key \<mapsto> v)) \<and> n' \<noteq> NilNode \<and>
             (isFull t n \<longrightarrow> isFull t n') \<and> (\<not> d \<longrightarrow> m key = Some v))"

lemma insertedI:
  "\<lbrakk>r = Some (d, n', None); trep t b n' (m(key \<mapsto> v)); n' \<noteq> NilNode; isFull t n \<Longrightarrow> isFull t n';
    \<not> d \<Longrightarrow> m key = Some v\<rbrakk> \<Longrightarrow> inserted t b n m key v r"
  by (auto simp: inserted_def)

lemma insertedE:
  assumes "inserted t b n m key v r"
  obtains d n' where "r = Some (d, n', None)" "trep t b n' (m(key \<mapsto> v))" "n' \<noteq> NilNode"
    "isFull t n \<longrightarrow> isFull t n'" "\<not> d \<longrightarrow> m key = Some v"
  using assms by (auto simp: inserted_def)

lemma insert_t_leaf:
  assumes "hextail k" "w \<noteq> []" "hextail key" "v \<noteq> []"
  shows "inserted t False (ShortNode k (ValueNode w) fl) [k \<mapsto> w] key v
    (insert_t t (ShortNode k (ValueNode w) fl) path key (ValueNode v))"
proof (cases "prefix k key")
  case True
  then have [simp]: "key = k" using hextail_prefix_eq assms(1,3) by auto
  have "k \<noteq> []" using assms(1) by auto
  then have eq: "insert_t t (ShortNode k (ValueNode w) fl) path key (ValueNode v) =
      (if w = v then Some (False, ShortNode k (ValueNode w) fl, None)
       else Some (True, ShortNode k (ValueNode v) newFlag, None))"
    by (simp add: insert_t_match insert_t_Value)
  have rep: "trep t False (ShortNode k (ValueNode v) fl') ([k \<mapsto> w](key \<mapsto> v))" for fl'
    using trep.leaf [OF assms(1,4)] by simp
  show ?thesis
  proof (cases "w = v")
    case True
    then show ?thesis using rep [of fl] eq by (intro insertedI) auto
  next
    case False
    then show ?thesis using rep [of newFlag] eq by (intro insertedI) auto
  qed
next
  case False
  let ?ml = "prefixLen key k"
  note sp = prefixLen_split [OF False assms(3) disjI1 [OF assms(1)]]
  have i: "unat (k ! ?ml) < 17" "keyok (unat (k ! ?ml) = 16) (drop (Suc ?ml) k)"
    and j: "unat (key ! ?ml) < 17"
    using hextail_split [OF assms(1) sp(1)] hextail_split [OF assms(3) sp(2)]
    by (simp_all add: hextail_word16)
  have "trep t (unat (k ! ?ml) = 16) (mkShort (drop (?ml + 1) k) (ValueNode w))
      (under (drop (Suc ?ml) k) [[] \<mapsto> w])"
    using trep_mkShort_leaf [OF i(2) assms(2)] by (simp add: under_single)
  from trep_split [OF sp(1,2) assms(3,4) prefixLen_take sp(3) i(1) _ this]
  have "trep t False (mkShort (take ?ml key)
      (FullNode ((replicate 17 NilNode)[unat (k ! ?ml) := mkShort (drop (?ml + 1) k) (ValueNode w),
        unat (key ! ?ml) := mkShort (drop (?ml + 1) key) (ValueNode v)]) newFlag)) ([k \<mapsto> w](key \<mapsto> v))"
    by (simp add: under_single)
  then show ?thesis
    by (intro insertedI [OF insert_t_split [OF refl sp(1,2) i(1) j]]) (auto simp: mkShort_def)
qed

lemma insert_t_ext:
  assumes k: "k \<noteq> []" "nibbles k" "isFull t n" "trep t False n m" and key: "hextail key" "v \<noteq> []"
    and IH: "\<And>key path. hextail key \<Longrightarrow> inserted t False n m key v (insert_t t n path key (ValueNode v))"
  shows "inserted t False (ShortNode k n fl) (under k m) key v
    (insert_t t (ShortNode k n fl) path key (ValueNode v))"
proof (cases "prefix k key")
  case True
  then obtain r where r: "key = k @ r" by (auto simp: prefix_def)
  have "hextail r" using hextail_drop_nibbles [of key "length k"] key(1) k(2) r by simp
  from IH [OF this, of "path @ k"] obtain d n' where
    n': "insert_t t n (path @ k) r (ValueNode v) = Some (d, n', None)" "trep t False n' (m(r \<mapsto> v))"
      "isFull t n'" "\<not> d \<longrightarrow> m r = Some v" using k(3) by (auto elim!: insertedE)
  have eq: "insert_t t (ShortNode k n fl) path key (ValueNode v) =
      (if d then Some (True, ShortNode k n' newFlag, None) else Some (False, ShortNode k n fl, None))"
    using n'(1) k(1) r by (simp add: insert_t_match)
  show ?thesis
  proof (cases d)
    case True
    have "trep t False (ShortNode k n' newFlag) (under k (m(r \<mapsto> v)))"
      using k n' by (intro trep.ext)
    then show ?thesis using True eq r by (intro insertedI) (auto simp: under_upd)
  next
    case False
    have "(under k m)(key \<mapsto> v) = under k m" using n'(4) False r by (simp add: under_upd fun_upd_idem)
    then show ?thesis using False eq r n'(4) trep.ext [OF k] by (intro insertedI) auto
  qed
next
  case False
  let ?ml = "prefixLen key k"
  note sp = prefixLen_split [OF False key(1) disjI2 [OF k(2)]]
  have i: "k ! ?ml < 16" "nibbles (drop (Suc ?ml) k)" using k(2) sp(1)
    by (auto simp: nibbles_def dest: in_set_dropD)
  have i17: "unat (k ! ?ml) < 17" "unat (k ! ?ml) \<noteq> 16" and j: "unat (key ! ?ml) < 17"
    using i(1) hextail_split [OF key(1) sp(2)] by (auto simp: word_less_nat_alt)
  have "trep t (unat (k ! ?ml) = 16) (mkShort (drop (?ml + 1) k) n) (under (drop (Suc ?ml) k) m)"
    using trep_mkShort_ext [OF i(2) k(3,4)] i17(2) by simp
  moreover have "n \<noteq> NilNode" using k(3) by auto
  ultimately have "trep t False (mkShort (take ?ml key)
      (FullNode ((replicate 17 NilNode)[unat (k ! ?ml) := mkShort (drop (?ml + 1) k) n,
        unat (key ! ?ml) := mkShort (drop (?ml + 1) key) (ValueNode v)]) newFlag)) ((under k m)(key \<mapsto> v))"
    by (intro trep_split sp key i17 prefixLen_take)
  then show ?thesis
    by (intro insertedI [OF insert_t_split [OF refl sp(1,2) i17(1) j]]) (auto simp: mkShort_def)
qed

lemma insert_t_full:
  assumes cs: "length cs = 17" "\<And>i. i < 17 \<Longrightarrow> trep t (i = 16) (cs ! i) (ms i)" "twoChildren cs"
    and key: "hextail key"
    and IH: "\<And>i key path. \<lbrakk>i < 17; keyok (i = 16) key\<rbrakk> \<Longrightarrow>
      inserted t (i = 16) (cs ! i) (ms i) key v (insert_t t (cs ! i) path key (ValueNode v))"
  shows "inserted t False (FullNode cs fl) (branchMap ms) key v
    (insert_t t (FullNode cs fl) path key (ValueNode v))"
proof -
  from key obtain b r where br: "key = b # r" by (cases key) auto
  let ?i = "unat b"
  have i: "?i < 17" "keyok (?i = 16) r"
    using hextail_split [OF key, of 0] br by (auto simp: hextail_word16)
  from IH [OF i, of "path @ [b]"] obtain d n' where
    n': "insert_t t (cs ! ?i) (path @ [b]) r (ValueNode v) = Some (d, n', None)"
      "trep t (?i = 16) n' ((ms ?i)(r \<mapsto> v))" "n' \<noteq> NilNode" "\<not> d \<longrightarrow> ms ?i r = Some v"
    by (auto elim!: insertedE)
  have eq: "insert_t t (FullNode cs fl) path key (ValueNode v) =
      (if d then Some (True, FullNode (cs[?i := n']) newFlag, None) else Some (False, FullNode cs fl, None))"
    using n'(1) br i(1) cs(1) by (simp add: insert_t_Full)
  show ?thesis
  proof (cases d)
    case True
    have "twoChildren (cs[?i := n'])"
      using cs(3) n'(3) by (intro twoChildren_update)
    from trep_full_update [OF cs(1,2) i(1) n'(2) this]
    have "trep t False (FullNode (cs[?i := n']) newFlag) ((branchMap ms)(key \<mapsto> v))"
      using branchMap_upd [OF i(1)] br by simp
    then show ?thesis using True eq by (intro insertedI) auto
  next
    case False
    have "(branchMap ms)(key \<mapsto> v) = branchMap ms" using n'(4) False br i(1) by (simp add: fun_upd_idem)
    then show ?thesis using False eq n'(4) br i(1) trep.full [OF cs] by (intro insertedI) auto
  qed
qed

lemma insert_t_trep:
  "\<lbrakk>trep t b n m; keyok b key; v \<noteq> []\<rbrakk> \<Longrightarrow> inserted t b n m key v (insert_t t n path key (ValueNode v))"
proof (induction arbitrary: key path rule: trep.induct)
  case (empty b)
  then show ?case
    by (intro insertedI [OF insert_t_Nil]) (auto intro: trep_mkShort_leaf simp: mkShort_not_Nil)
next
  case (val w)
  then have "key = []" by simp
  moreover have "trep t True (ValueNode v) ([[] \<mapsto> w]([] \<mapsto> v))"
    using trep.val [OF val.prems(2)] by simp
  ultimately have "inserted t True (ValueNode w) [[] \<mapsto> w] key v (insert_t t (ValueNode w) path key (ValueNode v))"
    by (intro insertedI [of _ "w \<noteq> v" "ValueNode v"]) (auto simp: insert_t_Value)
  then show ?case .
next
  case (leaf k w fl)
  then have "inserted t False (ShortNode k (ValueNode w) fl) [k \<mapsto> w] key v
      (insert_t t (ShortNode k (ValueNode w) fl) path key (ValueNode v))" by (simp add: insert_t_leaf)
  then show ?case .
next
  case (ext k n m fl)
  then show ?case by (intro insert_t_ext) auto
next
  case (full cs ms fl)
  then show ?case by (intro insert_t_full) auto
next
  case (hash h n m)
  then have ne: "key \<noteq> []" by auto
  from hash.IH [OF hash.prems, of path] obtain d n' where
    n': "insert_t t n path key (ValueNode v) = Some (d, n', None)" "trep t False n' (m(key \<mapsto> v))"
      "n' \<noteq> NilNode" "isFull t n \<longrightarrow> isFull t n'" "\<not> d \<longrightarrow> m key = Some v" by (auto elim!: insertedE)
  have eq: "insert_t t (HashNode h) path key (ValueNode v) =
      (if d then Some (True, n', None) else Some (False, n, None))"
    using n'(1) by (simp add: insert_t_Hash [OF ne hash.hyps(1)])
  have f: "isFull t (HashNode h) \<Longrightarrow> isFull t n" using hash.hyps(1) by auto
  show ?case
  proof (cases d)
    case True
    then show ?thesis using n' eq f by (intro insertedI) auto
  next
    case False
    then have "m(key \<mapsto> v) = m" using n'(5) by (simp add: fun_upd_idem)
    then show ?thesis using False n'(5) eq f hash.hyps by (intro insertedI [of _ False n]) auto
  qed
qed

section \<open>Deletion\<close>

lemma remainingChild_neg2: "pos \<noteq> -1 \<Longrightarrow>
    remainingChild i pos cs = (if \<forall>c\<in>set cs. c = NilNode then pos else -2)"
  by (induction cs arbitrary: i) auto

lemma remainingChild_cases:
  "remainingChild i (-1) cs =
     (if \<forall>c\<in>set cs. c = NilNode then -1
      else if twoChildren cs then -2
      else int (i + length (takeWhile (\<lambda>c. c = NilNode) cs)))"
proof (induction cs arbitrary: i)
  case (Cons c cs)
  have two: "twoChildren (c # cs) \<longleftrightarrow> (if c = NilNode then twoChildren cs else \<exists>x\<in>set cs. x \<noteq> NilNode)"
  proof -
    have ex: "(\<exists>i j. i < j \<and> P i j) \<longleftrightarrow> (\<exists>j. P 0 (Suc j)) \<or> (\<exists>i j. i < j \<and> P (Suc i) (Suc j))" for P
      by (metis Suc_less_eq less_nat_zero_code not0_implies_Suc zero_less_Suc)
    have mem: "(\<exists>x\<in>set cs. x \<noteq> NilNode) \<longleftrightarrow> (\<exists>j<length cs. cs ! j \<noteq> NilNode)"
      by (metis in_set_conv_nth)
    show ?thesis unfolding mem twoChildren_def by (subst ex) (auto intro: less_trans)
  qed
  show ?case using Cons.IH [of "i + 1"] two
    by (auto simp: remainingChild_neg2)
qed simp

lemma delete_t_simps:
  "delete_t t NilNode path key = Some (False, NilNode, None)"
  "delete_t t (ValueNode v) path key = Some (True, NilNode, None)"
  by (subst delete_t.simps, simp)+

lemma delete_t_mismatch:
  "\<not> prefix nkey key \<Longrightarrow> delete_t t (ShortNode nkey nval fl) path key = Some (False, ShortNode nkey nval fl, None)"
  using prefixLen_full [of key nkey] prefixLen_le(2) [of key nkey]
  by (subst delete_t.simps) (auto simp: Let_def)

lemma prefixLen_append [simp]: "prefixLen (a @ b) a = length a"
  by (simp add: prefixLen_full)

lemma delete_t_whole: "delete_t t (ShortNode k nval fl) path k = Some (True, NilNode, None)"
  using prefixLen_append [of k "[]"] by (subst delete_t.simps) (simp add: Let_def)

lemma delete_t_below:
  "r \<noteq> [] \<Longrightarrow> delete_t t (ShortNode k nval fl) path (k @ r) =
     Option.bind (delete_t t nval (path @ k) r) (\<lambda>(dirty, child, err).
       if \<not> dirty \<or> err \<noteq> None then Some (False, ShortNode k nval fl, err)
       else case child of
         ShortNode ckey cval _ \<Rightarrow> Some (True, ShortNode (k @ ckey) cval newFlag, None)
       | _ \<Rightarrow> Some (True, ShortNode k child newFlag, None))"
  by (subst delete_t.simps) (simp add: Let_def)

lemma delete_t_Full:
  "unat b < length cs \<Longrightarrow> delete_t t (FullNode cs fl) path (b # r) =
     Option.bind (delete_t t (cs ! unat b) (path @ [b]) r) (\<lambda>(dirty, nn, err).
       if \<not> dirty \<or> err \<noteq> None then Some (False, FullNode cs fl, err)
       else reduceFull t path (cs[unat b := nn]))"
  by (subst delete_t.simps) (simp add: index_at_def)

lemma delete_t_Hash:
  "resolveHash t h path = Ok n \<Longrightarrow> delete_t t (HashNode h) path key =
     Option.bind (delete_t t n path key) (\<lambda>(dirty, nn, err).
       if \<not> dirty \<or> err \<noteq> None then Some (False, n, err) else Some (True, nn, None))"
  by (subst delete_t.simps) simp

lemma trep_Short_prepend:
  assumes "nibbles k" "trep t False (ShortNode ck cv fl) m"
  shows "trep t False (ShortNode (k @ ck) cv fl') (under k m)"
  using assms(2)
proof (cases rule: trep.cases)
  case (leaf v)
  have "trep t False (ShortNode (k @ ck) (ValueNode v) fl') [k @ ck \<mapsto> v]"
    using leaf assms(1) by (intro trep.leaf hextail_append)
  then show ?thesis using leaf by (simp add: under_single)
next
  case (ext m')
  have "trep t False (ShortNode (k @ ck) cv fl') (under (k @ ck) m')"
    using ext assms(1) by (intro trep.ext) auto
  then show ?thesis using ext by (simp add: under_under)
qed

lemma trep_True_cases:
  "trep t True n m \<Longrightarrow> n = NilNode \<or> (\<exists>v. n = ValueNode v \<and> v \<noteq> [] \<and> m = [[] \<mapsto> v])"
  by (erule trep.cases) auto

lemma trep_resolve:
  assumes "trep t False n m" "n \<noteq> NilNode"
  obtains c where "resolve t n path = Ok c" "trep t False c m" "isFull t n \<or> (\<exists>k v fl. c = ShortNode k v fl)"
proof (cases "\<exists>h. n = HashNode h")
  case True
  then obtain h where n: "n = HashNode h" by blast
  from assms(1) obtain c where c: "\<And>p. resolveHash t h p = Ok c" "\<And>g. c \<noteq> HashNode g" "c \<noteq> NilNode"
      "trep t False c m"
    unfolding n by (auto elim: trep_HashE)
  from c(4,2,3) have "(\<exists>cs fl. c = FullNode cs fl) \<or> (\<exists>k v fl. c = ShortNode k v fl)"
    by (cases rule: trep.cases) auto
  then show ?thesis using that [of c] c n by (auto simp: resolve_def)
next
  case False
  then have "resolve t n path = Ok n" by (auto simp: resolve_def split: tnode.splits)
  moreover have "isFull t n \<or> (\<exists>k v fl. n = ShortNode k v fl)"
    using assms False by (cases rule: trep.cases) auto
  ultimately show ?thesis using that assms(1) by blast
qed

definition loadedInner :: "tnode \<Rightarrow> bool" where
  "loadedInner n \<longleftrightarrow> (\<exists>k c fl. n = ShortNode k c fl) \<or> (\<exists>cs fl. n = FullNode cs fl)"

lemma loadedInner_simps [simp]:
  "loadedInner (ShortNode k c fl)" "loadedInner (FullNode cs fl)"
  by (auto simp: loadedInner_def)

lemma single_child:
  assumes "\<not> twoChildren cs" "\<exists>c\<in>set cs. c \<noteq> NilNode"
  obtains p where "p < length cs" "cs ! p \<noteq> NilNode" "remainingChild 0 (-1) cs = int p"
    "\<And>q. q < length cs \<Longrightarrow> q \<noteq> p \<Longrightarrow> cs ! q = NilNode"
proof -
  let ?p = "length (takeWhile (\<lambda>c. c = NilNode) cs)"
  have p1: "?p < length cs"
  proof (rule ccontr)
    assume "\<not> ?p < length cs"
    then have "takeWhile (\<lambda>c. c = NilNode) cs = cs"
      using length_takeWhile_le [of "\<lambda>c. c = NilNode" cs] takeWhile_eq_take [of "\<lambda>c. c = NilNode" cs] by simp
    then show False using assms(2) by (metis (mono_tags) set_takeWhileD)
  qed
  note p = p1 nth_length_takeWhile [OF p1]
  have "cs ! q = NilNode" if "q < length cs" "q \<noteq> ?p" for q
    using assms(1) p that unfolding twoChildren_def by (metis linorder_neqE_nat)
  moreover have "remainingChild 0 (-1) cs = int ?p"
    using assms remainingChild_cases [of 0 cs] by auto
  ultimately show ?thesis using that p by blast
qed

lemma branchMap_single:
  assumes "length cs = 17" "\<And>i. i < 17 \<Longrightarrow> trep t (i = 16) (cs ! i) (ms i)" "unat b < 17"
    "\<And>q. q < 17 \<Longrightarrow> q \<noteq> unat b \<Longrightarrow> cs ! q = NilNode"
  shows "branchMap ms = under [b] (ms (unat b))"
proof -
  have "ms q = Map.empty" if "q < 17" "q \<noteq> unat b" for q
    using assms(2) [OF that(1)] assms(4) [OF that] by auto
  then have "branchMap ms = branchMap ((\<lambda>_. Map.empty)(unat b := ms (unat b)))"
    by (intro HOL.ext) (auto simp: branchMap_def split: list.splits)
  then show ?thesis using branchMap_one [OF assms(3)] by simp
qed

lemma reduceFull_trep:
  assumes cs: "length cs = 17" "\<And>i. i < 17 \<Longrightarrow> trep t (i = 16) (cs ! i) (ms i)"
    and ne: "\<exists>c\<in>set cs. c \<noteq> NilNode"
  shows "\<exists>n'. reduceFull t path cs = Some (True, n', None) \<and> trep t False n' (branchMap ms) \<and> loadedInner n'"
proof (cases "twoChildren cs")
  case True
  then have "remainingChild 0 (-1) cs = -2" using ne remainingChild_cases [of 0 cs] by auto
  then show ?thesis using trep.full [OF cs True] by (simp add: reduceFull_def)
next
  case False
  from single_child [OF False ne] obtain p where p: "p < 17" "cs ! p \<noteq> NilNode"
      "remainingChild 0 (-1) cs = int p" "\<And>q. q < 17 \<Longrightarrow> q \<noteq> p \<Longrightarrow> cs ! q = NilNode"
    using cs(1) by metis
  define b :: byte where "b = of_nat p"
  have b: "unat b = p" using p(1) by (simp add: b_def unsigned_of_nat take_bit_nat_eq_self)
  have m: "branchMap ms = under [b] (ms p)"
    using branchMap_single [OF cs, of b] p b by simp
  have rc: "trep t (p = 16) (cs ! p) (ms p)" using cs(2) p(1) .
  show ?thesis
  proof (cases "p = 16")
    case True
    then obtain v where v: "cs ! p = ValueNode v" "v \<noteq> []" "ms p = [[] \<mapsto> v]"
      using trep_True_cases [of t "cs ! p" "ms p"] rc p(2) by auto
    have "b = 16" using True by (simp add: b_def)
    then have "trep t False (ShortNode [b] (ValueNode v) newFlag) [[b] \<mapsto> v]"
      using v(2) by (intro trep.leaf) (simp_all add: hextail_Cons)
    then show ?thesis using True p(3) v m \<open>b = 16\<close> by (simp add: reduceFull_def under_single)
  next
    case False
    then have b16: "b < 16" using p(1) b by (simp add: word_less_nat_alt)
    from rc False have "trep t False (cs ! p) (ms p)" by simp
    then obtain c where c: "resolve t (cs ! p) path = Ok c" "trep t False c (ms p)"
        "isFull t (cs ! p) \<or> (\<exists>k v fl. c = ShortNode k v fl)"
      using trep_resolve p(2) by blast
    have red: "reduceFull t path cs = (case c of
          ShortNode ckey cval _ \<Rightarrow> Some (True, ShortNode (b # ckey) cval newFlag, None)
        | _ \<Rightarrow> Some (True, ShortNode [b] (cs ! p) newFlag, None))"
      using p(3) False c(1) by (cases c) (simp_all add: reduceFull_def b_def)
    show ?thesis
    proof (cases "\<exists>k v fl. c = ShortNode k v fl")
      case True
      then obtain k v fl where k: "c = ShortNode k v fl" by blast
      have "trep t False (ShortNode ([b] @ k) v newFlag) (under [b] (ms p))"
        using trep_Short_prepend [of "[b]"] c(2) b16 unfolding k by simp
      then show ?thesis using red k m by simp
    next
      case False
      then have "trep t False (ShortNode [b] (cs ! p) newFlag) (under [b] (ms p))"
        using c(3) b16 \<open>trep t False (cs ! p) (ms p)\<close> by (intro trep.ext) auto
      then show ?thesis using red m False by (cases c) auto
    qed
  qed
qed

text \<open>What a deletion at a node promises to the caller above it.\<close>

definition deleted :: "Trie \<Rightarrow> bool \<Rightarrow> tnode \<Rightarrow> (bytes \<rightharpoonup> bytes) \<Rightarrow> bytes \<Rightarrow> editResult option \<Rightarrow> bool" where
  "deleted t b n m key r \<longleftrightarrow>
     (\<exists>d n'. r = Some (d, n', None) \<and> trep t b n' (m(key := None)) \<and>
             (\<not> d \<longrightarrow> m key = None) \<and> (d \<and> isFull t n \<longrightarrow> loadedInner n'))"

lemma deletedI:
  "\<lbrakk>r = Some (d, n', None); trep t b n' (m(key := None)); \<not> d \<Longrightarrow> m key = None;
    \<lbrakk>d; isFull t n\<rbrakk> \<Longrightarrow> loadedInner n'\<rbrakk> \<Longrightarrow> deleted t b n m key r"
  by (auto simp: deleted_def)

lemma deletedE:
  assumes "deleted t b n m key r"
  obtains d n' where "r = Some (d, n', None)" "trep t b n' (m(key := None))"
    "\<not> d \<longrightarrow> m key = None" "d \<and> isFull t n \<longrightarrow> loadedInner n'"
  using assms by (auto simp: deleted_def)

lemma delete_t_leaf:
  assumes "hextail k" "w \<noteq> []" "hextail key"
  shows "deleted t False (ShortNode k (ValueNode w) fl) [k \<mapsto> w] key
    (delete_t t (ShortNode k (ValueNode w) fl) path key)"
proof (cases "prefix k key")
  case True
  then have "key = k" using hextail_prefix_eq assms by auto
  moreover have "[k \<mapsto> w](k := None) = Map.empty" by simp
  ultimately show ?thesis
    by (intro deletedI [of _ True NilNode]) (auto simp: delete_t_whole intro: trep.empty)
next
  case False
  then have "[k \<mapsto> w] key = None" by auto
  moreover from this have "[k \<mapsto> w](key := None) = [k \<mapsto> w]" by (simp only: fun_upd_idem)
  ultimately show ?thesis
    using trep.leaf [OF assms(1,2)] delete_t_mismatch [OF False]
    by (intro deletedI [of _ False "ShortNode k (ValueNode w) fl"]) auto
qed

lemma delete_t_ext:
  assumes k: "k \<noteq> []" "nibbles k" "isFull t n" "trep t False n m" and key: "hextail key"
    and IH: "\<And>key path. hextail key \<Longrightarrow> deleted t False n m key (delete_t t n path key)"
  shows "deleted t False (ShortNode k n fl) (under k m) key (delete_t t (ShortNode k n fl) path key)"
proof (cases "prefix k key")
  case True
  then obtain r where r: "key = k @ r" by (auto simp: prefix_def)
  have ht: "hextail r" using hextail_drop_nibbles [of key "length k"] key k(2) r by simp
  from IH [OF this, of "path @ k"] obtain d n' where
    n': "delete_t t n (path @ k) r = Some (d, n', None)" "trep t False n' (m(r := None))"
      "\<not> d \<longrightarrow> m r = None" "d \<longrightarrow> loadedInner n'" using k(3) by (auto elim!: deletedE)
  have "r \<noteq> []" using ht by auto
  note eq = delete_t_below [OF this, of t k n fl path]
  show ?thesis
  proof (cases d)
    case True
    show ?thesis
    proof (cases "\<exists>ck cv fl. n' = ShortNode ck cv fl")
      case True
      then obtain ck cv cfl where ck: "n' = ShortNode ck cv cfl" by blast
      have "trep t False (ShortNode (k @ ck) cv newFlag) (under k (m(r := None)))"
        using trep_Short_prepend [OF k(2)] n'(2) ck by blast
      then show ?thesis using \<open>d\<close> eq r n'(1) ck
        by (intro deletedI [of _ True "ShortNode (k @ ck) cv newFlag"]) (auto simp: under_upd)
    next
      case False
      then obtain cs cfl where cs: "n' = FullNode cs cfl" using n'(4) \<open>d\<close> by (auto simp: loadedInner_def)
      have "trep t False (ShortNode k n' newFlag) (under k (m(r := None)))"
        using k n'(2) cs by (intro trep.ext) auto
      then show ?thesis using \<open>d\<close> eq r n'(1) cs
        by (intro deletedI [of _ True "ShortNode k n' newFlag"]) (auto simp: under_upd)
    qed
  next
    case False
    have "(under k m)(key := None) = under k m" using n'(3) False r by (simp add: under_upd fun_upd_idem)
    then show ?thesis using False eq r n' trep.ext [OF k]
      by (intro deletedI [of _ False "ShortNode k n fl"]) auto
  qed
next
  case False
  then have n: "under k m key = None" by (simp add: under_def)
  then have "(under k m)(key := None) = under k m" by (simp only: fun_upd_idem)
  then show ?thesis using n trep.ext [OF k] delete_t_mismatch [OF False]
    by (intro deletedI [of _ False "ShortNode k n fl"]) auto
qed

lemma delete_t_full:
  assumes cs: "length cs = 17" "\<And>i. i < 17 \<Longrightarrow> trep t (i = 16) (cs ! i) (ms i)" "twoChildren cs"
    and key: "hextail key"
    and IH: "\<And>i key path. \<lbrakk>i < 17; keyok (i = 16) key\<rbrakk> \<Longrightarrow>
      deleted t (i = 16) (cs ! i) (ms i) key (delete_t t (cs ! i) path key)"
  shows "deleted t False (FullNode cs fl) (branchMap ms) key (delete_t t (FullNode cs fl) path key)"
proof -
  from key obtain b r where br: "key = b # r" by (cases key) auto
  let ?i = "unat b"
  have i: "?i < 17" "keyok (?i = 16) r"
    using hextail_split [OF key, of 0] br by (auto simp: hextail_word16)
  from IH [OF i, of "path @ [b]"] obtain d n' where
    n': "delete_t t (cs ! ?i) (path @ [b]) r = Some (d, n', None)"
      "trep t (?i = 16) n' ((ms ?i)(r := None))" "\<not> d \<longrightarrow> ms ?i r = None"
    by (auto elim!: deletedE)
  have eq: "delete_t t (FullNode cs fl) path key =
      (if d then reduceFull t path (cs[?i := n']) else Some (False, FullNode cs fl, None))"
    using n'(1) br i(1) cs(1) by (simp add: delete_t_Full)
  show ?thesis
  proof (cases d)
    case True
    obtain p q where pq: "p < q" "q < length cs" "cs ! p \<noteq> NilNode" "cs ! q \<noteq> NilNode"
      using cs(3) by (auto simp: twoChildren_def)
    define o' where "o' = (if p = ?i then q else p)"
    have o': "o' < length cs" "cs[?i := n'] ! o' \<noteq> NilNode" using pq by (auto simp: o'_def)
    then have ne: "\<exists>c\<in>set (cs[?i := n']). c \<noteq> NilNode"
      by (metis length_list_update nth_mem)
    have "trep t (j = 16) (cs[?i := n'] ! j) ((ms(?i := (ms ?i)(r := None))) j)" if "j < 17" for j
      using cs(1) cs(2) [OF that] n'(2) that by (cases "j = ?i") auto
    from reduceFull_trep [OF _ this ne, of path] cs(1) obtain n'' where
      "reduceFull t path (cs[?i := n']) = Some (True, n'', None)"
      "trep t False n'' (branchMap (ms(?i := (ms ?i)(r := None))))" "loadedInner n''"
      unfolding length_list_update by blast
    then show ?thesis using True eq br branchMap_upd [OF i(1), of ms r None]
      by (intro deletedI [of _ True n'']) auto
  next
    case False
    have "(branchMap ms)(key := None) = branchMap ms" using n'(3) False br i(1) by (simp add: fun_upd_idem)
    then show ?thesis using False eq n'(3) br i(1) trep.full [OF cs]
      by (intro deletedI [of _ False "FullNode cs fl"]) auto
  qed
qed

lemma delete_t_trep:
  "\<lbrakk>trep t b n m; keyok b key\<rbrakk> \<Longrightarrow> deleted t b n m key (delete_t t n path key)"
proof (induction arbitrary: key path rule: trep.induct)
  case (empty b)
  then show ?case
    by (intro deletedI [of _ False NilNode]) (auto simp: delete_t_simps intro: trep.empty)
next
  case (val w)
  then have "[[] \<mapsto> w](key := None) = Map.empty" by simp
  then have "deleted t True (ValueNode w) [[] \<mapsto> w] key (delete_t t (ValueNode w) path key)"
    by (intro deletedI [of _ True NilNode]) (auto simp: delete_t_simps intro: trep.empty)
  then show ?case .
next
  case (leaf k w fl)
  then have "deleted t False (ShortNode k (ValueNode w) fl) [k \<mapsto> w] key
      (delete_t t (ShortNode k (ValueNode w) fl) path key)" by (intro delete_t_leaf) simp_all
  then show ?case .
next
  case (ext k n m fl)
  then show ?case by (intro delete_t_ext) auto
next
  case (full cs ms fl)
  then show ?case by (intro delete_t_full) auto
next
  case (hash h n m)
  from hash.IH [OF hash.prems, of path] obtain d n' where
    n': "delete_t t n path key = Some (d, n', None)" "trep t False n' (m(key := None))"
      "\<not> d \<longrightarrow> m key = None" "d \<and> isFull t n \<longrightarrow> loadedInner n'" by (auto elim!: deletedE)
  have eq: "delete_t t (HashNode h) path key =
      (if d then Some (True, n', None) else Some (False, n, None))"
    using n'(1) by (simp add: delete_t_Hash [OF hash.hyps(1)])
  have f: "isFull t (HashNode h) \<Longrightarrow> isFull t n" using hash.hyps(1) by auto
  show ?case
  proof (cases d)
    case True
    then show ?thesis using n' eq f by (intro deletedI [of _ True n']) auto
  next
    case False
    then have "m(key := None) = m" using n'(3) by (simp add: fun_upd_idem)
    then show ?thesis using False n'(3) eq hash.hyps by (intro deletedI [of _ False n]) auto
  qed
qed

section \<open>The contents determine the nodes\<close>

text \<open>Nodes without their flags; \<open>loaded\<close> nodes have no hash node below them.\<close>

fun loaded :: "tnode \<Rightarrow> bool" where
  "loaded (FullNode cs fl) = (\<forall>c\<in>set cs. loaded c)"
| "loaded (ShortNode k n fl) = loaded n"
| "loaded (HashNode h) = False"
| "loaded n = True"

fun stripFlags :: "tnode \<Rightarrow> tnode" where
  "stripFlags (FullNode cs fl) = FullNode (map stripFlags cs) newFlag"
| "stripFlags (ShortNode k n fl) = ShortNode k (stripFlags n) newFlag"
| "stripFlags n = n"

lemma stripFlags_simps [simp]: "stripFlags n = NilNode \<longleftrightarrow> n = NilNode"
  by (cases n) auto

lemma trep_dom: "trep t b n m \<Longrightarrow> m x \<noteq> None \<Longrightarrow> keyok b x"
proof (induction arbitrary: x rule: trep.induct)
  case (ext k n m fl)
  then obtain r where "x = k @ r" "m r \<noteq> None" by (auto simp: under_def prefix_def split: if_splits)
  with ext show ?case using hextail_append by auto
next
  case (full cs ms fl)
  then obtain b r where br: "x = b # r" "unat b < 17" "ms (unat b) r \<noteq> None"
    by (auto simp: branchMap_def split: list.splits if_splits)
  have "unat b = 16 \<or> b < 16" using br(2) by (auto simp: word_less_nat_alt)
  with full.IH [OF br(2,3)] br show ?case
    by (cases "b = 16") (auto simp: hextail_Cons hextail_word16)
qed (auto split: if_splits)

lemma trep_nonempty: "\<lbrakk>trep t b n m; n \<noteq> NilNode\<rbrakk> \<Longrightarrow> \<exists>x. m x \<noteq> None"
proof (induction rule: trep.induct)
  case (ext k n m fl)
  then obtain x where "m x \<noteq> None" by (cases "n = NilNode") auto
  then have "under k m (k @ x) \<noteq> None" by simp
  then show ?case by blast
next
  case (full cs ms fl)
  then obtain i where i: "i < 17" "cs ! i \<noteq> NilNode" by (auto simp: twoChildren_def)
  then obtain x where x: "ms i x \<noteq> None" using full.IH by blast
  have "unat (of_nat i :: byte) = i" using i(1) by (simp add: unsigned_of_nat take_bit_nat_eq_self)
  then have "branchMap ms (of_nat i # x) \<noteq> None" using i x by simp
  then show ?case by blast
qed auto

text \<open>A full node stores two keys that differ in their first nibble.\<close>

lemma full_two_heads:
  assumes "length cs = 17" "\<And>i. i < 17 \<Longrightarrow> trep t (i = 16) (cs ! i) (ms i)" "twoChildren cs"
  shows "\<exists>b x c y. b \<noteq> c \<and> branchMap ms (b # x) \<noteq> None \<and> branchMap ms (c # y) \<noteq> None"
proof -
  obtain i j where ij: "i < j" "j < 17" "cs ! i \<noteq> NilNode" "cs ! j \<noteq> NilNode"
    using assms(1,3) by (auto simp: twoChildren_def)
  then obtain x y where xy: "ms i x \<noteq> None" "ms j y \<noteq> None"
    using trep_nonempty [OF assms(2)] by (meson less_trans)
  have u: "unat (of_nat i :: byte) = i" "unat (of_nat j :: byte) = j"
    using ij by (simp_all add: unsigned_of_nat take_bit_nat_eq_self)
  then have "(of_nat i :: byte) \<noteq> of_nat j" using ij(1) by (metis less_irrefl)
  moreover have "branchMap ms (of_nat i # x) \<noteq> None" "branchMap ms (of_nat j # y) \<noteq> None"
    using xy u ij by simp_all
  ultimately show ?thesis by blast
qed

lemma under_inj:
  assumes "under k m = under k m'"
  shows "m = m'"
proof (rule HOL.ext)
  fix x
  show "m x = m' x" using fun_cong [OF assms, of "k @ x"] by simp
qed

lemma branchMap_inj:
  assumes "branchMap ms = branchMap ms'" "i < 17"
  shows "ms i = ms' i"
proof (rule HOL.ext)
  fix x
  have "unat (of_nat i :: byte) = i" using assms(2) by (simp add: unsigned_of_nat take_bit_nat_eq_self)
  then show "ms i x = ms' i x" using fun_cong [OF assms(1), of "of_nat i # x"] assms(2) by simp
qed

text \<open>
  The three shapes of a non-empty loaded node are told apart by the keys: one key (leaf),
  keys with a common first nibble that part later (short node above a full node), keys
  that part at once (full node).
\<close>

definition partsAt :: "bytes \<Rightarrow> (bytes \<rightharpoonup> bytes) \<Rightarrow> bool" where
  "partsAt k m \<longleftrightarrow> (\<forall>x. m x \<noteq> None \<longrightarrow> prefix k x) \<and>
     (\<exists>b x c y. b \<noteq> c \<and> m (k @ b # x) \<noteq> None \<and> m (k @ c # y) \<noteq> None)"

lemma partsAt_unique: "\<lbrakk>partsAt k m; partsAt k' m\<rbrakk> \<Longrightarrow> k = k'"
proof -
  have "prefix k' k" if k: "partsAt k m" and k': "partsAt k' m" for k k'
  proof -
    obtain b x c y where "b \<noteq> c" "m (k @ b # x) \<noteq> None" "m (k @ c # y) \<noteq> None"
      using k unfolding partsAt_def by blast
    then have "prefix k' (k @ b # x)" "prefix k' (k @ c # y)" "b \<noteq> c"
      using k' unfolding partsAt_def by blast+
    then show ?thesis by (auto simp: prefix_append prefix_Cons)
  qed
  then show "\<lbrakk>partsAt k m; partsAt k' m\<rbrakk> \<Longrightarrow> k = k'" by (simp add: prefix_order.antisym)
qed

lemma trep_full_parts:
  assumes "trep t b (FullNode cs fl) m"
  shows "partsAt [] m"
  using assms
proof (cases rule: trep.cases)
  case (full ms)
  from full_two_heads [OF full(3-5)] full(2) show ?thesis
    unfolding partsAt_def append_Nil by simp
qed

lemma trep_ext_parts:
  assumes "trep t False (FullNode cs fl) m"
  shows "partsAt k (under k m)"
proof -
  from trep_full_parts [OF assms] obtain b x c y where
    "b \<noteq> c" "m (b # x) \<noteq> None" "m (c # y) \<noteq> None"
    unfolding partsAt_def append_Nil by blast
  moreover have "\<And>x. under k m x \<noteq> None \<Longrightarrow> prefix k x" by (auto simp: under_def split: if_splits)
  ultimately show ?thesis unfolding partsAt_def under_append by blast
qed

lemma leaf_not_parts: "\<not> partsAt k' [k \<mapsto> v]"
  by (auto simp: partsAt_def split: if_splits)

lemma loaded_isFull: "\<lbrakk>isFull t n; loaded n\<rbrakk> \<Longrightarrow> \<exists>cs fl. n = FullNode cs fl"
  by (cases n) auto

lemma trep_unique:
  "\<lbrakk>trep t b n m; loaded n; trep t' b n' m; loaded n'\<rbrakk> \<Longrightarrow> stripFlags n = stripFlags n'"
proof (induction arbitrary: n' rule: trep.induct)
  case (empty b)
  then have "n' = NilNode" using trep_nonempty by fastforce
  then show ?case by simp
next
  case (val v)
  from val.prems(2) have "n' = ValueNode v" by (cases rule: trep.cases) (auto dest: fun_cong [of _ _ "[]"])
  then show ?case by simp
next
  case (leaf k v fl)
  from leaf.prems(2) show ?case
  proof (cases rule: trep.cases)
    case (leaf k' v' fl')
    have "k' = k \<and> v' = v" using fun_cong [OF leaf(2), of k'] fun_cong [OF leaf(2), of k]
      by (auto split: if_splits)
    then show ?thesis using leaf by simp
  next
    case (ext k' n'' m' fl')
    then obtain cs cfl where "n'' = FullNode cs cfl" using loaded_isFull leaf.prems(3) by fastforce
    then show ?thesis using ext trep_ext_parts leaf_not_parts by metis
  next
    case (full cs ms fl')
    then show ?thesis using trep_full_parts leaf_not_parts leaf.prems(2) by metis
  qed (use leaf.prems in \<open>auto dest: fun_cong [of _ _ k]\<close>)
next
  case (ext k n m fl)
  obtain cs cfl where n: "n = FullNode cs cfl" using loaded_isFull ext.hyps(3) ext.prems(1) by fastforce
  then have parts: "partsAt k (under k m)" using trep_ext_parts ext.hyps(4) by blast
  from ext.prems(2) show ?case
  proof (cases rule: trep.cases)
    case (leaf k' v' fl')
    then show ?thesis using parts leaf_not_parts by metis
  next
    case (ext k' n'' m' fl')
    then obtain cs' cfl' where n'': "n'' = FullNode cs' cfl'" using loaded_isFull ext.prems(3) by fastforce
    then have "partsAt k' (under k' m')" using trep_ext_parts ext(6) by blast
    then have "k' = k" using partsAt_unique parts ext(2) by metis
    then have "m' = m" using under_inj ext(2) by metis
    then show ?thesis using ext ext.IH ext.prems \<open>k' = k\<close> by simp
  next
    case (full cs ms fl')
    then have "partsAt [] (under k m)" using trep_full_parts ext.prems(2) by metis
    then show ?thesis using partsAt_unique parts ext.hyps(1) by blast
  qed (use ext.prems parts in \<open>auto simp: partsAt_def\<close>)
next
  case (full cs ms fl)
  have parts: "partsAt [] (branchMap ms)" using trep_full_parts trep.full [OF full.hyps(1,2,3)] by blast
  from full.prems(2) show ?case
  proof (cases rule: trep.cases)
    case (leaf k' v' fl')
    then show ?thesis using parts leaf_not_parts by metis
  next
    case (ext k' n'' m' fl')
    then obtain cs' cfl' where n'': "n'' = FullNode cs' cfl'" using loaded_isFull full.prems(3) by fastforce
    then have "partsAt k' (under k' m')" using trep_ext_parts ext(6) by blast
    then show ?thesis using partsAt_unique parts ext(2,3) by metis
  next
    case (full cs' ms' fl')
    have "stripFlags (cs ! i) = stripFlags (cs' ! i)" if "i < 17" for i
      using full.IH [OF that] full(2,4) branchMap_inj that full.prems full.hyps(1) full(1,3)
      by (metis loaded.simps(1) nth_mem)
    then show ?thesis using full full.hyps(1) by (auto intro: nth_equalityI)
  qed (use full.prems parts in \<open>auto simp: partsAt_def\<close>)
next
  case (hash h n m)
  then show ?case by simp
qed

section \<open>The trie as a store of byte keys\<close>

definition hexMap :: "(bytes \<rightharpoonup> bytes) \<Rightarrow> (bytes \<rightharpoonup> bytes)" where
  "hexMap c x = (case hexToKeybytes x of None \<Rightarrow> None | Some k \<Rightarrow> if keybytesToHex k = x then c k else None)"

definition trieMap :: "Trie \<Rightarrow> (bytes \<rightharpoonup> bytes) \<Rightarrow> bool" where
  "trieMap t c \<longleftrightarrow> trep t False (tRoot t) (hexMap c)"

lemma hexMap_key [simp]: "hexMap c (keybytesToHex k) = c k"
  by (simp add: hexMap_def hexToKeybytes_inverse)

lemma hexMap_empty [simp]: "hexMap Map.empty = Map.empty"
  by (rule HOL.ext) (simp add: hexMap_def split: option.splits)

lemma hexMap_upd: "(hexMap c)(keybytesToHex k := v) = hexMap (c(k := v))"
  by (rule HOL.ext) (auto simp: hexMap_def hexToKeybytes_inverse split: option.splits)

lemma hextail_key: "hextail (keybytesToHex k)"
  using nibbles_nibblesOf by (auto simp: hextail_def keybytesToHex_def)

lemma resolveHash_root [simp]: "resolveHash (t\<lparr>tRoot := n\<rparr>) = resolveHash t"
  by (intro HOL.ext) (simp add: resolveHash_def cong: option.case_cong)

lemma isFull_root [simp]: "isFull (t\<lparr>tRoot := n\<rparr>) = isFull t"
  by (intro HOL.ext) (simp add: isFull_def cong: tnode.case_cong)

lemma trep_root: "trep t b n m \<Longrightarrow> trep (t\<lparr>tRoot := r\<rparr>) b n m"
proof (induction rule: trep.induct)
  case (val v)
  then show ?case by (rule trep.val)
next
  case (leaf k v fl)
  then show ?case by (rule trep.leaf)
next
  case (hash h n m)
  show ?case by (rule trep.hash [of _ _ n]) (use hash in simp_all)
qed (auto intro: trep.intros)

lemma TryGet_ok:
  assumes "trieMap t c"
  shows "\<exists>t'. TryGet t k = Some (c k, None, t') \<and> trieMap t' c \<and> tDb t' = tDb t \<and> tDbWrite t' = tDbWrite t"
proof -
  from tryGet_trep [of t False "tRoot t" "hexMap c" 0 "keybytesToHex k"] assms hextail_key
  obtain n' r where "tryGet t (tRoot t) (keybytesToHex k) 0 = Some (c k, n', r, None)"
    "trep t False n' (hexMap c)" by (auto simp: trieMap_def)
  then show ?thesis using assms
    by (auto simp: TryGet_def trieMap_def intro: trep_root)
qed

lemma TryDelete_ok:
  assumes "trieMap t c"
  shows "\<exists>t'. TryDelete t k = Some (None, t') \<and> trieMap t' (c(k := None)) \<and> tDb t' = tDb t \<and> tDbWrite t' = tDbWrite t"
proof -
  have "deleted t False (tRoot t) (hexMap c) (keybytesToHex k) (delete_t t (tRoot t) [] (keybytesToHex k))"
    using assms hextail_key by (intro delete_t_trep) (simp_all add: trieMap_def)
  then obtain d n' where "delete_t t (tRoot t) [] (keybytesToHex k) = Some (d, n', None)"
    "trep t False n' (hexMap (c(k := None)))" unfolding hexMap_upd [symmetric] by (rule deletedE)
  then show ?thesis by (auto simp: TryDelete_def trieMap_def intro: trep_root)
qed

lemma TryUpdate_ok:
  assumes "trieMap t c"
  shows "\<exists>t'. TryUpdate t k v = Some (None, t') \<and> trieMap t' (c(k := updated v)) \<and> tDb t' = tDb t \<and> tDbWrite t' = tDbWrite t"
proof (cases "v = []")
  case True
  with TryDelete_ok [OF assms, of k] show ?thesis
    by (simp add: TryUpdate_def TryDelete_def updated_def)
next
  case False
  have "inserted t False (tRoot t) (hexMap c) (keybytesToHex k) v
      (insert_t t (tRoot t) [] (keybytesToHex k) (ValueNode v))"
    using assms hextail_key False by (intro insert_t_trep) (simp_all add: trieMap_def)
  then obtain d n' where "insert_t t (tRoot t) [] (keybytesToHex k) (ValueNode v) = Some (d, n', None)"
    "trep t False n' (hexMap (c(k \<mapsto> v)))" unfolding hexMap_upd [symmetric] by (rule insertedE)
  then show ?thesis using False by (auto simp: TryUpdate_def trieMap_def updated_def intro: trep_root)
qed

interpretation trie_store: map_store trieMap TryGet TryUpdate TryDelete
proof
  show "\<exists>s'. TryGet s k = Some (c k, None, s') \<and> trieMap s' c" if "trieMap s c" for s c k
    using TryGet_ok [OF that] by blast
  show "\<exists>s'. TryUpdate s k v = Some (None, s') \<and> trieMap s' (c(k := updated v))" if "trieMap s c" for s c k v
    using TryUpdate_ok [OF that] by blast
  show "\<exists>s'. TryDelete s k = Some (None, s') \<and> trieMap s' (c(k := None))" if "trieMap s c" for s c k
    using TryDelete_ok [OF that] by blast
qed

text \<open>A trie over a database without nodes is fully loaded.\<close>

definition emptyTrie :: Trie where
  "emptyTrie = \<lparr>tDb = \<lambda>_. Ok None, tDbWrite = None, tRoot = NilNode\<rparr>"

lemma trieMap_empty: "trieMap emptyTrie Map.empty"
  by (simp add: trieMap_def emptyTrie_def trep.empty)

lemma trep_loaded: "\<lbrakk>trep t b n m; tDb t = (\<lambda>_. Ok None); tDbWrite t = None\<rbrakk> \<Longrightarrow> loaded n"
proof (induction rule: trep.induct)
  case (full cs ms fl)
  then show ?case by (auto simp: in_set_conv_nth)
next
  case (hash h n m)
  then show ?case using hash.hyps(1) [of "[]"]
    by (auto simp: resolveHash_def andThen_eq_Ok_iff split: option.splits)
qed auto

definition trieInv :: "Trie \<Rightarrow> (bytes \<rightharpoonup> bytes) \<Rightarrow> bool" where
  "trieInv t c \<longleftrightarrow> trieMap t c \<and> tDb t = (\<lambda>_. Ok None) \<and> tDbWrite t = None"

interpretation memory_trie: map_store trieInv TryGet TryUpdate TryDelete
proof
  show "\<exists>s'. TryGet s k = Some (c k, None, s') \<and> trieInv s' c" if "trieInv s c" for s c k
    using TryGet_ok [of s c k] that by (auto simp: trieInv_def)
  show "\<exists>s'. TryUpdate s k v = Some (None, s') \<and> trieInv s' (c(k := updated v))" if "trieInv s c" for s c k v
    using TryUpdate_ok [of s c k v] that by (auto simp: trieInv_def)
  show "\<exists>s'. TryDelete s k = Some (None, s') \<and> trieInv s' (c(k := None))" if "trieInv s c" for s c k
    using TryDelete_ok [of s c k] that by (auto simp: trieInv_def)
qed

section \<open>Properties\<close>

text \<open>
  C1. Any sequence of lookups, updates and deletions on a well-formed trie returns without
  error, over any database that still holds the unloaded nodes, and a lookup afterwards
  gives the value that the same sequence leaves in a finite map (an update with an empty
  value being a deletion).
\<close>

theorem trie_implements_map:
  assumes "trieMap t c"
  shows "\<exists>t' t''. runOps TryGet TryUpdate TryDelete t xs = Some (None, t') \<and>
           trieMap t' (foldl applyOp c xs) \<and>
           TryGet t' k = Some (foldl applyOp c xs k, None, t'')"
  using trie_store.run_ok [OF assms, of xs] trie_store.get_ok by blast

text \<open>
  C18. The nodes of a trie depend only on its contents: two sequences of operations that
  leave the same map in an empty trie build the same nodes up to flags, so they hash to the
  same root, whatever the order of insertions and whatever was inserted and deleted again.
\<close>

theorem trie_order_independent:
  assumes "foldl applyOp Map.empty xs = foldl applyOp Map.empty ys"
  shows "\<exists>t t'. runOps TryGet TryUpdate TryDelete emptyTrie xs = Some (None, t) \<and>
           runOps TryGet TryUpdate TryDelete emptyTrie ys = Some (None, t') \<and>
           stripFlags (tRoot t) = stripFlags (tRoot t')"
proof -
  have inv: "trieInv emptyTrie Map.empty"
    using trieMap_empty by (simp add: trieInv_def) (simp add: emptyTrie_def)
  obtain t where t: "runOps TryGet TryUpdate TryDelete emptyTrie xs = Some (None, t)"
      "trieInv t (foldl applyOp Map.empty xs)" using memory_trie.run_ok [OF inv] by blast
  obtain t' where t': "runOps TryGet TryUpdate TryDelete emptyTrie ys = Some (None, t')"
      "trieInv t' (foldl applyOp Map.empty ys)" using memory_trie.run_ok [OF inv] by blast
  have "stripFlags (tRoot t) = stripFlags (tRoot t')"
    using t(2) t'(2) assms by (auto simp: trieInv_def trieMap_def intro: trep_unique trep_loaded)
  with t(1) t'(1) show ?thesis by blast
qed

subsection \<open>Concrete instances\<close>

text \<open>A trie whose root is an unloaded leaf for the key \<open>[0x12]\<close>.\<close>

definition hashedLeafTrie :: Trie where
  "hashedLeafTrie = \<lparr>tDb = \<lambda>_. Ok (Some (ShortNode [1, 2, 16] (ValueNode [7]) newFlag)),
     tDbWrite = None, tRoot = HashNode (replicate 32 5)\<rparr>"

lemma hashedLeafTrie_map: "trieMap hashedLeafTrie [[0x12] \<mapsto> [7]]"
proof -
  have key: "keybytesToHex [0x12] = [1, 2, 16]" by (simp add: keybytesToHex_def)
  have "hexMap [[0x12] \<mapsto> [7]] = [[1, 2, 16] \<mapsto> [7]]"
    using hexMap_upd [of Map.empty "[0x12]" "Some [7]"] unfolding key hexMap_empty by (rule sym)
  moreover have "trep hashedLeafTrie False (HashNode (replicate 32 5)) [[1, 2, 16] \<mapsto> [7]]"
  proof (rule trep.hash)
    show "resolveHash hashedLeafTrie (replicate 32 5) p = Ok (ShortNode [1, 2, 16] (ValueNode [7]) newFlag)" for p
      by (simp add: resolveHash_def hashedLeafTrie_def Bytes2Hash_def HashLength_def)
    show "trep hashedLeafTrie False (ShortNode [1, 2, 16] (ValueNode [7]) newFlag) [[1, 2, 16] \<mapsto> [7]]"
      by (rule trep.leaf) (simp_all add: hextail_Cons)
  qed simp_all
  ultimately show ?thesis by (simp add: trieMap_def hashedLeafTrie_def)
qed

theorem trie_implements_map_witness:
  "\<exists>t' t''. runOps TryGet TryUpdate TryDelete hashedLeafTrie [OpPut [0x13] [9], OpDel [0x12]] = Some (None, t') \<and>
            TryGet t' [0x13] = Some (Some [9], None, t'')"
  using trie_implements_map [OF hashedLeafTrie_map, of "[OpPut [0x13] [9], OpDel [0x12]]" "[0x13]"]
  by (auto simp: updated_def)

theorem trie_order_independent_witness:
  "\<exists>t t'. runOps TryGet TryUpdate TryDelete emptyTrie [OpPut [0x13] [9], OpPut [0x12] [8]] = Some (None, t) \<and>
     runOps TryGet TryUpdate TryDelete emptyTrie [OpPut [0x12] [8], OpPut [0x77] [1], OpPut [0x13] [9], OpDel [0x77]] = Some (None, t') \<and>
     stripFlags (tRoot t) = stripFlags (tRoot t')"
  by (rule trie_order_independent) (simp add: updated_def fun_eq_iff)

end
