(* ===== verification/TrieDB.thy ===== *)
theory TrieDB
  imports TrieCorrect "HOL-Library.AList"
begin

section \<open>The node database, the hasher and the secure trie\<close>

text \<open>
  \<^verbatim>\<open>common/trie/database.go\<close>, \<^verbatim>\<open>common/trie/hasher.go\<close> and \<^verbatim>\<open>common/trie/secure_trie.go\<close>.
  Two functions are parameters: \<open>enc\<close>, the external RLP encoding of a collapsed node, and
  \<open>keccak\<close>. Nodes that are not in memory are read from disk and decoded; the reader
  \<open>disk\<close> stands for both. The clean cache is nil (the store opens the database with
  cache size 0) and the leaf callback is nil (every commit of the repository passes nil).
  Sizes are integers; the timing statistics are left out.
\<close>

subsection \<open>Raw nodes\<close>

datatype rawnode =
    RawNil
  | RawShort bytes rawnode
  | RawFull "rawnode list"
  | RawHash bytes
  | RawValue bytes

text \<open>\<^verbatim>\<open>simplifyNode\<close> keeps nil children of a full node and panics on nil anywhere else.\<close>

fun simplifyNode :: "tnode \<Rightarrow> rawnode option"
  and simplifyChildren :: "tnode list \<Rightarrow> rawnode list option" where
  "simplifyNode (ShortNode k n fl) = map_option (RawShort k) (simplifyNode n)"
| "simplifyNode (FullNode cs fl) = map_option RawFull (simplifyChildren cs)"
| "simplifyNode (ValueNode v) = Some (RawValue v)"
| "simplifyNode (HashNode h) = Some (RawHash h)"
| "simplifyNode NilNode = None"
| "simplifyChildren [] = Some []"
| "simplifyChildren (c # cs) =
     Option.bind (if c = NilNode then Some RawNil else simplifyNode c) (\<lambda>r.
     Option.bind (simplifyChildren cs) (\<lambda>rs. Some (r # rs)))"

fun expandNode :: "bytes option \<Rightarrow> rawnode \<Rightarrow> tnode option"
  and expandChildren :: "rawnode list \<Rightarrow> tnode list option" where
  "expandNode h (RawShort k n) =
     map_option (\<lambda>v. ShortNode (compactToHex k) v \<lparr>fHash = h, fDirty = False\<rparr>) (expandNode None n)"
| "expandNode h (RawFull rs) =
     map_option (\<lambda>cs. FullNode cs \<lparr>fHash = h, fDirty = False\<rparr>) (expandChildren rs)"
| "expandNode h (RawValue v) = Some (ValueNode v)"
| "expandNode h (RawHash g) = Some (HashNode g)"
| "expandNode h RawNil = None"
| "expandChildren [] = Some []"
| "expandChildren (r # rs) =
     Option.bind (if r = RawNil then Some NilNode else expandNode None r) (\<lambda>c.
     Option.bind (expandChildren rs) (\<lambda>cs. Some (c # cs)))"

text \<open>The hash children of a raw node, in the order in which they are gathered; the 17th child of a full node is not visited.\<close>

fun gatherChildren :: "rawnode \<Rightarrow> hash list option"
  and gatherList :: "nat \<Rightarrow> rawnode list \<Rightarrow> hash list option" where
  "gatherChildren (RawShort k n) = gatherChildren n"
| "gatherChildren (RawFull rs) = gatherList 16 rs"
| "gatherChildren (RawHash h) = map_option (\<lambda>x. [x]) (Bytes2Hash (Some h))"
| "gatherChildren (RawValue v) = Some []"
| "gatherChildren RawNil = Some []"
| "gatherList 0 rs = Some []"
| "gatherList (Suc k) [] = Some []"
| "gatherList (Suc k) (r # rs) =
     Option.bind (gatherChildren r) (\<lambda>a. Option.bind (gatherList k rs) (\<lambda>b. Some (a @ b)))"

subsection \<open>The database\<close>

record cachedNode =
  cnNode :: rawnode
  cnSize :: "16 word"
  cnParents :: u32
  cnChildren :: "(hash \<rightharpoonup> 16 word) option"
  cnFlushPrev :: hash
  cnFlushNext :: hash

record Database =
  dbDirties :: "hash \<rightharpoonup> cachedNode"
  dbOldest :: hash
  dbNewest :: hash
  dbPreimages :: "hash \<rightharpoonup> bytes"
  dbDirtiesSize :: int
  dbChildrenSize :: int
  dbPreimagesSize :: int

definition NewDatabase :: Database where
  "NewDatabase = \<lparr>dbDirties = [ZeroHash \<mapsto> \<lparr>cnNode = RawNil, cnSize = 0, cnParents = 0,
       cnChildren = Some Map.empty, cnFlushPrev = ZeroHash, cnFlushNext = ZeroHash\<rparr>],
     dbOldest = ZeroHash, dbNewest = ZeroHash, dbPreimages = Map.empty, dbDirtiesSize = 0,
     dbChildrenSize = 0, dbPreimagesSize = 0\<rparr>"

fun addParents :: "(hash \<rightharpoonup> cachedNode) \<Rightarrow> hash list \<Rightarrow> (hash \<rightharpoonup> cachedNode)" where
  "addParents d [] = d"
| "addParents d (h # hs) =
     addParents (case d h of None \<Rightarrow> d | Some c \<Rightarrow> d(h \<mapsto> c\<lparr>cnParents := cnParents c + 1\<rparr>)) hs"

definition insert_db :: "Database \<Rightarrow> hash \<Rightarrow> bytes \<Rightarrow> tnode \<Rightarrow> Database option" where
  "insert_db db h blob n =
     (if dbDirties db h \<noteq> None then Some db
      else
        Option.bind (simplifyNode n) (\<lambda>raw.
        Option.bind (gatherChildren raw) (\<lambda>childs.
          let entry = \<lparr>cnNode = raw, cnSize = of_nat (length blob), cnParents = 0, cnChildren = None,
                       cnFlushPrev = dbNewest db, cnFlushNext = ZeroHash\<rparr>;
              d = (addParents (dbDirties db) childs)(h \<mapsto> entry);
              size = dbDirtiesSize db + uint (of_nat HashLength + cnSize entry)
          in if dbOldest db = ZeroHash then
               Some (db\<lparr>dbDirties := d, dbOldest := h, dbNewest := h, dbDirtiesSize := size\<rparr>)
             else
               Option.bind (d (dbNewest db)) (\<lambda>last.
                 Some (db\<lparr>dbDirties := d(dbNewest db \<mapsto> last\<lparr>cnFlushNext := h\<rparr>), dbNewest := h,
                          dbDirtiesSize := size\<rparr>)))))"

definition insertPreimage :: "Database \<Rightarrow> hash \<Rightarrow> bytes \<Rightarrow> Database" where
  "insertPreimage db h preimage =
     (if dbPreimages db h \<noteq> None then db
      else db\<lparr>dbPreimages := (dbPreimages db)(h \<mapsto> preimage),
              dbPreimagesSize := dbPreimagesSize db + int HashLength + int (length preimage)\<rparr>)"

definition node_db :: "nodeReader \<Rightarrow> Database \<Rightarrow> nodeReader" where
  "node_db disk db h =
     (case dbDirties db h of
        Some e \<Rightarrow> andThen (lift_panic (expandNode (Some h) (cnNode e))) (\<lambda>n. Ok (Some n))
      | None \<Rightarrow> disk h)"

subsection \<open>The hasher\<close>

definition cache_n :: "tnode \<Rightarrow> bytes option \<times> bool" where
  "cache_n n = (case n of FullNode _ fl \<Rightarrow> (fHash fl, fDirty fl)
     | ShortNode _ _ fl \<Rightarrow> (fHash fl, fDirty fl) | _ \<Rightarrow> (None, True))"

definition setCache :: "tnode \<Rightarrow> bytes option \<Rightarrow> bool \<Rightarrow> tnode" where
  "setCache n h committed =
     (case n of
        FullNode cs fl \<Rightarrow> FullNode cs \<lparr>fHash = h, fDirty = (if committed then False else fDirty fl)\<rparr>
      | ShortNode k v fl \<Rightarrow> ShortNode k v \<lparr>fHash = h, fDirty = (if committed then False else fDirty fl)\<rparr>
      | _ \<Rightarrow> n)"

definition store_h :: "(rawnode \<Rightarrow> bytes) \<Rightarrow> (bytes \<Rightarrow> bytes) \<Rightarrow> tnode \<Rightarrow> Database option \<Rightarrow> bool \<Rightarrow>
    (tnode \<times> Database option) option" where
  "store_h enc keccak n db force =
     (case n of
        NilNode \<Rightarrow> Some (n, db)
      | HashNode _ \<Rightarrow> Some (n, db)
      | _ \<Rightarrow>
          Option.bind (simplifyNode n) (\<lambda>raw.
          let tmp = enc raw
          in if length tmp < 32 \<and> \<not> force then Some (n, db)
             else
               let h = (case fst (cache_n n) of Some h \<Rightarrow> h | None \<Rightarrow> keccak tmp)
               in (case db of
                     None \<Rightarrow> Some (HashNode h, None)
                   | Some d \<Rightarrow> Option.bind (Bytes2Hash (Some h)) (\<lambda>hh.
                       Option.bind (insert_db d hh tmp n) (\<lambda>d'. Some (HashNode h, Some d'))))))"

text \<open>The end of \<^verbatim>\<open>hash\<close>: store the collapsed node and note its hash in the cached copy.\<close>

definition finish_h :: "(rawnode \<Rightarrow> bytes) \<Rightarrow> (bytes \<Rightarrow> bytes) \<Rightarrow> tnode \<Rightarrow> tnode \<Rightarrow> Database option \<Rightarrow> bool \<Rightarrow>
    (tnode \<times> tnode \<times> Database option) option" where
  "finish_h enc keccak collapsed cached db force =
     Option.bind (store_h enc keccak collapsed db force) (\<lambda>(hashed, db').
       Some (hashed,
             setCache cached (case hashed of HashNode h \<Rightarrow> Some h | _ \<Rightarrow> None) (db \<noteq> None),
             db'))"

text \<open>The start of \<^verbatim>\<open>hash\<close>: the cached hash is used when only hashing, or when the node is already in the database.\<close>

definition cached_h :: "tnode \<Rightarrow> Database option \<Rightarrow> (tnode \<times> tnode \<times> Database option) option" where
  "cached_h n db =
     (case cache_n n of
        (None, _) \<Rightarrow> None
      | (Some h, dirty) \<Rightarrow>
          if db = None then Some (HashNode h, n, db)
          else if \<not> dirty then Some (HashNode h, HashNode h, db)
          else None)"

fun hash_h :: "(rawnode \<Rightarrow> bytes) \<Rightarrow> (bytes \<Rightarrow> bytes) \<Rightarrow> tnode \<Rightarrow> Database option \<Rightarrow> bool \<Rightarrow>
      (tnode \<times> tnode \<times> Database option) option"
  and hashChildren :: "(rawnode \<Rightarrow> bytes) \<Rightarrow> (bytes \<Rightarrow> bytes) \<Rightarrow> nat \<Rightarrow> tnode list \<Rightarrow> Database option \<Rightarrow>
      (tnode list \<times> tnode list \<times> Database option) option" where
  "hash_h enc keccak NilNode db force = None"
| "hash_h enc keccak (ValueNode v) db force = finish_h enc keccak (ValueNode v) (ValueNode v) db force"
| "hash_h enc keccak (HashNode h) db force = finish_h enc keccak (HashNode h) (HashNode h) db force"
| "hash_h enc keccak (ShortNode k v fl) db force =
     (case cached_h (ShortNode k v fl) db of
        Some r \<Rightarrow> Some r
      | None \<Rightarrow>
          Option.bind (hexToCompact k) (\<lambda>ck.
          Option.bind (case v of ValueNode w \<Rightarrow> Some (ValueNode w, ValueNode w, db)
                       | _ \<Rightarrow> hash_h enc keccak v db False) (\<lambda>(cv, sv, db').
            finish_h enc keccak (ShortNode ck cv fl) (ShortNode k sv fl) db' force)))"
| "hash_h enc keccak (FullNode cs fl) db force =
     (case cached_h (FullNode cs fl) db of
        Some r \<Rightarrow> Some r
      | None \<Rightarrow>
          Option.bind (hashChildren enc keccak 16 cs db) (\<lambda>(ccs, scs, db').
            finish_h enc keccak (FullNode ccs fl) (FullNode scs fl) db' force))"
| "hashChildren enc keccak 0 cs db = Some (cs, cs, db)"
| "hashChildren enc keccak (Suc k) [] db = Some ([], [], db)"
| "hashChildren enc keccak (Suc k) (c # cs) db =
     Option.bind (if c = NilNode then Some (NilNode, NilNode, db) else hash_h enc keccak c db False)
       (\<lambda>(cc, sc, db').
     Option.bind (hashChildren enc keccak k cs db') (\<lambda>(ccs, scs, db'').
       Some (cc # ccs, sc # scs, db'')))"

subsection \<open>The secure trie\<close>

text \<open>
  The trie hashes its keys. \<^verbatim>\<open>secKeyCache\<close> is an association list: it is a Go map, and
  the order in which \<^verbatim>\<open>Commit\<close> visits it does not matter, as its keys are distinct.
\<close>

record SecureTrie =
  stRoot :: tnode
  stDb :: Database
  stSecKeys :: "(bytes \<times> bytes) list"

definition stateRootName :: bytes where
  "stateRootName = map (of_nat \<circ> of_char) ''state rootState''"

definition EmptyRoot :: "(bytes \<Rightarrow> bytes) \<Rightarrow> hash option" where
  "EmptyRoot keccak = Bytes2Hash (Some (keccak stateRootName))"

definition trieOf :: "nodeReader \<Rightarrow> SecureTrie \<Rightarrow> Trie" where
  "trieOf disk st = \<lparr>tDb = node_db disk (stDb st), tDbWrite = None, tRoot = stRoot st\<rparr>"

definition TryGet_s :: "(bytes \<Rightarrow> bytes) \<Rightarrow> nodeReader \<Rightarrow> SecureTrie \<Rightarrow> bytes \<Rightarrow>
    (bytes option \<times> trieError option \<times> SecureTrie) option" where
  "TryGet_s keccak disk st key =
     Option.bind (TryGet (trieOf disk st) (keccak key)) (\<lambda>(v, err, t).
       Some (v, err, st\<lparr>stRoot := tRoot t\<rparr>))"

definition TryUpdate_s :: "(bytes \<Rightarrow> bytes) \<Rightarrow> nodeReader \<Rightarrow> SecureTrie \<Rightarrow> bytes \<Rightarrow> bytes \<Rightarrow>
    (trieError option \<times> SecureTrie) option" where
  "TryUpdate_s keccak disk st key value =
     (let hk = keccak key
      in Option.bind (TryUpdate (trieOf disk st) hk value) (\<lambda>(err, t).
           Some (if err \<noteq> None then (err, st\<lparr>stRoot := tRoot t\<rparr>)
                 else (None, st\<lparr>stRoot := tRoot t, stSecKeys := AList.update hk key (stSecKeys st)\<rparr>))))"

definition TryDelete_s :: "(bytes \<Rightarrow> bytes) \<Rightarrow> nodeReader \<Rightarrow> SecureTrie \<Rightarrow> bytes \<Rightarrow>
    (trieError option \<times> SecureTrie) option" where
  "TryDelete_s keccak disk st key =
     (let hk = keccak key; st' = st\<lparr>stSecKeys := AList.delete hk (stSecKeys st)\<rparr>
      in Option.bind (TryDelete (trieOf disk st') hk) (\<lambda>(err, t).
           Some (err, st'\<lparr>stRoot := tRoot t\<rparr>)))"

definition hashRoot :: "(rawnode \<Rightarrow> bytes) \<Rightarrow> (bytes \<Rightarrow> bytes) \<Rightarrow> tnode \<Rightarrow> Database option \<Rightarrow>
    (hash \<times> tnode \<times> Database option) option" where
  "hashRoot enc keccak root db =
     (if root = NilNode then map_option (\<lambda>h. (h, NilNode, db)) (EmptyRoot keccak)
      else Option.bind (hash_h enc keccak root db True) (\<lambda>(hashed, cached, db').
             case hashed of HashNode h \<Rightarrow> map_option (\<lambda>hh. (hh, cached, db')) (Bytes2Hash (Some h))
             | _ \<Rightarrow> None))"

definition Hash_s :: "(rawnode \<Rightarrow> bytes) \<Rightarrow> (bytes \<Rightarrow> bytes) \<Rightarrow> SecureTrie \<Rightarrow> (hash \<times> SecureTrie) option" where
  "Hash_s enc keccak st =
     map_option (\<lambda>(h, cached, _). (h, st\<lparr>stRoot := cached\<rparr>)) (hashRoot enc keccak (stRoot st) None)"

fun insertPreimages :: "Database \<Rightarrow> (bytes \<times> bytes) list \<Rightarrow> Database option" where
  "insertPreimages db [] = Some db"
| "insertPreimages db ((hk, key) # ps) =
     Option.bind (Bytes2Hash (Some hk)) (\<lambda>h. insertPreimages (insertPreimage db h key) ps)"

definition Commit_s :: "(rawnode \<Rightarrow> bytes) \<Rightarrow> (bytes \<Rightarrow> bytes) \<Rightarrow> SecureTrie \<Rightarrow> (hash \<times> SecureTrie) option" where
  "Commit_s enc keccak st =
     Option.bind (insertPreimages (stDb st) (stSecKeys st)) (\<lambda>db.
     Option.bind (hashRoot enc keccak (stRoot st) (Some db)) (\<lambda>(h, cached, db').
       Some (h, st\<lparr>stRoot := cached, stDb := (case db' of None \<Rightarrow> db | Some d \<Rightarrow> d), stSecKeys := []\<rparr>)))"

definition NewSecure :: "(bytes \<Rightarrow> bytes) \<Rightarrow> nodeReader \<Rightarrow> hash \<Rightarrow> Database \<Rightarrow> (trieError, SecureTrie) res" where
  "NewSecure keccak disk root db =
     (let st = \<lparr>stRoot = NilNode, stDb = db, stSecKeys = []\<rparr>
      in andThen (lift_panic (EmptyRoot keccak)) (\<lambda>empty.
         if root \<noteq> ZeroHash \<and> root \<noteq> empty
         then andThen (resolveHash (trieOf disk st) root []) (\<lambda>n. Ok (st\<lparr>stRoot := n\<rparr>))
         else Ok st))"

end
