(* ===== verification/TrieGC.thy ===== *)
theory TrieGC
  imports TrieDB
begin

section \<open>Reference counts, flushing and commits of the node database\<close>

text \<open>
  The rest of \<^verbatim>\<open>common/trie/database.go\<close>: references from roots, garbage collection, the
  flush-list, and the two ways in which nodes reach the disk, \<^verbatim>\<open>Cap\<close> and \<^verbatim>\<open>Commit\<close>. The disk is a
  map from keys to values; a batch is the list of the writes it holds. Reads and writes of
  the disk do not fail. The recursive methods work on an explicit list of pending tasks, in the
  order in which the recursion meets them. Go does not fix the order in which a map is
  visited: \<open>ord\<close> and \<open>pre\<close> list the keys of a map of children and of the preimages.
  A nil dereference is \<open>None\<close>, as is a loop that does not end. Sizes are whole numbers
  kept in floating point in the code; statistics and log lines are left out.
\<close>

type_synonym childOrder = "(hash \<rightharpoonup> 16 word) \<Rightarrow> hash list"
type_synonym disk = "bytes \<rightharpoonup> bytes"
type_synonym batch = "(bytes \<times> bytes) list"

definition cachedNodeChildrenSize :: int where "cachedNodeChildrenSize = 48"
definition cachedNodeSize :: int where "cachedNodeSize = 96"
definition IdealBatchSize :: nat where "IdealBatchSize = 100 * 1024"

definition secureKeyPrefix :: bytes where
  "secureKeyPrefix = map (of_nat \<circ> of_char) ''secure-key-''"

definition secureKey :: "bytes \<Rightarrow> bytes" where
  "secureKey key = secureKeyPrefix @ key"

definition childs :: "childOrder \<Rightarrow> cachedNode \<Rightarrow> hash list option" where
  "childs ord n =
     map_option (\<lambda>hs. (case cnChildren n of None \<Rightarrow> [] | Some m \<Rightarrow> ord m) @ hs) (gatherChildren (cnNode n))"

subsection \<open>Reading\<close>

definition Node_db :: "(rawnode \<Rightarrow> bytes) \<Rightarrow> disk \<Rightarrow> Database \<Rightarrow> hash \<Rightarrow> bytes option" where
  "Node_db enc disk db h =
     (if h = ZeroHash then None
      else case dbDirties db h of Some e \<Rightarrow> Some (enc (cnNode e)) | None \<Rightarrow> disk h)"

text \<open>The preimages are keys of the secure trie, which are never nil.\<close>

definition preimage :: "disk \<Rightarrow> Database \<Rightarrow> hash \<Rightarrow> bytes option" where
  "preimage disk db h =
     (case dbPreimages db h of Some p \<Rightarrow> Some p | None \<Rightarrow> disk (secureKey h))"

definition Nodes :: "Database \<Rightarrow> hash set" where
  "Nodes db = dom (dbDirties db) - {ZeroHash}"

definition Size :: "Database \<Rightarrow> (int \<times> int) option" where
  "Size db =
     map_option (\<lambda>root.
       (dbDirtiesSize db + dbChildrenSize db + (int (card (dom (dbDirties db))) - 1) * cachedNodeSize
          - int (case cnChildren root of None \<Rightarrow> 0 | Some m \<Rightarrow> card (dom m)) * (int HashLength + 2),
        dbPreimagesSize db)) (dbDirties db ZeroHash)"

subsection \<open>References\<close>

definition reference :: "Database \<Rightarrow> hash \<Rightarrow> hash \<Rightarrow> Database option" where
  "reference db child parent =
     (case dbDirties db child of
        None \<Rightarrow> Some db
      | Some _ \<Rightarrow>
          Option.bind (dbDirties db parent) (\<lambda>p.
            let (kids, grow) = (case cnChildren p of None \<Rightarrow> (Map.empty, cachedNodeChildrenSize) | Some m \<Rightarrow> (m, 0))
            in if cnChildren p \<noteq> None \<and> kids child \<noteq> None \<and> parent \<noteq> ZeroHash then Some db
               else
                 let d1 = (dbDirties db)(parent \<mapsto> p\<lparr>cnChildren := Some kids\<rparr>);
                     d2 = (case d1 child of None \<Rightarrow> d1 | Some c \<Rightarrow> d1(child \<mapsto> c\<lparr>cnParents := cnParents c + 1\<rparr>));
                     n = (case kids child of None \<Rightarrow> 0 | Some k \<Rightarrow> k) + 1;
                     d3 = (case d2 parent of None \<Rightarrow> d2 | Some q \<Rightarrow> d2(parent \<mapsto> q\<lparr>cnChildren := Some (kids(child \<mapsto> n))\<rparr>))
                 in Some (db\<lparr>dbDirties := d3,
                        dbChildrenSize := dbChildrenSize db + grow + (if n = 1 then int HashLength + 2 else 0)\<rparr>)))"

text \<open>Taking a node out of the flush-list; shared by \<^verbatim>\<open>dereference\<close> and \<^verbatim>\<open>cleaner.Put\<close>.\<close>

definition unlink :: "Database \<Rightarrow> hash \<Rightarrow> cachedNode \<Rightarrow> Database option" where
  "unlink db h n =
     (let d = dbDirties db; prv = cnFlushPrev n; nxt = cnFlushNext n
      in if h = dbOldest db then
           Option.bind (d nxt) (\<lambda>x. Some (db\<lparr>dbOldest := nxt, dbDirties := d(nxt \<mapsto> x\<lparr>cnFlushPrev := ZeroHash\<rparr>)\<rparr>))
         else if h = dbNewest db then
           Option.bind (d prv) (\<lambda>x. Some (db\<lparr>dbNewest := prv, dbDirties := d(prv \<mapsto> x\<lparr>cnFlushNext := ZeroHash\<rparr>)\<rparr>))
         else
           Option.bind (d prv) (\<lambda>x.
           let d1 = d(prv \<mapsto> x\<lparr>cnFlushNext := nxt\<rparr>)
           in Option.bind (d1 nxt) (\<lambda>y. Some (db\<lparr>dbDirties := d1(nxt \<mapsto> y\<lparr>cnFlushPrev := prv\<rparr>)\<rparr>))))"

datatype gcTask = Deref hash hash | Drop hash "16 word" bool

definition unref :: "Database \<Rightarrow> hash \<Rightarrow> cachedNode \<Rightarrow> hash \<Rightarrow> Database" where
  "unref db parent p child =
     (case cnChildren p of
        None \<Rightarrow> db
      | Some m \<Rightarrow>
          (case m child of
             None \<Rightarrow> db
           | Some k \<Rightarrow>
               if k = 0 then db
               else if k - 1 = 0 then
                 db\<lparr>dbDirties := (dbDirties db)(parent \<mapsto> p\<lparr>cnChildren := Some (m(child := None))\<rparr>),
                    dbChildrenSize := dbChildrenSize db - (int HashLength + 2)\<rparr>
               else db\<lparr>dbDirties := (dbDirties db)(parent \<mapsto> p\<lparr>cnChildren := Some (m(child \<mapsto> k - 1))\<rparr>)\<rparr>))"

text \<open>
  One task of the collector: \<open>Deref\<close> is a call of \<^verbatim>\<open>dereference\<close> up to its loop over the children,
  which become the next tasks, \<open>Drop\<close> what follows that loop.
\<close>

definition gcStep :: "childOrder \<Rightarrow> gcTask \<Rightarrow> Database \<Rightarrow> (gcTask list \<times> Database) option" where
  "gcStep ord t db =
     (case t of
        Deref child parent \<Rightarrow>
          Option.bind (dbDirties db parent) (\<lambda>p.
          let db1 = unref db parent p child
          in case dbDirties db1 child of
               None \<Rightarrow> Some ([], db1)
             | Some n \<Rightarrow>
                 let n1 = n\<lparr>cnParents := (if cnParents n > 0 then cnParents n - 1 else 0)\<rparr>;
                     db2 = db1\<lparr>dbDirties := (dbDirties db1)(child \<mapsto> n1)\<rparr>
                 in if cnParents n1 = 0 then
                      Option.bind (unlink db2 child n1) (\<lambda>db3.
                      Option.bind (childs ord n1) (\<lambda>hs.
                        Some (map (\<lambda>h. Deref h child) hs @ [Drop child (cnSize n1) (cnChildren n1 \<noteq> None)], db3)))
                    else Some ([], db2))
      | Drop child sz kids \<Rightarrow>
          Some ([], db\<lparr>dbDirties := (dbDirties db)(child := None),
                       dbDirtiesSize := dbDirtiesSize db - (int HashLength + uint sz),
                       dbChildrenSize := dbChildrenSize db - (if kids then cachedNodeChildrenSize else 0)\<rparr>))"

partial_function (option) gcLoop :: "childOrder \<Rightarrow> gcTask list \<Rightarrow> Database \<Rightarrow> Database option" where
  "gcLoop ord ts db =
     (case ts of
        [] \<Rightarrow> Some db
      | t # ts' \<Rightarrow> Option.bind (gcStep ord t db) (\<lambda>(new, db'). gcLoop ord (new @ ts') db'))"

definition Dereference :: "childOrder \<Rightarrow> Database \<Rightarrow> hash \<Rightarrow> Database option" where
  "Dereference ord db root = (if root = ZeroHash then Some db else gcLoop ord [Deref root ZeroHash] db)"

subsection \<open>Writing to disk\<close>

record CommitState =
  cmDb :: Database
  cmDisk :: disk
  cmBatch :: batch

definition ValueSize :: "batch \<Rightarrow> nat" where
  "ValueSize b = sum_list (map (length \<circ> snd) b)"

definition writeBatch :: "disk \<Rightarrow> batch \<Rightarrow> disk" where
  "writeBatch d b = foldl (\<lambda>d (k, v). d(k \<mapsto> v)) d b"

definition cleanerPut :: "Database \<Rightarrow> bytes \<Rightarrow> Database option" where
  "cleanerPut db key =
     Option.bind (Bytes2Hash (Some key)) (\<lambda>h.
       case dbDirties db h of
         None \<Rightarrow> Some db
       | Some n \<Rightarrow>
           Option.bind (unlink db h n) (\<lambda>db1.
             Some (db1\<lparr>dbDirties := (dbDirties db1)(h := None),
               dbDirtiesSize := dbDirtiesSize db1 - (int HashLength + uint (cnSize n))
                 - (case cnChildren n of None \<Rightarrow> 0
                    | Some m \<Rightarrow> cachedNodeChildrenSize + int (card (dom m)) * (int HashLength + 2))\<rparr>)))"

fun Replay :: "Database \<Rightarrow> batch \<Rightarrow> Database option" where
  "Replay db [] = Some db"
| "Replay db ((k, v) # b) = Option.bind (cleanerPut db k) (\<lambda>db'. Replay db' b)"

text \<open>\<open>flushBatch\<close> is the sequence Write, Replay, Reset.\<close>

definition flushBatch :: "CommitState \<Rightarrow> CommitState option" where
  "flushBatch s =
     map_option (\<lambda>db. \<lparr>cmDb = db, cmDisk = writeBatch (cmDisk s) (cmBatch s), cmBatch = []\<rparr>)
       (Replay (cmDb s) (cmBatch s))"

datatype commitTask = Visit hash | Emit hash rawnode

definition commitStep :: "(rawnode \<Rightarrow> bytes) \<Rightarrow> childOrder \<Rightarrow> commitTask \<Rightarrow> CommitState \<Rightarrow>
    (commitTask list \<times> CommitState) option" where
  "commitStep enc ord t s =
     (case t of
        Visit h \<Rightarrow>
          (case dbDirties (cmDb s) h of
             None \<Rightarrow> Some ([], s)
           | Some n \<Rightarrow> map_option (\<lambda>hs. (map Visit hs @ [Emit h (cnNode n)], s)) (childs ord n))
      | Emit h raw \<Rightarrow>
          let s1 = s\<lparr>cmBatch := cmBatch s @ [(h, enc raw)]\<rparr>
          in if ValueSize (cmBatch s1) \<ge> IdealBatchSize then map_option (Pair []) (flushBatch s1)
             else Some ([], s1))"

partial_function (option) commitLoop :: "(rawnode \<Rightarrow> bytes) \<Rightarrow> childOrder \<Rightarrow> commitTask list \<Rightarrow> CommitState \<Rightarrow> CommitState option" where
  "commitLoop enc ord ts s =
     (case ts of
        [] \<Rightarrow> Some s
      | t # ts' \<Rightarrow> Option.bind (commitStep enc ord t s) (\<lambda>(new, s'). commitLoop enc ord (new @ ts') s'))"

text \<open>The preimages are written in batches that are not replayed.\<close>

fun putPreimages :: "(hash \<times> bytes) list \<Rightarrow> disk \<Rightarrow> batch \<Rightarrow> disk \<times> batch" where
  "putPreimages [] disk b = (disk, b)"
| "putPreimages ((h, p) # ps) disk b =
     (let b1 = b @ [(secureKey h, p)]
      in if ValueSize b1 > IdealBatchSize then putPreimages ps (writeBatch disk b1) []
         else putPreimages ps disk b1)"

type_synonym preimageOrder = "(hash \<rightharpoonup> bytes) \<Rightarrow> (hash \<times> bytes) list"

definition Commit_db :: "(rawnode \<Rightarrow> bytes) \<Rightarrow> childOrder \<Rightarrow> preimageOrder \<Rightarrow> Database \<Rightarrow> disk \<Rightarrow> hash \<Rightarrow>
    (Database \<times> disk) option" where
  "Commit_db enc ord pre db disk root =
     (let (disk1, b) = putPreimages (pre (dbPreimages db)) disk []
      in Option.bind (commitLoop enc ord [Visit root] \<lparr>cmDb = db, cmDisk = writeBatch disk1 b, cmBatch = []\<rparr>) (\<lambda>s.
         Option.bind (flushBatch s) (\<lambda>s'.
           Some ((cmDb s')\<lparr>dbPreimages := Map.empty, dbPreimagesSize := 0\<rparr>, cmDisk s'))))"

subsection \<open>Capping the memory\<close>

text \<open>Nodes go to disk in the order of the flush-list until \<open>sz\<close> is below the limit.\<close>

partial_function (option) capLoop :: "(rawnode \<Rightarrow> bytes) \<Rightarrow> (hash \<rightharpoonup> cachedNode) \<Rightarrow> int \<Rightarrow> int \<Rightarrow> hash \<Rightarrow> disk \<Rightarrow> batch \<Rightarrow>
    (hash \<times> disk) option" where
  "capLoop enc d limit sz oldest disk b =
     (if sz > limit \<and> oldest \<noteq> ZeroHash then
        Option.bind (d oldest) (\<lambda>n.
          let b1 = b @ [(oldest, enc (cnNode n))];
              (disk1, b2) = (if ValueSize b1 \<ge> IdealBatchSize then (writeBatch disk b1, []) else (disk, b1));
              sz1 = sz - (int HashLength + uint (cnSize n) + cachedNodeSize)
                - (case cnChildren n of None \<Rightarrow> 0
                   | Some m \<Rightarrow> cachedNodeChildrenSize + int (card (dom m)) * (int HashLength + 2))
          in capLoop enc d limit sz1 (cnFlushNext n) disk1 b2)
      else Some (oldest, writeBatch disk b))"

partial_function (option) dropLoop :: "hash \<Rightarrow> Database \<Rightarrow> Database option" where
  "dropLoop oldest db =
     (if dbOldest db = oldest then Some db
      else Option.bind (dbDirties db (dbOldest db)) (\<lambda>n.
        dropLoop oldest (db\<lparr>dbDirties := (dbDirties db)(dbOldest db := None), dbOldest := cnFlushNext n,
          dbDirtiesSize := dbDirtiesSize db - (int HashLength + uint (cnSize n)),
          dbChildrenSize := dbChildrenSize db - (case cnChildren n of None \<Rightarrow> 0
            | Some m \<Rightarrow> cachedNodeChildrenSize + int (card (dom m)) * (int HashLength + 2))\<rparr>)))"

definition Cap :: "(rawnode \<Rightarrow> bytes) \<Rightarrow> preimageOrder \<Rightarrow> Database \<Rightarrow> disk \<Rightarrow> int \<Rightarrow> (Database \<times> disk) option" where
  "Cap enc pre db disk limit =
     Option.bind (dbDirties db ZeroHash) (\<lambda>root.
     let sz = dbDirtiesSize db + (int (card (dom (dbDirties db))) - 1) * cachedNodeSize + dbChildrenSize db
           - int (case cnChildren root of None \<Rightarrow> 0 | Some m \<Rightarrow> card (dom m)) * (int HashLength + 2);
         flushPreimages = (dbPreimagesSize db > 4 * 1024 * 1024);
         (disk1, b) = (if flushPreimages then putPreimages (pre (dbPreimages db)) disk [] else (disk, []))
     in Option.bind (capLoop enc (dbDirties db) limit sz (dbOldest db) disk1 b) (\<lambda>(oldest, disk2).
          let db1 = (if flushPreimages then db\<lparr>dbPreimages := Map.empty, dbPreimagesSize := 0\<rparr> else db)
          in Option.bind (dropLoop oldest db1) (\<lambda>db2.
               if dbOldest db2 \<noteq> ZeroHash then
                 Option.bind (dbDirties db2 (dbOldest db2)) (\<lambda>n.
                   Some (db2\<lparr>dbDirties := (dbDirties db2)(dbOldest db2 \<mapsto> n\<lparr>cnFlushPrev := ZeroHash\<rparr>)\<rparr>, disk2))
               else Some (db2, disk2))))"

subsection \<open>The integrity check\<close>

text \<open>\<^verbatim>\<open>accumulate\<close> over a list of pending hashes; \<^verbatim>\<open>verifyIntegrity\<close> panics when a cached node is not reached.\<close>

partial_function (option) accumulate :: "childOrder \<Rightarrow> Database \<Rightarrow> hash list \<Rightarrow> hash set \<Rightarrow> hash set option" where
  "accumulate ord db hs reachable =
     (case hs of
        [] \<Rightarrow> Some reachable
      | h # rest \<Rightarrow>
          (case dbDirties db h of
             None \<Rightarrow> accumulate ord db rest reachable
           | Some n \<Rightarrow> Option.bind (childs ord n) (\<lambda>ks. accumulate ord db (ks @ rest) (insert h reachable))))"

definition verifyIntegrity :: "childOrder \<Rightarrow> Database \<Rightarrow> unit option" where
  "verifyIntegrity ord db =
     Option.bind (dbDirties db ZeroHash) (\<lambda>root.
     Option.bind (accumulate ord db (case cnChildren root of None \<Rightarrow> [] | Some m \<Rightarrow> ord m) {ZeroHash}) (\<lambda>reachable.
       if dom (dbDirties db) \<subseteq> reachable then Some () else None))"

end
