(* ===== verification/TrieGCSem.thy ===== *)
theory TrieGCSem
  imports TrieGC "HOL-Library.Countable"
begin

section \<open>What commits of the node database do\<close>

text \<open>
  The flush-list is a doubly linked list through the dirty nodes; taking nodes out keeps it
  linked, so a commit never follows a dangling link. A commit moves nodes from memory to
  disk: whatever is read through the database is the same before and after, and everything
  below the committed root is on disk.
\<close>

subsection \<open>The flush-list\<close>

definition nxt :: "(hash \<rightharpoonup> cachedNode) \<Rightarrow> hash \<Rightarrow> hash option" where
  "nxt d x = map_option cnFlushNext (d x)"

definition prv :: "(hash \<rightharpoonup> cachedNode) \<Rightarrow> hash \<Rightarrow> hash option" where
  "prv d x = map_option cnFlushPrev (d x)"

text \<open>A linked segment whose last node points to \<open>e\<close>; where its first node points back to does not matter.\<close>

fun seg :: "(hash \<rightharpoonup> cachedNode) \<Rightarrow> hash list \<Rightarrow> hash \<Rightarrow> bool" where
  "seg d [] e = True"
| "seg d [x] e = (nxt d x = Some e)"
| "seg d (x # y # zs) e = (nxt d x = Some y \<and> prv d y = Some x \<and> seg d (y # zs) e)"

definition flushOK :: "Database \<Rightarrow> hash list \<Rightarrow> bool" where
  "flushOK db fl \<longleftrightarrow> distinct fl \<and> ZeroHash \<notin> set fl \<and> dom (dbDirties db) = insert ZeroHash (set fl) \<and>
     dbOldest db = (if fl = [] then ZeroHash else hd fl) \<and> (fl \<noteq> [] \<longrightarrow> dbNewest db = last fl) \<and>
     seg (dbDirties db) fl ZeroHash"

lemma seg_cong:
  "\<lbrakk>\<And>z. z \<in> set xs \<Longrightarrow> nxt d' z = nxt d z; \<And>z. z \<in> set (tl xs) \<Longrightarrow> prv d' z = prv d z\<rbrakk> \<Longrightarrow> seg d' xs e = seg d xs e"
  by (induction d xs e rule: seg.induct) auto

lemma seg_append: "seg d (xs @ a # b # ys) e \<longleftrightarrow> seg d (xs @ [a]) b \<and> prv d b = Some a \<and> seg d (b # ys) e"
proof (induction xs)
  case (Cons x xs)
  then show ?case by (cases xs) auto
qed auto

lemma seg_nxt: "seg d (xs @ x # ys) e \<Longrightarrow> nxt d x = Some (case ys of [] \<Rightarrow> e | y # _ \<Rightarrow> y)"
proof (induction xs)
  case Nil
  then show ?case by (cases ys) auto
next
  case (Cons a xs)
  then show ?case by (cases xs) auto
qed

lemma seg_prv: "seg d (xs @ a # x # ys) e \<Longrightarrow> prv d x = Some a"
  by (simp add: seg_append)

lemma flushOK_size [simp]:
  "flushOK (db\<lparr>dbDirtiesSize := x\<rparr>) fl = flushOK db fl" "flushOK (db\<lparr>dbChildrenSize := x\<rparr>) fl = flushOK db fl"
  "flushOK (db\<lparr>dbPreimages := p\<rparr>) fl = flushOK db fl" "flushOK (db\<lparr>dbPreimagesSize := x\<rparr>) fl = flushOK db fl"
  by (simp_all add: flushOK_def)

text \<open>The part of the dirty nodes that does not concern the flush-list.\<close>

definition core :: "Database \<Rightarrow> hash \<rightharpoonup> rawnode \<times> (hash \<rightharpoonup> 16 word) option" where
  "core db h = map_option (\<lambda>n. (cnNode n, cnChildren n)) (dbDirties db h)"

lemma core_size [simp]:
  "core (db\<lparr>dbDirtiesSize := x\<rparr>) = core db" "core (db\<lparr>dbChildrenSize := x\<rparr>) = core db"
  "core (db\<lparr>dbPreimages := p\<rparr>) = core db" "core (db\<lparr>dbPreimagesSize := x\<rparr>) = core db"
  by (simp_all add: core_def fun_eq_iff)

lemma core_None: "core db h = None \<longleftrightarrow> dbDirties db h = None"
  by (simp add: core_def)

abbreviation dropNode :: "Database \<Rightarrow> hash \<Rightarrow> Database" where
  "dropNode db x \<equiv> db\<lparr>dbDirties := (dbDirties db)(x := None)\<rparr>"

lemma unlink_core: "unlink db x n = Some db1 \<Longrightarrow> core db1 = core db"
  by (auto simp: unlink_def core_def fun_eq_iff Let_def split: if_splits bind_splits)

lemma in_set_tl: "z \<in> set (tl xs) \<Longrightarrow> z \<in> set xs"
  by (cases xs) auto

lemma seg_retarget:
  assumes "seg d (zs @ [a]) x" "distinct (zs @ [a])" "\<And>z. z \<in> set zs \<Longrightarrow> d' z = d z"
    "nxt d' a = Some e" "prv d' a = prv d a"
  shows "seg d' (zs @ [a]) e"
proof (cases zs rule: rev_cases)
  case Nil
  then show ?thesis using assms(4) by simp
next
  case (snoc ws c)
  have "seg d (ws @ [c]) a" "prv d a = Some c" using assms(1) snoc by (simp_all add: seg_append)
  moreover have "seg d' (ws @ [c]) a = seg d (ws @ [c]) a"
    by (rule seg_cong) (use assms(2,3) snoc in \<open>auto simp: nxt_def prv_def dest: in_set_tl\<close>)
  ultimately show ?thesis using assms(4,5) snoc by (simp add: seg_append)
qed

lemma flushOK_ex: "\<lbrakk>flushOK db fl; z = ZeroHash \<or> z \<in> set fl\<rbrakk> \<Longrightarrow> \<exists>m. dbDirties db z = Some m"
  by (auto simp: flushOK_def dest: domD)

lemma unlink_oldest:
  assumes ok: "flushOK db (x # ys)" and n: "dbDirties db x = Some n"
  shows "\<exists>db1. unlink db x n = Some db1 \<and> flushOK (dropNode db1 x) ys"
proof -
  let ?d = "dbDirties db" and ?y = "case ys of [] \<Rightarrow> ZeroHash | y # _ \<Rightarrow> y"
  have nx: "cnFlushNext n = ?y" using seg_nxt [of ?d "[]" x ys] ok n by (simp add: nxt_def flushOK_def)
  have "?y = ZeroHash \<or> ?y \<in> set (x # ys)" by (simp split: list.splits)
  then obtain m where m: "?d ?y = Some m" using flushOK_ex [OF ok] by blast
  let ?d1 = "?d(?y \<mapsto> m\<lparr>cnFlushPrev := ZeroHash\<rparr>, x := None)"
  have f: "distinct (x # ys)" "ZeroHash \<notin> set (x # ys)" using ok by (simp_all add: flushOK_def)
  have "seg ?d1 ys ZeroHash \<longleftrightarrow> seg ?d ys ZeroHash"
    by (rule seg_cong) (use f m in \<open>cases ys; auto simp: nxt_def prv_def\<close>)+
  moreover have "seg ?d ys ZeroHash" using ok by (cases ys) (auto simp: flushOK_def)
  moreover have "dom ?d1 = insert ZeroHash (set ys)"
    using ok f by (cases ys) (auto simp: flushOK_def)
  moreover have "unlink db x n = Some (db\<lparr>dbOldest := ?y, dbDirties := ?d(?y \<mapsto> m\<lparr>cnFlushPrev := ZeroHash\<rparr>)\<rparr>)"
    using ok nx m by (simp add: unlink_def flushOK_def Let_def)
  ultimately show ?thesis using ok f
    by (cases ys) (auto simp: flushOK_def)
qed

lemma unlink_newest:
  assumes ok: "flushOK db (zs @ [a, x])" and n: "dbDirties db x = Some n"
  shows "\<exists>db1. unlink db x n = Some db1 \<and> flushOK (dropNode db1 x) (zs @ [a])"
proof -
  let ?d = "dbDirties db"
  have "dbOldest db = hd (zs @ [a])" using ok by (simp add: flushOK_def hd_append)
  then have "dbOldest db \<in> set (zs @ [a])" by (metis hd_in_set snoc_eq_iff_butlast)
  then have f: "distinct (zs @ [a, x])" "ZeroHash \<notin> set (zs @ [a, x])" "dbNewest db = x" "dbOldest db \<noteq> x"
      "seg ?d (zs @ [a, x]) ZeroHash"
    using ok by (auto simp: flushOK_def)
  have px: "cnFlushPrev n = a" using seg_prv [of ?d zs a x "[]"] f(5) n by (simp add: prv_def)
  obtain m where m: "?d a = Some m" using flushOK_ex [OF ok, of a] by auto
  have sx: "seg ?d (zs @ [a]) x" using f(5) by (simp add: seg_append)
  let ?d1 = "?d(a \<mapsto> m\<lparr>cnFlushNext := ZeroHash\<rparr>, x := None)"
  have "seg ?d1 (zs @ [a]) ZeroHash"
    by (rule seg_retarget [OF sx]) (use f(1) m in \<open>auto simp: nxt_def prv_def\<close>)
  moreover have "dom ?d1 = insert ZeroHash (set (zs @ [a]))" using ok f m by (auto simp: flushOK_def)
  moreover have "unlink db x n = Some (db\<lparr>dbNewest := a, dbDirties := ?d(a \<mapsto> m\<lparr>cnFlushNext := ZeroHash\<rparr>)\<rparr>)"
    using f(3,4) px m by (simp add: unlink_def)
  ultimately show ?thesis using ok f by (auto simp: flushOK_def hd_append)
qed

lemma unlink_inner:
  assumes ok: "flushOK db (zs @ a # x # b # bs)" and n: "dbDirties db x = Some n"
  shows "\<exists>db1. unlink db x n = Some db1 \<and> flushOK (dropNode db1 x) (zs @ a # b # bs)"
proof -
  let ?d = "dbDirties db"
  have f: "distinct (zs @ a # x # b # bs)" "ZeroHash \<notin> set (zs @ a # x # b # bs)" "seg ?d (zs @ a # x # b # bs) ZeroHash"
    using ok by (simp_all add: flushOK_def)
  have "dbOldest db = hd (zs @ [a])" "dbNewest db = last (b # bs)" using ok by (simp_all add: flushOK_def hd_append)
  then have "dbOldest db \<in> set (zs @ [a])" "dbNewest db \<in> set (b # bs)"
    by (metis hd_in_set snoc_eq_iff_butlast, metis last_in_set list.discI)
  then have e: "dbNewest db \<noteq> x" "dbOldest db \<noteq> x" using f(1) by auto
  have px: "cnFlushPrev n = a" "cnFlushNext n = b"
    using seg_prv [of ?d zs a x "b # bs"] seg_nxt [of ?d "zs @ [a]" x "b # bs"] f(3) n by (simp_all add: prv_def nxt_def)
  obtain m y where m: "?d a = Some m" "?d b = Some y" using flushOK_ex [OF ok, of a] flushOK_ex [OF ok, of b] by auto
  let ?d1 = "?d(a \<mapsto> m\<lparr>cnFlushNext := b\<rparr>, b \<mapsto> y\<lparr>cnFlushPrev := a\<rparr>, x := None)"
  have s: "seg ?d (zs @ [a]) x" "seg ?d (b # bs) ZeroHash" using f(3) by (simp_all add: seg_append)
  have "seg ?d1 (zs @ [a]) b" by (rule seg_retarget [OF s(1)]) (use f(1) m in \<open>auto simp: nxt_def prv_def\<close>)
  moreover have "seg ?d1 (b # bs) ZeroHash \<longleftrightarrow> seg ?d (b # bs) ZeroHash"
    by (rule seg_cong) (use f(1) m in \<open>auto simp: nxt_def prv_def\<close>)
  moreover have "prv ?d1 b = Some a" using f(1) by (auto simp: prv_def)
  ultimately have "seg ?d1 (zs @ a # b # bs) ZeroHash" using s(2) by (simp add: seg_append)
  moreover have "dom ?d1 = insert ZeroHash (set (zs @ a # b # bs))" using ok f m by (auto simp: flushOK_def)
  moreover have "unlink db x n = Some (db\<lparr>dbDirties := ?d(a \<mapsto> m\<lparr>cnFlushNext := b\<rparr>, b \<mapsto> y\<lparr>cnFlushPrev := a\<rparr>)\<rparr>)"
    using e px m f(1) by (auto simp: unlink_def Let_def)
  ultimately show ?thesis using ok f by (auto simp: flushOK_def hd_append)
qed

lemma unlink_ok:
  assumes "flushOK db (xs @ x # ys)" "dbDirties db x = Some n"
  shows "\<exists>db1. unlink db x n = Some db1 \<and> flushOK (dropNode db1 x) (xs @ ys)"
proof (cases xs rule: rev_cases)
  case Nil
  then show ?thesis using assms unlink_oldest by simp
next
  case (snoc zs a)
  then show ?thesis using assms unlink_newest unlink_inner by (cases ys) simp_all
qed

subsection \<open>Uncaching\<close>

lemma Bytes2Hash_id: "length h = HashLength \<Longrightarrow> Bytes2Hash (Some h) = Some h"
  by (simp add: Bytes2Hash_def)

lemma cleanerPut_ok:
  assumes ok: "flushOK db fl" and k: "length k = HashLength" "k \<noteq> ZeroHash"
  shows "\<exists>db'. cleanerPut db k = Some db' \<and> flushOK db' (remove1 k fl) \<and> core db' = (core db)(k := None)"
proof (cases "dbDirties db k")
  case None
  then have "k \<notin> set fl" using ok by (auto simp: flushOK_def)
  moreover have "(core db)(k := None) = core db" using None by (simp add: fun_upd_idem core_None)
  ultimately show ?thesis using None ok Bytes2Hash_id [OF k(1)] by (simp add: cleanerPut_def remove1_idem)
next
  case (Some n)
  then have "k \<in> set fl" using ok k(2) by (auto simp: flushOK_def)
  then obtain xs ys where fl: "fl = xs @ k # ys" by (meson split_list)
  then have r: "remove1 k fl = xs @ ys" using ok by (auto simp: flushOK_def remove1_append)
  obtain db1 where db1: "unlink db k n = Some db1" "flushOK (dropNode db1 k) (xs @ ys)"
    using unlink_ok ok Some unfolding fl by blast
  let ?db = "dropNode db1 k"
  have "core ?db = (core db)(k := None)"
    using unlink_core [OF db1(1)] by (auto simp: core_def fun_eq_iff)
  then show ?thesis using db1 r Some Bytes2Hash_id [OF k(1)] by (simp add: cleanerPut_def)
qed

lemma Replay_ok:
  "\<lbrakk>flushOK db fl; \<And>k v. (k, v) \<in> set b \<Longrightarrow> length k = HashLength \<and> k \<noteq> ZeroHash\<rbrakk> \<Longrightarrow>
     \<exists>db' fl'. Replay db b = Some db' \<and> flushOK db' fl' \<and> core db' = (core db) |` (- fst ` set b)"
proof (induction b arbitrary: db fl)
  case Nil
  then show ?case by auto
next
  case (Cons p b)
  obtain k v where p: "p = (k, v)" by force
  have k: "length k = HashLength" "k \<noteq> ZeroHash" using Cons.prems(2) [of k v] p by auto
  obtain db1 where 1: "cleanerPut db k = Some db1" "flushOK db1 (remove1 k fl)" "core db1 = (core db)(k := None)"
    using cleanerPut_ok [OF Cons.prems(1) k] by blast
  obtain db' fl' where 2: "Replay db1 b = Some db'" "flushOK db' fl'" "core db' = (core db1) |` (- fst ` set b)"
    using Cons.IH [OF 1(2)] Cons.prems(2) by (meson list.set_intros(2))
  have "core db' = (core db) |` (- fst ` set (p # b))" using 1(3) 2(3) p by (auto simp: restrict_map_def fun_eq_iff)
  then show ?case using 1(1) 2 p by (intro exI [of _ db'] exI [of _ fl']) simp
qed

lemma writeBatch_map_of: "writeBatch d b = d ++ map_of (rev b)"
  by (induction b arbitrary: d) (auto simp: writeBatch_def map_add_assoc [symmetric])

lemma writeBatch_same:
  assumes "\<And>v. (k, v) \<in> set b \<Longrightarrow> v = w" "k \<in> fst ` set b"
  shows "writeBatch d b k = Some w"
proof -
  obtain v where "map_of (rev b) k = Some v" using assms(2) by (metis map_of_eq_None_iff not_None_eq set_rev)
  then show ?thesis using assms(1) map_of_SomeD [of "rev b" k v] by (simp add: writeBatch_map_of)
qed

lemma writeBatch_other: "k \<notin> fst ` set b \<Longrightarrow> writeBatch d b k = d k"
  by (simp add: writeBatch_map_of map_add_dom_app_simps(3) dom_map_of_conv_image_fst)

subsection \<open>The invariant of a commit\<close>

text \<open>
  \<open>db0\<close> and \<open>disk0\<close> are the database and the disk at the start. Every node that has left memory
  is on disk, and \<open>written\<close> nodes, those on disk or in the batch, have only written children.
\<close>

definition kidsOf :: "childOrder \<Rightarrow> Database \<Rightarrow> hash \<Rightarrow> hash list" where
  "kidsOf ord db h = (case dbDirties db h of None \<Rightarrow> [] | Some n \<Rightarrow> (case childs ord n of None \<Rightarrow> [] | Some hs \<Rightarrow> hs))"

definition kidRel :: "childOrder \<Rightarrow> Database \<Rightarrow> (hash \<times> hash) set" where
  "kidRel ord db = {(c, h). c \<in> set (kidsOf ord db h) \<and> dbDirties db c \<noteq> None}"

definition dbOK :: "childOrder \<Rightarrow> Database \<Rightarrow> bool" where
  "dbOK ord db \<longleftrightarrow> (\<exists>fl. flushOK db fl) \<and> wf (kidRel ord db) \<and>
     (\<forall>h n. dbDirties db h = Some n \<longrightarrow> length h = HashLength \<and> (\<exists>hs. childs ord n = Some hs \<and> ZeroHash \<notin> set hs))"

definition written :: "Database \<Rightarrow> CommitState \<Rightarrow> hash set" where
  "written db0 s = {h. core db0 h \<noteq> None \<and> (core (cmDb s) h = None \<or> h \<in> fst ` set (cmBatch s))}"

definition commitInv :: "(rawnode \<Rightarrow> bytes) \<Rightarrow> childOrder \<Rightarrow> Database \<Rightarrow> disk \<Rightarrow> CommitState \<Rightarrow> bool" where
  "commitInv enc ord db0 disk0 s \<longleftrightarrow> (\<exists>fl. flushOK (cmDb s) fl) \<and> core (cmDb s) \<subseteq>\<^sub>m core db0 \<and>
     (\<forall>k v. (k, v) \<in> set (cmBatch s) \<longrightarrow> k \<noteq> ZeroHash \<and> (\<exists>n c. core db0 k = Some (n, c) \<and> v = enc n)) \<and>
     (\<forall>h. core db0 h = None \<longrightarrow> cmDisk s h = disk0 h) \<and>
     (\<forall>h n c. core db0 h = Some (n, c) \<longrightarrow> core (cmDb s) h = None \<longrightarrow> cmDisk s h = Some (enc n)) \<and>
     (\<forall>h\<in>written db0 s. \<forall>c\<in>set (kidsOf ord db0 h). core db0 c \<noteq> None \<longrightarrow> c \<in> written db0 s)"

lemma dbOK_length: "\<lbrakk>dbOK ord db; core db h \<noteq> None\<rbrakk> \<Longrightarrow> length h = HashLength"
  by (auto simp: dbOK_def core_None)

lemma flush_inv:
  assumes ok: "dbOK ord db0" and inv: "commitInv enc ord db0 disk0 s"
  shows "\<exists>s'. flushBatch s = Some s' \<and> commitInv enc ord db0 disk0 s' \<and> written db0 s' = written db0 s \<and> cmBatch s' = []"
proof -
  let ?ks = "fst ` set (cmBatch s)"
  have b: "k \<noteq> ZeroHash \<and> (\<exists>n c. core db0 k = Some (n, c) \<and> v = enc n)" if "(k, v) \<in> set (cmBatch s)" for k v
    using inv that by (auto simp: commitInv_def)
  have keys: "length k = HashLength \<and> k \<noteq> ZeroHash" if "(k, v) \<in> set (cmBatch s)" for k v
    using b [OF that] dbOK_length [OF ok, of k] by auto
  obtain fl where "flushOK (cmDb s) fl" using inv by (auto simp: commitInv_def)
  from Replay_ok [OF this, of "cmBatch s"] keys
  obtain db' fl' where r: "Replay (cmDb s) (cmBatch s) = Some db'" "flushOK db' fl'" "core db' = (core (cmDb s)) |` (- ?ks)"
    by blast
  let ?s = "\<lparr>cmDb = db', cmDisk = writeBatch (cmDisk s) (cmBatch s), cmBatch = []\<rparr>"
  have w: "written db0 ?s = written db0 s" using r(3) by (auto simp: written_def restrict_map_def)
  have "cmDisk ?s h = disk0 h" if "core db0 h = None" for h
  proof -
    have "h \<notin> ?ks" using b that by force
    then show ?thesis using inv that by (simp add: writeBatch_other commitInv_def)
  qed
  moreover have "cmDisk ?s h = Some (enc n)" if h: "core db0 h = Some (n, c)" "core db' h = None" for h n c
  proof (cases "h \<in> ?ks")
    case True
    then show ?thesis using writeBatch_same [of h "cmBatch s" "enc n"] b h(1) by fastforce
  next
    case False
    then have "core (cmDb s) h = None" using h(2) r(3) by (simp add: restrict_map_def)
    then have "cmDisk s h = Some (enc n)" using inv h(1) unfolding commitInv_def by blast
    then show ?thesis using False by (simp add: writeBatch_other)
  qed
  moreover have "core db' \<subseteq>\<^sub>m core db0"
  proof (rule map_le_trans)
    show "core db' \<subseteq>\<^sub>m core (cmDb s)" using r(3) by (simp add: map_le_def)
    show "core (cmDb s) \<subseteq>\<^sub>m core db0" using inv by (simp add: commitInv_def)
  qed
  ultimately have "commitInv enc ord db0 disk0 ?s" using r(2) inv w unfolding commitInv_def by auto
  then show ?thesis using r(1) w by (simp add: flushBatch_def)
qed

lemma emit_inv:
  assumes ok: "dbOK ord db0" and inv: "commitInv enc ord db0 disk0 s"
    and h: "h \<noteq> ZeroHash" "core db0 h = Some (n, c)" "\<forall>k\<in>set (kidsOf ord db0 h). core db0 k \<noteq> None \<longrightarrow> k \<in> written db0 s"
  shows "\<exists>s'. (\<forall>ts. commitLoop enc ord (Emit h n # ts) s = commitLoop enc ord ts s') \<and> commitInv enc ord db0 disk0 s' \<and>
    written db0 s' = insert h (written db0 s)"
proof -
  let ?s = "s\<lparr>cmBatch := cmBatch s @ [(h, enc n)]\<rparr>"
  have w: "written db0 ?s = insert h (written db0 s)" using h(2) by (auto simp: written_def)
  have "\<forall>g\<in>insert h (written db0 s). \<forall>k\<in>set (kidsOf ord db0 g). core db0 k \<noteq> None \<longrightarrow> k \<in> insert h (written db0 s)"
    using inv h(3) unfolding commitInv_def by blast
  moreover have "\<forall>k v. (k, v) \<in> set (cmBatch ?s) \<longrightarrow> k \<noteq> ZeroHash \<and> (\<exists>n c. core db0 k = Some (n, c) \<and> v = enc n)"
    using inv h(1,2) unfolding commitInv_def by simp
  ultimately have i: "commitInv enc ord db0 disk0 ?s"
    using inv unfolding commitInv_def w by simp
  show ?thesis
  proof (cases "ValueSize (cmBatch ?s) \<ge> IdealBatchSize")
    case True
    obtain s' where s': "flushBatch ?s = Some s'" "commitInv enc ord db0 disk0 s'" "written db0 s' = written db0 ?s"
      using flush_inv [OF ok i] by blast
    then show ?thesis using True w
      by (intro exI [of _ s']) (simp add: commitLoop.simps [of _ _ "_ # _"] commitStep_def Let_def)
  next
    case False
    then show ?thesis using i w
      by (intro exI [of _ ?s]) (simp add: commitLoop.simps [of _ _ "_ # _"] commitStep_def Let_def)
  qed
qed

lemma kidsOf_core: "\<lbrakk>dbDirties db h = Some n; core db0 h = core db h\<rbrakk> \<Longrightarrow>
    childs ord n = (case dbDirties db0 h of None \<Rightarrow> None | Some m \<Rightarrow> childs ord m)"
  by (auto simp: core_def childs_def split: option.splits)

lemma visit_inv:
  assumes ok: "dbOK ord db0" and w: "wf (kidRel ord db0)"
    and "commitInv enc ord db0 disk0 s" "h \<noteq> ZeroHash"
  shows "\<exists>s'. (\<forall>ts. commitLoop enc ord (Visit h # ts) s = commitLoop enc ord ts s') \<and> commitInv enc ord db0 disk0 s' \<and>
      written db0 s \<subseteq> written db0 s' \<and> (core db0 h \<noteq> None \<longrightarrow> h \<in> written db0 s')"
  using w assms(3,4)
proof (induction h arbitrary: s rule: wf_induct_rule)
  case (less h)
  note 2 = less
  show ?case
  proof (cases "dbDirties (cmDb s) h")
    case None
    then show ?thesis using 2(2)
      by (intro exI [of _ s]) (auto simp: commitLoop.simps [of _ _ "_ # _"] commitStep_def written_def core_None)
  next
    case (Some n)
    have "core (cmDb s) \<subseteq>\<^sub>m core db0" "h \<in> dom (core (cmDb s))" using 2(2) Some by (auto simp: commitInv_def core_def)
    then have c0: "core db0 h = core (cmDb s) h" by (simp add: map_le_def)
    then obtain m where m: "dbDirties db0 h = Some m" using Some by (auto simp: core_def)
    obtain hs where hs: "childs ord m = Some hs" "ZeroHash \<notin> set hs" using ok m by (auto simp: dbOK_def)
    have k: "kidsOf ord db0 h = hs" "childs ord n = Some hs" using m hs kidsOf_core [OF Some c0] by (simp_all add: kidsOf_def)
    have kids: "\<lbrakk>set ks \<subseteq> set hs; commitInv enc ord db0 disk0 s1\<rbrakk> \<Longrightarrow>
        \<exists>s2. (\<forall>ts. commitLoop enc ord (map Visit ks @ ts) s1 = commitLoop enc ord ts s2) \<and> commitInv enc ord db0 disk0 s2 \<and>
          written db0 s1 \<subseteq> written db0 s2 \<and> (\<forall>k\<in>set ks. core db0 k \<noteq> None \<longrightarrow> k \<in> written db0 s2)" for ks s1
    proof (induction ks arbitrary: s1)
      case Nil
      then show ?case by (intro exI [of _ s1]) simp
    next
      case (Cons k ks)
      have kz: "k \<noteq> ZeroHash" "k \<in> set (kidsOf ord db0 h)" using Cons.prems(1) hs(2) k(1) by auto
      have "\<exists>s2. (\<forall>ts. commitLoop enc ord (Visit k # ts) s1 = commitLoop enc ord ts s2) \<and> commitInv enc ord db0 disk0 s2 \<and>
          written db0 s1 \<subseteq> written db0 s2 \<and> (core db0 k \<noteq> None \<longrightarrow> k \<in> written db0 s2)"
      proof (cases "dbDirties db0 k")
        case None
        then have n: "core db0 k = None" by (simp add: core_None)
        moreover have "core (cmDb s1) \<subseteq>\<^sub>m core db0" using Cons.prems(2) by (simp add: commitInv_def)
        ultimately have "core (cmDb s1) k = None" by (metis domIff map_le_def)
        then have "dbDirties (cmDb s1) k = None" by (simp add: core_None)
        then show ?thesis using Cons.prems(2) n
          by (intro exI [of _ s1]) (auto simp: commitLoop.simps [of _ _ "_ # _"] commitStep_def)
      next
        case (Some x)
        then have "(k, h) \<in> kidRel ord db0" using kz(2) by (simp add: kidRel_def)
        then show ?thesis using 2(1) [OF _ Cons.prems(2) kz(1)] by blast
      qed
      then obtain s2 where s2: "\<And>ts. commitLoop enc ord (Visit k # ts) s1 = commitLoop enc ord ts s2" "commitInv enc ord db0 disk0 s2"
          "written db0 s1 \<subseteq> written db0 s2" "core db0 k \<noteq> None \<longrightarrow> k \<in> written db0 s2" by blast
      obtain s3 where s3: "\<And>ts. commitLoop enc ord (map Visit ks @ ts) s2 = commitLoop enc ord ts s3" "commitInv enc ord db0 disk0 s3"
          "written db0 s2 \<subseteq> written db0 s3" "\<forall>k\<in>set ks. core db0 k \<noteq> None \<longrightarrow> k \<in> written db0 s3"
        using Cons.IH [OF _ s2(2)] Cons.prems(1) by auto
      show ?case using s2 s3 by (intro exI [of _ s3]) auto
    qed
    obtain s2 where s2: "\<And>ts. commitLoop enc ord (map Visit hs @ ts) s = commitLoop enc ord ts s2" "commitInv enc ord db0 disk0 s2"
        "written db0 s \<subseteq> written db0 s2" "\<forall>k\<in>set hs. core db0 k \<noteq> None \<longrightarrow> k \<in> written db0 s2"
      using kids [OF order_refl 2(2)] by blast
    have cn: "core db0 h = Some (cnNode n, cnChildren n)" using c0 Some by (simp add: core_def)
    obtain s3 where s3: "\<And>ts. commitLoop enc ord (Emit h (cnNode n) # ts) s2 = commitLoop enc ord ts s3"
        "commitInv enc ord db0 disk0 s3" "written db0 s3 = insert h (written db0 s2)"
      using emit_inv [OF ok s2(2) 2(3) cn] s2(4) k(1) by auto
    have "commitLoop enc ord (Visit h # ts) s = commitLoop enc ord ts s3" for ts
      using s2(1) s3(1) Some k(2) by (simp add: commitLoop.simps [of _ _ "Visit h # _"] commitStep_def)
    then show ?thesis using s3 s2(3) by (intro exI [of _ s3]) auto
  qed
qed

subsection \<open>Commits\<close>

text \<open>What is read from disk: \<open>dec\<close> is the decoding of a stored node.\<close>

definition readDisk :: "(hash \<Rightarrow> bytes \<Rightarrow> tnode option) \<Rightarrow> disk \<Rightarrow> nodeReader" where
  "readDisk dec disk h =
     (case disk h of None \<Rightarrow> Ok None | Some b \<Rightarrow> andThen (lift_panic (dec h b)) (\<lambda>n. Ok (Some n)))"

definition decOK :: "(rawnode \<Rightarrow> bytes) \<Rightarrow> (hash \<Rightarrow> bytes \<Rightarrow> tnode option) \<Rightarrow> bool" where
  "decOK enc dec \<longleftrightarrow> (\<forall>h raw. dec h (enc raw) = expandNode (Some h) raw)"

lemma commitInv_reads:
  assumes "commitInv enc ord db0 disk0 s" "decOK enc dec"
  shows "node_db (readDisk dec (cmDisk s)) (cmDb s) h = node_db (readDisk dec disk0) db0 h"
proof (cases "core db0 h")
  case None
  have "core (cmDb s) \<subseteq>\<^sub>m core db0" using assms(1) by (simp add: commitInv_def)
  then have "core (cmDb s) h = None" using None by (metis domIff map_le_def)
  moreover have "cmDisk s h = disk0 h" using assms(1) None by (simp add: commitInv_def)
  ultimately show ?thesis using None by (simp add: node_db_def core_None readDisk_def)
next
  case (Some p)
  obtain n c where p: "p = (n, c)" by force
  show ?thesis
  proof (cases "core (cmDb s) h")
    case None
    then have "cmDisk s h = Some (enc n)" using assms(1) Some p unfolding commitInv_def by blast
    then show ?thesis using None Some p assms(2) by (auto simp: node_db_def core_def readDisk_def decOK_def)
  next
    case s: (Some q)
    have "core (cmDb s) \<subseteq>\<^sub>m core db0" using assms(1) by (simp add: commitInv_def)
    moreover have "h \<in> dom (core (cmDb s))" using s by auto
    ultimately have "core (cmDb s) h = core db0 h" by (simp add: map_le_def)
    then show ?thesis using Some p by (auto simp: node_db_def core_def)
  qed
qed

lemma length_secureKey: "length (secureKey h) = length h + 11"
  by (simp add: secureKey_def secureKeyPrefix_def)

lemma putPreimages_keys:
  "(\<And>k. k \<in> fst ` set b \<Longrightarrow> length k \<noteq> length h) \<Longrightarrow> (\<And>g p. (g, p) \<in> set ps \<Longrightarrow> length g + 11 \<noteq> length h) \<Longrightarrow>
   putPreimages ps disk b = (disk', b') \<Longrightarrow> disk' h = disk h \<and> (\<forall>k\<in>fst ` set b'. length k \<noteq> length h)"
proof (induction ps disk b rule: putPreimages.induct)
  case (1 disk b)
  then show ?case by auto
next
  case (2 g p ps disk b)
  let ?b = "b @ [(secureKey g, p)]"
  have l: "length k \<noteq> length h" if "k \<in> fst ` set ?b" for k
    using that 2(3) 2(4) [of g p] by (auto simp: length_secureKey)
  have p: "length g' + 11 \<noteq> length h" if "(g', p') \<in> set ps" for g' p' using 2(4) [of g' p'] that by simp
  show ?case
  proof (cases "ValueSize ?b > IdealBatchSize")
    case True
    have "h \<notin> fst ` set ?b" using l by blast
    then have "writeBatch disk ?b h = disk h" by (rule writeBatch_other)
    then show ?thesis using 2(1) [OF refl True _ p] 2(5) True by simp
  next
    case False
    then show ?thesis using 2(2) [OF refl False l p] 2(5) by simp
  qed
qed

lemma putPreimages_disk:
  assumes "putPreimages ps disk [] = (disk1, b)" "\<And>g p. (g, p) \<in> set ps \<Longrightarrow> length g = HashLength" "length h = HashLength"
  shows "writeBatch disk1 b h = disk h"
proof -
  have "length g + 11 \<noteq> length h" if "(g, p) \<in> set ps" for g p using assms(2) [OF that] assms(3) by simp
  from putPreimages_keys [OF _ this assms(1)]
  have "disk1 h = disk h" "\<forall>k\<in>fst ` set b. length k \<noteq> length h" by auto
  then show ?thesis using writeBatch_other [of h b disk1] by auto
qed


subsection \<open>A sample database\<close>

text \<open>Two nodes, the first of which points to the second, and a codec that numbers raw nodes.\<close>

instance word :: (len) countable
  by (rule countable_classI [of unat]) (simp add: word_unat_eq_iff)

instance rawnode :: countable
  by countable_datatype

definition sampleRlp :: "rawnode \<Rightarrow> bytes" where
  "sampleRlp raw = replicate (to_nat raw) 0"

definition sampleDec :: "hash \<Rightarrow> bytes \<Rightarrow> tnode option" where
  "sampleDec h b = expandNode (Some h) (from_nat (length b))"

definition sampleRoot :: hash where "sampleRoot = replicate 32 1"
definition sampleLeaf :: hash where "sampleLeaf = replicate 32 2"

definition sampleCached :: "rawnode \<Rightarrow> hash \<Rightarrow> hash \<Rightarrow> cachedNode" where
  "sampleCached raw p n = \<lparr>cnNode = raw, cnSize = 40, cnParents = 0, cnChildren = None, cnFlushPrev = p, cnFlushNext = n\<rparr>"

definition sampleDb :: Database where
  "sampleDb = NewDatabase\<lparr>dbDirties := (dbDirties NewDatabase)
      (sampleLeaf \<mapsto> sampleCached (RawShort [32] (RawValue [5])) ZeroHash sampleRoot,
       sampleRoot \<mapsto> sampleCached (RawShort [17] (RawHash sampleLeaf)) sampleLeaf ZeroHash),
     dbOldest := sampleLeaf, dbNewest := sampleRoot\<rparr>"

lemma sampleHashes [simp]: "sampleRoot \<noteq> sampleLeaf" "sampleLeaf \<noteq> sampleRoot" "sampleRoot \<noteq> ZeroHash" "sampleLeaf \<noteq> ZeroHash"
    "ZeroHash \<noteq> sampleRoot" "ZeroHash \<noteq> sampleLeaf" "length sampleRoot = HashLength" "length sampleLeaf = HashLength"
  by (simp_all add: sampleRoot_def sampleLeaf_def ZeroHash_def HashLength_def)

lemma sampleDirties: "dbDirties sampleDb h =
    (if h = sampleRoot then Some (sampleCached (RawShort [17] (RawHash sampleLeaf)) sampleLeaf ZeroHash)
     else if h = sampleLeaf then Some (sampleCached (RawShort [32] (RawValue [5])) ZeroHash sampleRoot)
     else dbDirties NewDatabase h)"
  by (simp add: sampleDb_def)

lemma sampleKids: "kidsOf (\<lambda>_. []) sampleDb h = (if h = sampleRoot then [sampleLeaf] else [])"
  by (simp add: kidsOf_def sampleDirties sampleCached_def childs_def Bytes2Hash_id NewDatabase_def split: option.split)

lemma sampleDbOK: "dbOK (\<lambda>_. []) sampleDb"
proof -
  have "flushOK sampleDb [sampleLeaf, sampleRoot]"
    by (auto simp: flushOK_def sampleDirties nxt_def prv_def sampleCached_def NewDatabase_def sampleDb_def)
  moreover have "wf (kidRel (\<lambda>_. []) sampleDb)"
    by (rule wf_subset [of "measure (\<lambda>h. if h = sampleRoot then 1 else 0)"]) (auto simp: kidRel_def sampleKids split: if_splits)
  moreover have "length ZeroHash = HashLength" by (simp add: ZeroHash_def)
  ultimately show ?thesis
    by (auto simp: dbOK_def sampleDirties sampleCached_def childs_def Bytes2Hash_id NewDatabase_def split: if_splits)
qed

lemma sampleDecOK: "decOK sampleRlp sampleDec"
  by (simp add: decOK_def sampleRlp_def sampleDec_def)


end
