(* ===== verification/BlockTree.thy ===== *)
theory BlockTree
  imports ChainTypes "HOL-Library.Sublist"
begin

section \<open>Block nodes, chain view and block index\<close>

text \<open>
  \<^verbatim>\<open>types/blocknode.go\<close>, \<^verbatim>\<open>chain/chainview.go\<close> and \<^verbatim>\<open>chain/blockIndex.go\<close>. Block nodes
  live behind pointers: \<open>nodes\<close> says what each pointer holds and equality of nodes is
  equality of pointers, as in the code. The loops that follow \<^verbatim>\<open>Parent\<close> are partial
  functions: \<open>None\<close> is "does not return" (a panic or an endless loop), and the lemmas
  show that they return on nodes whose ancestors form a branch.
\<close>

subsection \<open>Block nodes\<close>

definition InitBlockNode :: "(BlockHeader \<Rightarrow> hash) \<Rightarrow> nodes \<Rightarrow> BlockHeader \<Rightarrow> ptr option \<Rightarrow> BlockNode" where
  "InitBlockNode hdrHash ns hdr parent =
     (let node = \<lparr>Parent = None, Hash = hdrHash hdr, StateRoot = hStateRoot hdr,
            TimeStamp = hTimestamp hdr, Height = hHeight hdr, ChainId = hChainId hdr,
            Version = hVersion hdr, PreviousHash = hPreviousHash hdr, GasLimit = hGasLimit hdr,
            GasUsed = hGasUsed hdr, MerkleRoot = hTxRoot hdr, ReceiptRoot = hReceiptRoot hdr,
            Bloom = hBloom hdr, Status = 0, MinerAddr = hMinerAddr hdr\<rparr>
      in case parent of None \<Rightarrow> node
         | Some p \<Rightarrow> node\<lparr>Parent := Some p, Height := Height (ns p) + 1\<rparr>)"

definition nodeHeader :: "nodes \<Rightarrow> ptr \<Rightarrow> BlockHeader" where
  "nodeHeader ns p =
     (let node = ns p;
          prevHash = (case Parent node of None \<Rightarrow> ZeroHash | Some q \<Rightarrow> Hash (ns q))
      in \<lparr>hChainId = ChainId node, hVersion = Version node, hPreviousHash = prevHash,
          hGasLimit = GasLimit node, hGasUsed = GasUsed node, hHeight = Height node,
          hTimestamp = TimeStamp node, hStateRoot = StateRoot node, hTxRoot = MerkleRoot node,
          hReceiptRoot = ReceiptRoot node, hMinerAddr = MinerAddr node, hBloom = Bloom node\<rparr>)"

partial_function (option) ancestorLoop :: "nodes \<Rightarrow> ptr option \<Rightarrow> u64 \<Rightarrow> ptr option option" where
  "ancestorLoop ns n height =
     (case n of None \<Rightarrow> Some None
      | Some p \<Rightarrow> if Height (ns p) \<noteq> height then ancestorLoop ns (Parent (ns p)) height
                  else Some (Some p))"

definition Ancestor :: "nodes \<Rightarrow> ptr \<Rightarrow> u64 \<Rightarrow> ptr option option" where
  "Ancestor ns p height =
     (if height > Height (ns p) then Some None else ancestorLoop ns (Some p) height)"

definition RelativeAncestor :: "nodes \<Rightarrow> ptr \<Rightarrow> u64 \<Rightarrow> ptr option option" where
  "RelativeAncestor ns p distance = Ancestor ns p (Height (ns p) - distance)"

text \<open>
  The median of the last 11 time stamps: the loop collects at most
  \<^verbatim>\<open>medianTimeBlocks\<close> of them as \<^verbatim>\<open>int64\<close> and sorts them.
\<close>

definition medianTimeBlocks :: nat where "medianTimeBlocks = 11"

fun pastTimestamps :: "nat \<Rightarrow> nodes \<Rightarrow> ptr option \<Rightarrow> int list" where
  "pastTimestamps 0 ns n = []"
| "pastTimestamps (Suc k) ns None = []"
| "pastTimestamps (Suc k) ns (Some p) =
     sint (TimeStamp (ns p)) # pastTimestamps k ns (Parent (ns p))"

definition CalcPastMedianTime :: "nodes \<Rightarrow> ptr \<Rightarrow> int" where
  "CalcPastMedianTime ns p =
     (let timestamps = sort (pastTimestamps medianTimeBlocks ns (Some p))
      in timestamps ! (length timestamps div 2))"

subsection \<open>Chain view\<close>

record ChainView =
  cvNodes :: "ptr option list"
  cvCap :: nat

definition approxNodesPerWeek :: nat where "approxNodesPerWeek = 6 * 24 * 7"

definition genesis :: "ChainView \<Rightarrow> ptr option" where
  "genesis c = (if length (cvNodes c) = 0 then None else cvNodes c ! 0)"

definition tip :: "ChainView \<Rightarrow> ptr option" where
  "tip c = (if length (cvNodes c) = 0 then None else cvNodes c ! (length (cvNodes c) - 1))"

partial_function (option) setTipLoop :: "nodes \<Rightarrow> ptr option list \<Rightarrow> ptr option \<Rightarrow> ptr option list option" where
  "setTipLoop ns xs node =
     (case node of None \<Rightarrow> Some xs
      | Some p \<Rightarrow>
          let i = unat (Height (ns p))
          in if length xs \<le> i then None
             else if xs ! i \<noteq> Some p then setTipLoop ns (xs[i := Some p]) (Parent (ns p))
             else Some xs)"

text \<open>
  The slice is grown or cut to the tip's height; new entries are nil. The capacity only
  decides whether a new array is made: every entry past the old length is set to nil in
  both branches.
\<close>

definition setTip :: "nodes \<Rightarrow> ChainView \<Rightarrow> ptr option \<Rightarrow> ChainView option" where
  "setTip ns c node =
     (case node of None \<Rightarrow> Some (c\<lparr>cvNodes := []\<rparr>)
      | Some p \<Rightarrow>
          let needed = unat (Height (ns p) + 1);
              old = cvNodes c;
              c' = (if cvCap c < needed
                    then \<lparr>cvNodes = take needed old @ replicate (needed - length old) None,
                          cvCap = needed + approxNodesPerWeek\<rparr>
                    else c\<lparr>cvNodes := take needed old @ replicate (needed - length old) None\<rparr>)
          in map_option (\<lambda>xs. c'\<lparr>cvNodes := xs\<rparr>) (setTipLoop ns (cvNodes c') (Some p)))"

definition NewChainView :: "nodes \<Rightarrow> ptr option \<Rightarrow> ChainView option" where
  "NewChainView ns t = setTip ns \<lparr>cvNodes = [], cvCap = 0\<rparr> t"

definition cvHeight :: "ChainView \<Rightarrow> u64" where
  "cvHeight c = of_int (int (length (cvNodes c)) - 1)"

definition nodeByHeight :: "ChainView \<Rightarrow> u64 \<Rightarrow> ptr option" where
  "nodeByHeight c height =
     (if height \<ge> of_nat (length (cvNodes c)) then None else cvNodes c ! unat height)"

definition Equals :: "ChainView \<Rightarrow> ChainView \<Rightarrow> bool" where
  "Equals c other = (length (cvNodes c) = length (cvNodes other) \<and> tip c = tip other)"

definition contains :: "nodes \<Rightarrow> ChainView \<Rightarrow> ptr \<Rightarrow> bool" where
  "contains ns c node = (nodeByHeight c (Height (ns node)) = Some node)"

definition nextNode :: "nodes \<Rightarrow> ChainView \<Rightarrow> ptr option \<Rightarrow> ptr option" where
  "nextNode ns c node =
     (case node of None \<Rightarrow> None
      | Some p \<Rightarrow> if \<not> contains ns c p then None else nodeByHeight c (Height (ns p) + 1))"

partial_function (option) findForkLoop :: "nodes \<Rightarrow> ChainView \<Rightarrow> ptr option \<Rightarrow> ptr option option" where
  "findForkLoop ns c node =
     (case node of None \<Rightarrow> Some None
      | Some p \<Rightarrow> if \<not> contains ns c p then findForkLoop ns c (Parent (ns p))
                  else Some (Some p))"

definition findFork :: "nodes \<Rightarrow> ChainView \<Rightarrow> ptr option \<Rightarrow> ptr option option" where
  "findFork ns c node =
     (case node of None \<Rightarrow> Some None
      | Some p \<Rightarrow>
          let chainHeight = cvHeight c
          in Option.bind (if Height (ns p) > chainHeight then Ancestor ns p chainHeight
                          else Some (Some p))
               (findForkLoop ns c))"

subsection \<open>floor(log2) in five steps\<close>

definition log2FloorMasks :: "u32 list" where
  "log2FloorMasks = [0xffff0000, 0xff00, 0xf0, 0xc, 0x2]"

fun fastLog2FloorLoop :: "u32 list \<Rightarrow> byte \<Rightarrow> byte \<Rightarrow> u32 \<Rightarrow> byte" where
  "fastLog2FloorLoop [] rv ex n = rv"
| "fastLog2FloorLoop (m # ms) rv ex n =
     (if n AND m \<noteq> 0 then fastLog2FloorLoop ms (rv + ex) (drop_bit 1 ex) (drop_bit (unat ex) n)
      else fastLog2FloorLoop ms rv (drop_bit 1 ex) n)"

definition fastLog2Floor :: "u32 \<Rightarrow> byte" where
  "fastLog2Floor n = fastLog2FloorLoop log2FloorMasks 0 16 n"

subsection \<open>Block index\<close>

record BlockIndex =
  biIndex :: "hash \<rightharpoonup> ptr"
  biDirty :: "ptr set"

definition NewBlockIndex :: BlockIndex where
  "NewBlockIndex = \<lparr>biIndex = Map.empty, biDirty = {}\<rparr>"

definition HaveBlock :: "BlockIndex \<Rightarrow> hash \<Rightarrow> bool" where
  "HaveBlock bi h = (biIndex bi h \<noteq> None)"

definition LookupNode :: "BlockIndex \<Rightarrow> hash \<Rightarrow> ptr option" where
  "LookupNode bi h = biIndex bi h"

definition addNode :: "nodes \<Rightarrow> BlockIndex \<Rightarrow> ptr \<Rightarrow> BlockIndex" where
  "addNode ns bi p = bi\<lparr>biIndex := (biIndex bi)(Hash (ns p) \<mapsto> p)\<rparr>"

definition AddNode :: "nodes \<Rightarrow> BlockIndex \<Rightarrow> ptr \<Rightarrow> BlockIndex" where
  "AddNode ns bi p = (addNode ns bi p)\<lparr>biDirty := insert p (biDirty bi)\<rparr>"

definition NodeStatus :: "nodes \<Rightarrow> ptr \<Rightarrow> byte" where
  "NodeStatus ns p = Status (ns p)"

definition SetStatusFlags :: "nodes \<Rightarrow> BlockIndex \<Rightarrow> ptr \<Rightarrow> byte \<Rightarrow> nodes \<times> BlockIndex" where
  "SetStatusFlags ns bi p flags =
     (ns(p := (ns p)\<lparr>Status := Status (ns p) OR flags\<rparr>), bi\<lparr>biDirty := insert p (biDirty bi)\<rparr>)"

definition UnsetStatusFlags :: "nodes \<Rightarrow> BlockIndex \<Rightarrow> ptr \<Rightarrow> byte \<Rightarrow> nodes \<times> BlockIndex" where
  "UnsetStatusFlags ns bi p flags =
     (ns(p := (ns p)\<lparr>Status := Status (ns p) AND NOT flags\<rparr>), bi\<lparr>biDirty := insert p (biDirty bi)\<rparr>)"

text \<open>
  \<^verbatim>\<open>FlushToDB\<close> writes the dirty nodes in the order the map iteration yields them (the list
  argument) and stops at the first error; only then is the dirty set kept.
\<close>

fun storeNodes :: "('db \<Rightarrow> ptr \<Rightarrow> 'db \<times> 'e option) \<Rightarrow> 'db \<Rightarrow> ptr list \<Rightarrow> 'db \<times> 'e option" where
  "storeNodes store db [] = (db, None)"
| "storeNodes store db (p # ps) =
     (case store db p of
        (db', Some e) \<Rightarrow> (db', Some e)
      | (db', None) \<Rightarrow> storeNodes store db' ps)"

definition FlushToDB :: "('db \<Rightarrow> ptr \<Rightarrow> 'db \<times> 'e option) \<Rightarrow> ptr list \<Rightarrow> BlockIndex \<Rightarrow> 'db \<Rightarrow> BlockIndex \<times> 'db \<times> 'e option" where
  "FlushToDB store order bi db =
     (if biDirty bi = {} then (bi, db, None)
      else let (db', err) = storeNodes store db order
           in (if err = None then bi\<lparr>biDirty := {}\<rparr> else bi, db', err))"

definition ClearNode :: "nodes \<Rightarrow> BlockIndex \<Rightarrow> ptr \<Rightarrow> BlockIndex" where
  "ClearNode ns bi p =
     bi\<lparr>biDirty := biDirty bi - {p}, biIndex := (biIndex bi)(Hash (ns p) := None)\<rparr>"

section \<open>Branches\<close>

text \<open>
  A branch of the block tree, genesis first: heights count up from 0 and each node's
  parent is the node before it.
\<close>

inductive branch :: "nodes \<Rightarrow> ptr \<Rightarrow> ptr list \<Rightarrow> bool" for ns where
  genesis: "\<lbrakk>Parent (ns p) = None; Height (ns p) = 0\<rbrakk> \<Longrightarrow> branch ns p [p]"
| child: "\<lbrakk>branch ns q xs; Parent (ns p) = Some q; Height (ns p) = of_nat (length xs);
           length xs < 2 ^ 64 - 1\<rbrakk> \<Longrightarrow> branch ns p (xs @ [p])"

inductive_cases branch_NilE [elim!]: "branch ns p []"

text \<open>An executable test for a branch, tip first.\<close>

fun is_branch_rev :: "nodes \<Rightarrow> ptr list \<Rightarrow> bool" where
  "is_branch_rev ns [] = False"
| "is_branch_rev ns [p] = (Parent (ns p) = None \<and> Height (ns p) = 0)"
| "is_branch_rev ns (p # q # ps) =
     (Parent (ns p) = Some q \<and> Height (ns p) = of_nat (Suc (length ps)) \<and>
      Suc (length ps) < 2 ^ 64 - 1 \<and> is_branch_rev ns (q # ps))"

lemma is_branch_rev_branch: "is_branch_rev ns ps \<Longrightarrow> branch ns (hd ps) (rev ps)"
proof (induction ns ps rule: is_branch_rev.induct)
  case (3 ns p q ps)
  then have "branch ns q (rev (q # ps))" by simp
  from branch.child [OF this, of p] 3 show ?case by simp
qed (auto intro: branch.genesis)

lemma branch_length: "branch ns p xs \<Longrightarrow> 0 < length xs \<and> length xs < 2 ^ 64"
  by (induction rule: branch.induct) auto

lemma branch_last: "branch ns p xs \<Longrightarrow> last xs = p"
  by (induction rule: branch.induct) auto

lemma branch_Height: "branch ns p xs \<Longrightarrow> unat (Height (ns p)) = length xs - 1"
proof (induction rule: branch.induct)
  case (child q xs p)
  then show ?case by (simp add: unsigned_of_nat take_bit_nat_eq_self)
qed simp

lemma branch_Height_Suc:
  assumes "branch ns p xs"
  shows "unat (Height (ns p) + 1) = length xs"
proof -
  have "unat (Height (ns p)) + 1 < 2 ^ 64"
    using branch_Height [OF assms] branch_length [OF assms] by linarith
  then have "unat (Height (ns p) + 1) = unat (Height (ns p)) + 1"
    by (simp add: unat_word_ariths)
  then show ?thesis using branch_Height [OF assms] branch_length [OF assms] by linarith
qed

lemma branch_take:
  "\<lbrakk>branch ns p xs; i < length xs\<rbrakk> \<Longrightarrow> branch ns (xs ! i) (take (Suc i) xs)"
proof (induction rule: branch.induct)
  case (child q xs p)
  show ?case
  proof (cases "i < length xs")
    case True
    with child show ?thesis by (simp add: nth_append)
  next
    case False
    with child have "i = length xs" by simp
    with child show ?thesis using branch.child by fastforce
  qed
qed (auto intro: branch.genesis)

lemma branch_Height_nth:
  "\<lbrakk>branch ns p xs; i < length xs\<rbrakk> \<Longrightarrow> unat (Height (ns (xs ! i))) = i"
  using branch_Height [OF branch_take, of ns p xs i] by simp

lemma branch_Height_of_nat:
  assumes "branch ns p xs" "i < length xs"
  shows "Height (ns (xs ! i)) = of_nat i"
proof -
  have "Height (ns (xs ! i)) = of_nat (unat (Height (ns (xs ! i))))" by simp
  then show ?thesis using branch_Height_nth [OF assms] by simp
qed

lemma branch_Parent_nth:
  assumes "branch ns p xs" "i < length xs"
  shows "Parent (ns (xs ! i)) = (if i = 0 then None else Some (xs ! (i - 1)))"
  using branch_take [OF assms]
proof (cases rule: branch.cases)
  case genesis
  then have "length (take (Suc i) xs) = 1" by simp
  then have "i = 0" using assms(2) by simp
  then show ?thesis using genesis by simp
next
  case (child q ys)
  from child(1) assms(2) have "ys = take i xs"
    by (simp add: take_Suc_conv_app_nth)
  moreover have "ys \<noteq> []" using child(2) by auto
  ultimately have "i \<noteq> 0" by auto
  moreover from branch_last [OF child(2)] \<open>ys = take i xs\<close> \<open>i \<noteq> 0\<close> assms(2)
  have "q = xs ! (i - 1)" by (cases i) (auto simp: take_Suc_conv_app_nth)
  ultimately show ?thesis using child by simp
qed

lemma branch_nth_inj:
  "\<lbrakk>branch ns p xs; branch ns q ys; i < length xs; j < length ys; xs ! i = ys ! j\<rbrakk> \<Longrightarrow> i = j"
  using branch_Height_nth by metis

lemma branch_distinct: "branch ns p xs \<Longrightarrow> distinct xs"
  by (auto simp: distinct_conv_nth dest: branch_nth_inj)

lemma branch_agree_below:
  assumes "branch ns p xs" "branch ns q ys" "i < length xs" "i < length ys" "xs ! i = ys ! i"
  shows "take (Suc i) xs = take (Suc i) ys"
  using assms(3-)
proof (induction i)
  case (Suc i)
  have "Some (xs ! i) = Some (ys ! i)"
    using branch_Parent_nth [OF assms(1) Suc.prems(1)] branch_Parent_nth [OF assms(2) Suc.prems(2)]
      Suc.prems(3) by simp
  with Suc show ?case by (simp add: take_Suc_conv_app_nth)
qed (simp add: take_Suc_conv_app_nth)

lemma branch_unique:
  assumes "branch ns p xs" "branch ns p ys"
  shows "xs = ys"
proof -
  have len: "length xs = length ys"
    using branch_Height [OF assms(1)] branch_Height [OF assms(2)]
      branch_length [OF assms(1)] branch_length [OF assms(2)] by linarith
  have "xs ! (length xs - 1) = ys ! (length xs - 1)"
    using branch_last [OF assms(1)] branch_last [OF assms(2)] branch_length [OF assms(1)] len
    by (metis last_conv_nth length_0_conv less_not_refl)
  from branch_agree_below [OF assms _ _ this] branch_length [OF assms(1)] len
  show ?thesis by simp
qed

section \<open>Walking back along a branch\<close>

lemma ancestorLoop_branch:
  assumes "branch ns p xs" "i < length xs" "k \<le> i"
  shows "ancestorLoop ns (Some (xs ! i)) (of_nat k) = Some (Some (xs ! k))"
  using assms(2,3)
proof (induction i)
  case 0
  then show ?case using branch_Height_nth [OF assms(1), of 0]
    by (subst ancestorLoop.simps) (simp add: unat_eq_0)
next
  case (Suc i)
  have h: "Height (ns (xs ! Suc i)) = of_nat (Suc i)"
    using branch_Height_of_nat [OF assms(1) Suc.prems(1)] .
  have eq: "(of_nat (Suc i) :: u64) = of_nat k \<longleftrightarrow> Suc i = k"
    by (rule of_nat_u64_inject) (use Suc.prems branch_length [OF assms(1)] in linarith)+
  show ?case
  proof (cases "k = Suc i")
    case True
    then show ?thesis by (subst ancestorLoop.simps) (simp add: h del: of_nat_Suc)
  next
    case False
    with Suc have "ancestorLoop ns (Some (xs ! i)) (of_nat k) = Some (Some (xs ! k))" by simp
    then show ?thesis
      using False eq branch_Parent_nth [OF assms(1) Suc.prems(1)]
      by (subst ancestorLoop.simps) (simp add: h del: of_nat_Suc)
  qed
qed

lemma branch_nth_last: "branch ns p xs \<Longrightarrow> xs ! (length xs - 1) = p"
  using branch_last branch_length by (metis last_conv_nth length_0_conv less_not_refl)

lemma Ancestor_branch:
  assumes "branch ns p xs"
  shows "Ancestor ns p height =
    Some (if unat height < length xs then Some (xs ! unat height) else None)"
proof -
  have le: "height > Height (ns p) \<longleftrightarrow> \<not> unat height < length xs"
    using branch_Height [OF assms] branch_length [OF assms]
    unfolding word_less_nat_alt by linarith
  have "unat height < length xs \<Longrightarrow> ancestorLoop ns (Some p) height = Some (Some (xs ! unat height))"
    using ancestorLoop_branch [OF assms, of "length xs - 1" "unat height"]
      branch_nth_last [OF assms] branch_length [OF assms] by simp
  with le show ?thesis by (simp add: Ancestor_def)
qed

section \<open>The chain view holds the branch of its tip\<close>

text \<open>A view is consistent when it is empty or lists the branch that ends in its tip.\<close>

definition view_branch :: "nodes \<Rightarrow> ChainView \<Rightarrow> ptr list \<Rightarrow> bool" where
  "view_branch ns c xs \<longleftrightarrow>
     cvNodes c = map Some xs \<and> (xs = [] \<or> branch ns (last xs) xs)"

text \<open>
  The loop stops at the first node already in place. Below it the old view and the new
  branch agree, because both are branches.
\<close>

lemma setTipLoop_None [simp]: "setTipLoop ns zs None = Some zs"
  by (subst setTipLoop.simps) simp

lemma setTipLoop_Some:
  "\<lbrakk>unat (Height (ns p)) = i; i < length zs\<rbrakk> \<Longrightarrow>
     setTipLoop ns zs (Some p) =
       (if zs ! i = Some p then Some zs else setTipLoop ns (zs[i := Some p]) (Parent (ns p)))"
  by (subst setTipLoop.simps) (simp add: Let_def)

lemma setTipLoop_branch:
  assumes xs: "branch ns p xs" and ys: "ys = [] \<or> branch ns q ys"
  shows "\<lbrakk>i < length xs; length zs = length xs;
      \<And>j. j < length xs \<Longrightarrow> zs ! j = (if i < j then Some (xs ! j)
                                     else if j < length ys then Some (ys ! j) else None)\<rbrakk>
    \<Longrightarrow> setTipLoop ns zs (Some (xs ! i)) = Some (map Some xs)"
proof (induction i arbitrary: zs)
  case (0 zs)
  have H: "unat (Height (ns (xs ! 0))) = 0" using branch_Height_nth [OF xs 0(1)] .
  have upd: "zs[0 := Some (xs ! 0)] = map Some xs"
    by (rule nth_equalityI) (use 0 in \<open>auto simp: nth_list_update\<close>)
  have "zs = map Some xs" if "zs ! 0 = Some (xs ! 0)"
    using upd that by (metis list_update_id)
  then show ?case using upd 0(1,2) branch_Parent_nth [OF xs 0(1)]
    by (simp add: setTipLoop_Some [of ns "xs ! 0", OF H])
next
  case (Suc i zs)
  have H: "unat (Height (ns (xs ! Suc i))) = Suc i" using branch_Height_nth [OF xs Suc.prems(1)] .
  show ?case
  proof (cases "zs ! Suc i = Some (xs ! Suc i)")
    case True
    then have iy: "Suc i < length ys" and "ys ! Suc i = xs ! Suc i"
      using Suc.prems(3) [OF Suc.prems(1)] by (auto split: if_splits)
    then have tk: "take (Suc (Suc i)) ys = take (Suc (Suc i)) xs"
      using branch_agree_below [OF _ xs iy Suc.prems(1)] ys by auto
    have "ys ! j = xs ! j" if "j \<le> Suc i" for j
      using arg_cong [OF tk, of "\<lambda>l. l ! j"] that by simp
    then have "zs = map Some xs"
      by (intro nth_equalityI) (use Suc.prems iy in auto)
    then show ?thesis using Suc.prems(1) by (simp add: setTipLoop_Some [of ns "xs ! Suc i", OF H])
  next
    case False
    have "setTipLoop ns (zs[Suc i := Some (xs ! Suc i)]) (Some (xs ! i)) = Some (map Some xs)"
      by (rule Suc.IH) (use Suc.prems in \<open>auto simp: nth_list_update\<close>)
    then show ?thesis using False Suc.prems(1,2) branch_Parent_nth [OF xs Suc.prems(1)]
      by (simp add: setTipLoop_Some [of ns "xs ! Suc i", OF H])
  qed
qed

lemma setTip_branch:
  assumes "view_branch ns c ys" "branch ns p xs"
  shows "\<exists>c'. setTip ns c (Some p) = Some c' \<and> view_branch ns c' xs"
proof -
  have n: "unat (Height (ns p) + 1) = length xs" using branch_Height_Suc [OF assms(2)] .
  have ne: "xs \<noteq> []" using branch_length [OF assms(2)] by auto
  have ys: "ys = [] \<or> branch ns (last ys) ys" "cvNodes c = map Some ys"
    using assms(1) by (auto simp: view_branch_def)
  have loop: "setTipLoop ns (map Some (take (length xs) ys) @ replicate (length xs - length ys) None) (Some p)
      = Some (map Some xs)"
    unfolding branch_nth_last [OF assms(2), symmetric]
    by (rule setTipLoop_branch [OF assms(2) ys(1)]) (use ne in \<open>auto simp: nth_append\<close>)
  have view: "view_branch ns c' xs" if "cvNodes c' = map Some xs" for c'
    using that assms(2) branch_last [OF assms(2)] by (simp add: view_branch_def)
  define c' where "c' = (if cvCap c < length xs
      then \<lparr>cvNodes = map Some xs, cvCap = length xs + approxNodesPerWeek\<rparr>
      else c\<lparr>cvNodes := map Some xs\<rparr>)"
  have "setTip ns c (Some p) = Some c'"
    unfolding setTip_def Let_def option.case n ys(2) take_map length_map
    by (simp add: loop c'_def)
  moreover have "view_branch ns c' xs" by (rule view) (simp add: c'_def)
  ultimately show ?thesis by blast
qed

section \<open>Lookups in a consistent view\<close>

lemma nodeByHeight_view:
  assumes "cvNodes c = map Some xs" "length xs < 2 ^ 64"
  shows "nodeByHeight c h = (if unat h < length xs then Some (xs ! unat h) else None)"
proof -
  have "unat (of_nat (length xs) :: u64) = length xs"
    using assms(2) by (simp add: unsigned_of_nat take_bit_nat_eq_self)
  then show ?thesis using assms(1) by (auto simp: nodeByHeight_def word_le_nat_alt)
qed

lemma view_branch_length: "view_branch ns c xs \<Longrightarrow> length xs < 2 ^ 64"
  using branch_length by (fastforce simp: view_branch_def)

lemma nodeByHeight_view_branch:
  "view_branch ns c xs \<Longrightarrow> nodeByHeight c h = (if unat h < length xs then Some (xs ! unat h) else None)"
  using nodeByHeight_view view_branch_length by (simp add: view_branch_def)

lemma contains_view_branch:
  assumes "view_branch ns c xs"
  shows "contains ns c p \<longleftrightarrow> p \<in> set xs"
proof
  assume "contains ns c p"
  then show "p \<in> set xs"
    using nodeByHeight_view_branch [OF assms, of "Height (ns p)"]
    by (simp add: contains_def split: if_splits) (metis nth_mem)
next
  assume "p \<in> set xs"
  then obtain i where i: "i < length xs" "xs ! i = p" by (auto simp: in_set_conv_nth)
  then have "branch ns (last xs) xs" using assms by (auto simp: view_branch_def)
  from branch_Height_nth [OF this i(1)] i show "contains ns c p"
    using nodeByHeight_view_branch [OF assms] by (simp add: contains_def)
qed

lemma nextNode_view_branch:
  assumes "view_branch ns c xs" "i < length xs"
  shows "nextNode ns c (Some (xs ! i)) = (if Suc i < length xs then Some (xs ! Suc i) else None)"
proof -
  have b: "branch ns (last xs) xs" using assms by (auto simp: view_branch_def)
  have "unat (Height (ns (xs ! i)) + 1) = Suc i"
    using branch_Height_Suc [OF branch_take [OF b assms(2)]] assms(2) by simp
  then show ?thesis using assms
    by (simp add: nextNode_def contains_view_branch nodeByHeight_view_branch)
qed

text \<open>
  \<^verbatim>\<open>findFork\<close> walks from \<open>ys ! i\<close> down to the last node that the view \<open>xs\<close> contains.
\<close>

lemma findForkLoop_None [simp]: "findForkLoop ns c None = Some None"
  by (subst findForkLoop.simps) simp

lemma findForkLoop_Some:
  "findForkLoop ns c (Some p) =
     (if contains ns c p then Some (Some p) else findForkLoop ns c (Parent (ns p)))"
  by (subst findForkLoop.simps) simp

definition last_common :: "ptr list \<Rightarrow> ptr list \<Rightarrow> ptr option" where
  "last_common xs ys =
     (let zs = longest_common_prefix xs ys in if zs = [] then None else Some (last zs))"

lemma longest_common_prefix_snoc:
  "longest_common_prefix xs (ys @ [y]) =
     (if prefix (ys @ [y]) xs then ys @ [y] else longest_common_prefix xs ys)"
proof (induction ys arbitrary: xs)
  case Nil
  then show ?case by (cases xs) auto
next
  case (Cons a ys)
  then show ?case by (cases xs) auto
qed

lemma longest_common_prefix_take:
  "longest_common_prefix xs (take (length xs) ys) = longest_common_prefix xs ys"
  by (induction xs ys rule: longest_common_prefix.induct) auto

lemma branch_common_prefix:
  assumes xs: "xs = [] \<or> branch ns q xs" and ys: "branch ns p ys" "i < length ys"
  shows "prefix (take (Suc i) ys) xs \<longleftrightarrow> ys ! i \<in> set xs"
proof
  assume "prefix (take (Suc i) ys) xs"
  then have "set (take (Suc i) ys) \<subseteq> set xs" by (rule set_mono_prefix)
  then show "ys ! i \<in> set xs" using ys(2) by (auto simp: take_Suc_conv_app_nth)
next
  assume "ys ! i \<in> set xs"
  then obtain j where j: "j < length xs" "xs ! j = ys ! i" by (auto simp: in_set_conv_nth)
  then have b: "branch ns q xs" using xs by auto
  have "j = i" using branch_nth_inj [OF b ys(1) j(1) ys(2) j(2)] .
  then have "take (Suc i) xs = take (Suc i) ys"
    using branch_agree_below [OF b ys(1)] j ys(2) by simp
  then show "prefix (take (Suc i) ys) xs" by (metis take_is_prefix)
qed

lemma last_common_take_Suc:
  assumes "i < length ys"
  shows "last_common xs (take (Suc i) ys) =
    (if prefix (take (Suc i) ys) xs then Some (ys ! i) else last_common xs (take i ys))"
  using assms by (auto simp: last_common_def Let_def take_Suc_conv_app_nth longest_common_prefix_snoc)

lemma findForkLoop_branch:
  assumes c: "view_branch ns c xs" and ys: "branch ns p ys"
  shows "i < length ys \<Longrightarrow>
    findForkLoop ns c (Some (ys ! i)) = Some (last_common xs (take (Suc i) ys))"
proof (induction i)
  case 0
  have "last_common xs [] = None" by (cases xs) (simp_all add: last_common_def)
  then show ?case
    using branch_Parent_nth [OF ys 0] branch_common_prefix [OF _ ys 0, of xs "last xs"] c
      last_common_take_Suc [OF 0, of xs]
    by (auto simp: findForkLoop_Some contains_view_branch [OF c] view_branch_def)
next
  case (Suc i)
  then show ?case
    using branch_Parent_nth [OF ys Suc.prems] branch_common_prefix [OF _ ys Suc.prems, of xs "last xs"] c
      last_common_take_Suc [OF Suc.prems, of xs]
    by (auto simp: findForkLoop_Some contains_view_branch [OF c] view_branch_def)
qed

lemma cvHeight_view:
  assumes "cvNodes c = map Some xs" "length xs < 2 ^ 64"
  shows "unat (cvHeight c) = (if xs = [] then 2 ^ 64 - 1 else length xs - 1)"
proof (cases xs)
  case Nil
  then have "cvHeight c = 0xFFFFFFFFFFFFFFFF" using assms by (simp add: cvHeight_def)
  then show ?thesis using Nil by simp
next
  case (Cons x xs')
  then show ?thesis using assms by (simp add: cvHeight_def unat_of_nat_u64)
qed

lemma findFork_branch:
  assumes c: "view_branch ns c xs" and ys: "branch ns p ys"
  shows "findFork ns c (Some p) = Some (last_common xs ys)"
proof -
  have len: "length xs < 2 ^ 64" "length ys < 2 ^ 64" "0 < length ys"
    using view_branch_length [OF c] branch_length [OF ys] by auto
  have h: "unat (cvHeight c) = (if xs = [] then 2 ^ 64 - 1 else length xs - 1)"
    using cvHeight_view c len(1) by (simp add: view_branch_def)
  show ?thesis
  proof (cases "Height (ns p) > cvHeight c")
    case True
    then have lt: "xs \<noteq> []" "length xs < length ys"
      using h branch_Height [OF ys] len by (auto simp: word_less_nat_alt split: if_splits)
    then have "Ancestor ns p (cvHeight c) = Some (Some (ys ! (length xs - 1)))"
      using Ancestor_branch [OF ys] h by simp
    then show ?thesis
      using True lt findForkLoop_branch [OF c ys, of "length xs - 1"] longest_common_prefix_take [of xs ys]
      by (simp add: findFork_def last_common_def)
  next
    case False
    then show ?thesis
      using findForkLoop_branch [OF c ys, of "length ys - 1"] branch_nth_last [OF ys] len(3)
      by (simp add: findFork_def)
  qed
qed

section \<open>The five-step logarithm\<close>

text \<open>The masks of the code, from the widest: each one selects the upper half of a field.\<close>

fun halvingMasks :: "nat \<Rightarrow> u32 list" where
  "halvingMasks 0 = []"
| "halvingMasks (Suc k) = push_bit (2 ^ k) (mask (2 ^ k)) # halvingMasks k"

lemma log2FloorMasks_halving: "log2FloorMasks = halvingMasks 5"
proof -
  have *: "(5 :: nat) = Suc (Suc (Suc (Suc (Suc 0))))" by simp
  have "halvingMasks 5 = [push_bit 16 (mask 16), push_bit 8 (mask 8), push_bit 4 (mask 4),
      push_bit 2 (mask 2), push_bit 1 (mask 1)]" unfolding * by simp
  then show ?thesis by (simp add: log2FloorMasks_def mask_eq_exp_minus_1 push_bit_eq_mult)
qed

lemma word_zero_iff_bits: "(x :: 'a::len word) = 0 \<longleftrightarrow> (\<forall>j. \<not> bit x j)"
  by (auto intro!: bit_word_eqI)

lemma halvingMask_test:
  fixes n :: u32
  assumes "take_bit (2 * e) n = n"
  shows "n AND push_bit e (mask e) = 0 \<longleftrightarrow> drop_bit e n = 0"
proof -
  have lt: "j < 2 * e" "j < 32" if "bit n j" for j
    using assms that by (metis bit_take_bit_iff) (use that bit_imp_le_length in fastforce)
  have "bit (n AND push_bit e (mask e)) j \<longleftrightarrow> e \<le> j \<and> bit n j" for j
    using lt [of j] by (auto simp: bit_simps)
  moreover have "bit (drop_bit e n) j \<longleftrightarrow> bit n (e + j)" for j
    using lt [of "e + j"] by (auto simp: bit_simps)
  ultimately show ?thesis
    unfolding word_zero_iff_bits by (metis le_add1 le_add_diff_inverse)
qed

lemma drop_bit_word_bound:
  fixes n :: u32
  assumes "take_bit (2 * e) n = n"
  shows "take_bit e (drop_bit e n) = drop_bit e n"
proof -
  have "drop_bit e (take_bit (2 * e) n) = take_bit e (drop_bit e n)"
    by (simp add: drop_bit_take_bit)
  then show ?thesis using assms by simp
qed

lemma take_bit_of_drop_zero:
  fixes n :: u32
  assumes "drop_bit e n = 0"
  shows "take_bit e n = n"
  using assms bits_ident [of e n] by simp

lemma fastLog2FloorLoop_halving:
  "\<lbrakk>k \<le> 5; k \<noteq> 0 \<longrightarrow> unat ex = 2 ^ (k - 1); take_bit (2 ^ k) n = n; n \<noteq> 0; unat rv + 2 ^ k \<le> 2 ^ 5\<rbrakk>
   \<Longrightarrow> unat rv \<le> unat (fastLog2FloorLoop (halvingMasks k) rv ex n) \<and>
       drop_bit (unat (fastLog2FloorLoop (halvingMasks k) rv ex n) - unat rv) n = 1"
proof (induction k arbitrary: rv ex n)
  case 0
  have "take_bit (Suc 0) n = n" using 0(3) by simp
  then obtain b where "n = of_bool b" unfolding take_bit_Suc_0 mod_2_eq_odd by metis
  with 0(4) have "n = 1" by (cases b) simp_all
  then show ?case by simp
next
  case (Suc k)
  have ex: "unat ex = 2 ^ k" using Suc.prems by simp
  have ex': "k \<noteq> 0 \<longrightarrow> unat (drop_bit 1 ex) = 2 ^ (k - 1)"
    using ex by (cases k) (simp_all add: drop_bit_eq_div unat_div)
  have tb: "take_bit (2 * 2 ^ k) n = n" using Suc.prems by simp
  show ?case
  proof (cases "drop_bit (2 ^ k) n = 0")
    case True
    have "unat rv + 2 ^ k \<le> 2 ^ 5" using Suc.prems by simp
    then show ?thesis
      using True Suc.IH [OF _ ex' take_bit_of_drop_zero [OF True] Suc.prems(4)] Suc.prems(1)
      by (simp add: halvingMask_test [OF tb])
  next
    case False
    have kb: "(2::nat) ^ k \<le> 16" using power_increasing [of k 4 "2::nat"] Suc.prems(1) by simp
    have rv: "unat (rv + ex) = unat rv + 2 ^ k"
      using Suc.prems(5) kb ex by (subst unat_add_no_wrap) simp_all
    have "unat (rv + ex) + 2 ^ k \<le> 2 ^ 5" using rv Suc.prems(5) by simp
    from Suc.IH [OF _ ex' drop_bit_word_bound [OF tb] False this] Suc.prems(1) rv False
    show ?thesis
      by (auto simp: halvingMask_test [OF tb] ex drop_bit_drop_bit)
  qed
qed

section \<open>Properties\<close>

text \<open>
  C4. \<^verbatim>\<open>setTip\<close> on a consistent view (empty, or the branch of some other tip, shorter or
  longer, on any fork) returns, and the view then lists exactly the branch of the new tip
  from genesis on, although the loop stops at the first entry that is already in place.
\<close>

theorem setTip_correct:
  assumes "view_branch ns c ys" "branch ns p xs"
  shows "\<exists>c'. setTip ns c (Some p) = Some c' \<and> view_branch ns c' xs \<and>
           tip c' = Some p \<and> unat (cvHeight c') = length xs - 1"
proof -
  obtain c' where c': "setTip ns c (Some p) = Some c'" "view_branch ns c' xs"
    using setTip_branch [OF assms] by blast
  moreover have "tip c' = Some p"
    using c'(2) branch_nth_last [OF assms(2)] branch_length [OF assms(2)]
    by (simp add: tip_def view_branch_def)
  moreover have "unat (cvHeight c') = length xs - 1"
    using cvHeight_view [of c' xs] c'(2) branch_length [OF assms(2)] by (simp add: view_branch_def)
  ultimately show ?thesis by blast
qed

text \<open>
  C11. \<^verbatim>\<open>findFork\<close> returns the last block that the view and the branch of the given node
  have in common, or nil when they have none.
\<close>

theorem findFork_last_common:
  assumes "view_branch ns c xs" "branch ns p ys"
  shows "findFork ns c (Some p) =
    Some (let zs = longest_common_prefix xs ys in if zs = [] then None else Some (last zs))"
  using findFork_branch [OF assms] by (simp add: last_common_def)

text \<open>
  C19. \<^verbatim>\<open>Ancestor\<close> on a node of a well-formed branch returns for every height: the node of
  the branch at that height, and nil above the node.
\<close>

theorem Ancestor_correct:
  assumes "branch ns p xs"
  shows "Ancestor ns p height =
    Some (if unat height < length xs then Some (xs ! unat height) else None)"
  using Ancestor_branch [OF assms] .

text \<open>C25. \<^verbatim>\<open>fastLog2Floor\<close> is the floor of the binary logarithm of every positive 32-bit number.\<close>

theorem fastLog2Floor_correct:
  assumes "n \<noteq> 0"
  shows "2 ^ unat (fastLog2Floor n) \<le> unat n \<and> unat n < 2 ^ (unat (fastLog2Floor n) + 1)"
proof -
  have "take_bit (2 ^ 5) n = n" by (rule bit_word_eqI) (simp add: bit_simps)
  then have "drop_bit (unat (fastLog2Floor n)) n = 1"
    using fastLog2FloorLoop_halving [of 5 16 n 0] assms
    by (simp add: fastLog2Floor_def log2FloorMasks_halving)
  then have "unat n div 2 ^ unat (fastLog2Floor n) = 1"
    by (metis unat_drop_bit_eq drop_bit_eq_div unat_1)
  then show ?thesis
    using dividend_less_div_times [of "2 ^ unat (fastLog2Floor n)" "unat n"]
      div_times_less_eq_dividend [of "unat n" "2 ^ unat (fastLog2Floor n)"]
    by simp
qed

subsection \<open>Concrete instances\<close>

text \<open>A block tree with genesis 0, its children 1 and 2, and 3 on top of 2.\<close>

definition exampleNode :: "ptr option \<Rightarrow> u64 \<Rightarrow> hash \<Rightarrow> BlockNode" where
  "exampleNode parent height h = \<lparr>Parent = parent, Hash = h, StateRoot = [], TimeStamp = 0,
     Height = height, ChainId = 0, Version = 0, PreviousHash = ZeroHash, GasLimit = 0, GasUsed = 0,
     MerkleRoot = [], ReceiptRoot = ZeroHash, Bloom = [], Status = 0, MinerAddr = ZeroAddress\<rparr>"

definition exampleNodes :: nodes where
  "exampleNodes p = (if p = 0 then exampleNode None 0 ZeroHash
     else if p = 1 then exampleNode (Some 0) 1 ZeroHash
     else if p = 2 then exampleNode (Some 0) 1 ZeroHash
     else exampleNode (Some 2) 2 ZeroHash)"

lemma exampleNodes_branches:
  "branch exampleNodes 1 [0, 1]" "branch exampleNodes 3 [0, 2, 3]"
  using is_branch_rev_branch [of exampleNodes "[1, 0]"] is_branch_rev_branch [of exampleNodes "[3, 2, 0]"]
  by (simp_all add: exampleNodes_def exampleNode_def)

lemma exampleNodes_view:
  "view_branch exampleNodes \<lparr>cvNodes = [Some 0, Some 1], cvCap = 2\<rparr> [0, 1]"
  using exampleNodes_branches by (simp add: view_branch_def)

theorem setTip_correct_witness:
  "\<exists>c'. setTip exampleNodes \<lparr>cvNodes = [Some 0, Some 1], cvCap = 2\<rparr> (Some 3) = Some c' \<and>
        cvNodes c' = [Some 0, Some 2, Some 3]"
  using setTip_correct [OF exampleNodes_view exampleNodes_branches(2)] by (auto simp: view_branch_def)

theorem findFork_last_common_witness:
  "findFork exampleNodes \<lparr>cvNodes = [Some 0, Some 1], cvCap = 2\<rparr> (Some 3) = Some (Some 0)"
  using findFork_last_common [OF exampleNodes_view exampleNodes_branches(2)] by simp

theorem Ancestor_correct_witness:
  "Ancestor exampleNodes 3 1 = Some (Some 2) \<and> Ancestor exampleNodes 3 7 = Some None"
  using Ancestor_correct [OF exampleNodes_branches(2)] by simp

theorem fastLog2Floor_correct_witness:
  "2 ^ unat (fastLog2Floor 1000) \<le> (1000 :: nat) \<and> (1000 :: nat) < 2 ^ (unat (fastLog2Floor 1000) + 1)"
  using fastLog2Floor_correct [of 1000] by simp

end
