(* ===== verification/StoreDB.thy ===== *)
theory StoreDB
  imports TrieDB
begin

section \<open>The state database: cache over trie\<close>

text \<open>
  \<^verbatim>\<open>database/transactionstore.go\<close> and \<^verbatim>\<open>chain/store/storeDB.go\<close>. The cache maps keys to
  interface values: the untyped nil that \<^verbatim>\<open>Delete\<close> stores, or a byte slice, which may
  itself be nil when a lookup of an absent key was cached. The two kinds of nil are told
  apart by the code (\<^verbatim>\<open>value != nil\<close> is true of a nil slice) and so by the model.
  The cache and the state database share one trie.
\<close>

datatype chainError =
    TrieErr trieError
  | ErrNotFound
  | ErrDecode
  | ErrEncode
  | ErrUsedAlias
  | ErrInvalidateAlias
  | ErrRecoverRoot
  | ErrBalance
  | ErrNonceTooHigh
  | ErrNonceTooLow
  | ErrReachGasLimit
  | ErrOutOfGas
  | ErrIntrinsicGas
  | ErrInsufficientBalanceForGas
  | ErrTooShortAlias
  | ErrTooLongAlias
  | ErrUnsupportAliasChar
  | ErrUnsupportTxType
  | ErrReceiptRoot
  | ErrRecoverSender
  | ErrChainId
  | ErrVersion
  | ErrPreHash
  | ErrInvalidateBlockNumber
  | ErrInvalidateTimestamp
  | ErrGasLimit
  | ErrGasUsed
  | ErrTxRoot
  | ErrNotMathcedStateRoot
  | ErrBlockExsist
  | ErrOrphanBlockExsist
  | ErrBlockNotFound
  | ErrMsg string

text \<open>The functions the store gets from outside the repository, and the reader of nodes on disk.\<close>

record Crypto =
  keccak :: "bytes \<Rightarrow> bytes"
  rlp :: "rawnode \<Rightarrow> bytes"
  diskNode :: nodeReader

datatype dirtyVal = DNil | DBytes "bytes option"

record StoreDB =
  sStore :: "bytes \<rightharpoonup> bytes"
  sCache :: "(bytes \<rightharpoonup> dirtyVal) option"
  sTrie :: "(tnode \<times> (bytes \<times> bytes) list) option"
  sTrieDb :: Database

definition secureTrie :: "StoreDB \<Rightarrow> SecureTrie option" where
  "secureTrie s = map_option (\<lambda>(root, keys). \<lparr>stRoot = root, stDb = sTrieDb s, stSecKeys = keys\<rparr>) (sTrie s)"

definition putTrie :: "StoreDB \<Rightarrow> SecureTrie \<Rightarrow> StoreDB" where
  "putTrie s st = s\<lparr>sTrie := Some (stRoot st, stSecKeys st), sTrieDb := stDb st\<rparr>"

subsection \<open>Trie access\<close>

definition trieGet :: "Crypto \<Rightarrow> bytes \<Rightarrow> (StoreDB, chainError, bytes option) action" where
  "trieGet cr key s =
     (case Option.bind (secureTrie s) (\<lambda>st. TryGet_s (keccak cr) (diskNode cr) st key) of
        None \<Rightarrow> (Panic, s)
      | Some (v, Some e, st) \<Rightarrow> (Err (TrieErr e), putTrie s st)
      | Some (v, None, st) \<Rightarrow> (Ok v, putTrie s st))"

definition trieUpdate :: "Crypto \<Rightarrow> bytes \<Rightarrow> bytes \<Rightarrow> (StoreDB, chainError, unit) action" where
  "trieUpdate cr key value s =
     (case Option.bind (secureTrie s) (\<lambda>st. TryUpdate_s (keccak cr) (diskNode cr) st key value) of
        None \<Rightarrow> (Panic, s)
      | Some (Some e, st) \<Rightarrow> (Err (TrieErr e), putTrie s st)
      | Some (None, st) \<Rightarrow> (Ok (), putTrie s st))"

text \<open>\<^verbatim>\<open>Delete\<close> only logs an error of \<^verbatim>\<open>TryDelete\<close>.\<close>

definition trieDelete :: "Crypto \<Rightarrow> bytes \<Rightarrow> (StoreDB, chainError, unit) action" where
  "trieDelete cr key s =
     (case Option.bind (secureTrie s) (\<lambda>st. TryDelete_s (keccak cr) (diskNode cr) st key) of
        None \<Rightarrow> (Panic, s)
      | Some (_, st) \<Rightarrow> (Ok (), putTrie s st))"

definition trieCommit :: "Crypto \<Rightarrow> (StoreDB, chainError, hash) action" where
  "trieCommit cr s =
     (case Option.bind (secureTrie s) (Commit_s (rlp cr) (keccak cr)) of
        None \<Rightarrow> (Panic, s)
      | Some (h, st) \<Rightarrow> (Ok h, putTrie s st))"

subsection \<open>The transaction store\<close>

definition Get_ts :: "Crypto \<Rightarrow> (bytes \<rightharpoonup> dirtyVal) \<Rightarrow> bytes \<Rightarrow> (StoreDB, chainError, bytes option) action" where
  "Get_ts cr d key s =
     (case d key of
        Some DNil \<Rightarrow> (Ok None, s)
      | Some (DBytes v) \<Rightarrow> (Ok v, s)
      | None \<Rightarrow>
          (case trieGet cr key s of
             (Ok v, s') \<Rightarrow> (Ok v, s'\<lparr>sCache := Some (d(key \<mapsto> DBytes v))\<rparr>)
           | (r, s') \<Rightarrow> (r, s')))"

text \<open>
  \<^verbatim>\<open>Flush\<close> visits the keys in the order of the list; only deleted entries leave the cache.
\<close>

fun Flush_ts :: "Crypto \<Rightarrow> bytes list \<Rightarrow> (StoreDB, chainError, unit) action" where
  "Flush_ts cr [] s = (Ok (), s)"
| "Flush_ts cr (key # keys) s =
     (case Option.bind (sCache s) (\<lambda>d. d key) of
        None \<Rightarrow> Flush_ts cr keys s
      | Some (DBytes v) \<Rightarrow>
          (case trieUpdate cr key (case v of None \<Rightarrow> [] | Some b \<Rightarrow> b) s of
             (Ok _, s1) \<Rightarrow> bindA (trieCommit cr) (\<lambda>_. Flush_ts cr keys) s1
           | (_, s1) \<Rightarrow> (Panic, s1))
      | Some DNil \<Rightarrow>
          bindA (trieDelete cr key) (\<lambda>_. bindA (trieCommit cr) (\<lambda>_ s1.
            Flush_ts cr keys (s1\<lparr>sCache := map_option (\<lambda>d. d(key := None)) (sCache s1)\<rparr>))) s)"

definition copyVal :: "dirtyVal \<Rightarrow> dirtyVal" where
  "copyVal v = (case v of DNil \<Rightarrow> DNil | DBytes None \<Rightarrow> DBytes (Some []) | DBytes (Some b) \<Rightarrow> DBytes (Some b))"

definition CopyState_ts :: "(bytes \<rightharpoonup> dirtyVal) \<Rightarrow> (bytes \<rightharpoonup> dirtyVal)" where
  "CopyState_ts d = (\<lambda>k. map_option copyVal (d k))"

subsection \<open>The state database\<close>

definition Get_db :: "Crypto \<Rightarrow> bytes \<Rightarrow> (StoreDB, chainError, bytes option) action" where
  "Get_db cr key s = (case sCache s of Some d \<Rightarrow> Get_ts cr d key s | None \<Rightarrow> trieGet cr key s)"

definition Put_db :: "Crypto \<Rightarrow> bytes \<Rightarrow> bytes \<Rightarrow> (StoreDB, chainError, unit) action" where
  "Put_db cr key value s =
     (case sCache s of
        Some d \<Rightarrow> (Ok (), s\<lparr>sCache := Some (d(key \<mapsto> DBytes (Some value)))\<rparr>)
      | None \<Rightarrow> bindA (trieUpdate cr key value) (\<lambda>_. bindA (trieCommit cr) (\<lambda>_. returnA ())) s)"

definition Delete_db :: "Crypto \<Rightarrow> bytes \<Rightarrow> (StoreDB, chainError, unit) action" where
  "Delete_db cr key s =
     bindA (trieDelete cr key) (\<lambda>_. bindA (trieCommit cr) (\<lambda>_. returnA ()))
       (s\<lparr>sCache := map_option (\<lambda>d. d(key \<mapsto> DNil)) (sCache s)\<rparr>)"

definition Flush_db :: "Crypto \<Rightarrow> bytes list \<Rightarrow> (StoreDB, chainError, unit) action" where
  "Flush_db cr order s = (if sCache s \<noteq> None then Flush_ts cr order s else (Ok (), s))"

text \<open>With a nil cache these two call a method on a nil pointer.\<close>

definition RevertState_db :: "(bytes \<rightharpoonup> dirtyVal) \<Rightarrow> (StoreDB, chainError, unit) action" where
  "RevertState_db shot s = (if sCache s = None then (Panic, s) else (Ok (), s\<lparr>sCache := Some shot\<rparr>))"

definition CopyState_db :: "(StoreDB, chainError, bytes \<rightharpoonup> dirtyVal) action" where
  "CopyState_db s = (case sCache s of None \<Rightarrow> (Panic, s) | Some d \<Rightarrow> (Ok (CopyState_ts d), s))"

definition getStateRoot :: "Crypto \<Rightarrow> (StoreDB, chainError, hash) action" where
  "getStateRoot cr s =
     (case Option.bind (secureTrie s) (Hash_s (rlp cr) (keccak cr)) of
        None \<Rightarrow> (Panic, s)
      | Some (h, st) \<Rightarrow> (Ok h, putTrie s st))"

definition RecoverTrie_db :: "Crypto \<Rightarrow> bytes option \<Rightarrow> (StoreDB, chainError, bool) action" where
  "RecoverTrie_db cr root s =
     (case Bytes2Hash root of
        None \<Rightarrow> (Panic, s)
      | Some h \<Rightarrow>
          (case NewSecure (keccak cr) (diskNode cr) h (sTrieDb s) of
             Panic \<Rightarrow> (Panic, s)
           | Err e \<Rightarrow> (Ok False, s\<lparr>sTrie := None\<rparr>)
           | Ok st \<Rightarrow> (Ok True, (putTrie s st)\<lparr>sCache := Some Map.empty\<rparr>)))"

section \<open>What the state database stores\<close>

text \<open>
  The interface the account and stake stores rely on: cells addressed by keys, where a read
  returns the cell and changes nothing and a write changes only its cell. \<open>runsTo\<close> says that
  an action started in any state that stores \<open>v\<close> gives the result and then stores \<open>v'\<close>.
\<close>

definition runsTo :: "('s \<Rightarrow> 'v \<Rightarrow> bool) \<Rightarrow> ('s, 'e, 'a) action \<Rightarrow> 'v \<Rightarrow> ('e, 'a) res \<Rightarrow> 'v \<Rightarrow> bool" where
  "runsTo rep m v r v' \<longleftrightarrow> (\<forall>s. rep s v \<longrightarrow> (\<exists>s'. m s = (r, s') \<and> rep s' v'))"

lemma runsTo_return: "runsTo rep (returnA a) v (Ok a) v"
  by (simp add: runsTo_def)

lemma runsTo_raise: "runsTo rep (raiseA e) v (Err e) v"
  by (simp add: runsTo_def)

lemma runsTo_bind:
  assumes "runsTo rep m v (Ok a) v1" "runsTo rep (f a) v1 r v2"
  shows "runsTo rep (bindA m f) v r v2"
  unfolding runsTo_def
proof (intro allI impI)
  fix s
  assume "rep s v"
  then obtain s1 where s1: "m s = (Ok a, s1)" "rep s1 v1" using assms(1) by (auto simp: runsTo_def)
  then show "\<exists>s'. bindA m f s = (r, s') \<and> rep s' v2" using assms(2) by (auto simp: runsTo_def)
qed

lemma runsTo_bind_Err:
  assumes "runsTo rep m v (Err e) v1"
  shows "runsTo rep (bindA m f) v (Err e) v1"
  using assms by (fastforce simp: runsTo_def)

lemma runsTo_try_Ok: "runsTo rep m v (Ok a) v' \<Longrightarrow> runsTo rep (tryA m) v (Ok (Ok a)) v'"
  by (fastforce simp: runsTo_def)

lemma runsTo_try_Err: "runsTo rep m v (Err e) v' \<Longrightarrow> runsTo rep (tryA m) v (Ok (Err e)) v'"
  by (fastforce simp: runsTo_def)

lemma runsTo_det:
  "\<lbrakk>runsTo rep m v r v'; rep s v\<rbrakk> \<Longrightarrow> \<exists>s'. m s = (r, s') \<and> rep s' v'"
  by (auto simp: runsTo_def)

locale cell_store =
  fixes rep :: "'s \<Rightarrow> (bytes \<Rightarrow> bytes option) \<Rightarrow> bool"
    and get :: "bytes \<Rightarrow> ('s, 'e, bytes option) action"
    and put :: "bytes \<Rightarrow> bytes \<Rightarrow> ('s, 'e, unit) action"
  assumes get_cell: "runsTo rep (get k) v (Ok (v k)) v"
    and put_cell: "runsTo rep (put k b) v (Ok ()) (v(k \<mapsto> b))"
begin

text \<open>Reading a cell through a decoder, and writing it through an encoder.\<close>

lemma read_decoded:
  assumes "v k = Some b" "dec b = Some x"
  shows "runsTo rep (bindA (get k) (\<lambda>value. case value of None \<Rightarrow> returnA None
       | Some b \<Rightarrow> (case dec b of None \<Rightarrow> raiseA e | Some x \<Rightarrow> returnA (Some x)))) v (Ok (Some x)) v"
  using assms by (intro runsTo_bind [OF get_cell]) (simp add: runsTo_return)

lemma read_absent:
  assumes "v k = None"
  shows "runsTo rep (bindA (get k) (\<lambda>value. case value of None \<Rightarrow> returnA None
       | Some b \<Rightarrow> (case dec b of None \<Rightarrow> raiseA e | Some x \<Rightarrow> returnA (Some x)))) v (Ok None) v"
  using assms by (intro runsTo_bind [OF get_cell]) (simp add: runsTo_return)

lemma write_encoded:
  assumes "enc x = Some b"
  shows "runsTo rep (case enc x of None \<Rightarrow> raiseA e | Some b \<Rightarrow> put k b) v (Ok ()) (v(k \<mapsto> b))"
  using assms by (simp add: put_cell)

end

definition cacheView :: "Crypto \<Rightarrow> (bytes \<rightharpoonup> dirtyVal) \<Rightarrow> (bytes \<rightharpoonup> bytes) \<Rightarrow> bytes \<Rightarrow> bytes option" where
  "cacheView cr d c k = (case d k of Some DNil \<Rightarrow> None | Some (DBytes b) \<Rightarrow> b | None \<Rightarrow> c (keccak cr k))"

definition dbrep :: "Crypto \<Rightarrow> (bytes \<rightharpoonup> bytes) \<Rightarrow> StoreDB \<Rightarrow> (bytes \<Rightarrow> bytes option) \<Rightarrow> bool" where
  "dbrep cr kv s v \<longleftrightarrow> sStore s = kv \<and>
     (\<exists>d st c. sCache s = Some d \<and> secureTrie s = Some st \<and>
        trieMap (trieOf (diskNode cr) st) c \<and> v = cacheView cr d c)"

lemma trieMap_trieOf:
  assumes "trieMap t c" "tDb t = node_db disk (stDb st)" "tDbWrite t = None"
  shows "trieMap (trieOf disk (st\<lparr>stRoot := tRoot t\<rparr>)) c"
proof -
  have "trieOf disk (st\<lparr>stRoot := tRoot t\<rparr>) = t" using assms(2,3) by (simp add: trieOf_def)
  then show ?thesis using assms(1) by simp
qed

lemma TryGet_s_ok:
  assumes "trieMap (trieOf disk st) c"
  shows "\<exists>root. TryGet_s kc disk st key = Some (c (kc key), None, st\<lparr>stRoot := root\<rparr>) \<and>
           trieMap (trieOf disk (st\<lparr>stRoot := root\<rparr>)) c"
proof -
  obtain t where t: "TryGet (trieOf disk st) (kc key) = Some (c (kc key), None, t)" "trieMap t c"
      "tDb t = tDb (trieOf disk st)" "tDbWrite t = tDbWrite (trieOf disk st)"
    using TryGet_ok [OF assms] by blast
  have "trieMap (trieOf disk (st\<lparr>stRoot := tRoot t\<rparr>)) c"
    by (rule trieMap_trieOf) (use t in \<open>simp_all add: trieOf_def\<close>)
  then show ?thesis using t(1) by (auto simp: TryGet_s_def)
qed

lemma Get_db_runsTo: "runsTo (dbrep cr kv) (Get_db cr k) v (Ok (v k)) v"
  unfolding runsTo_def
proof (intro allI impI)
  fix s
  assume "dbrep cr kv s v"
  then obtain d st c where s: "sStore s = kv" "sCache s = Some d" "secureTrie s = Some st"
      "trieMap (trieOf (diskNode cr) st) c" "v = cacheView cr d c" by (auto simp: dbrep_def)
  show "\<exists>s'. Get_db cr k s = (Ok (v k), s') \<and> dbrep cr kv s' v"
  proof (cases "d k")
    case None
    obtain root where root: "TryGet_s (keccak cr) (diskNode cr) st k =
        Some (c (keccak cr k), None, st\<lparr>stRoot := root\<rparr>)"
        "trieMap (trieOf (diskNode cr) (st\<lparr>stRoot := root\<rparr>)) c" using TryGet_s_ok [OF s(4)] by blast
    let ?s' = "(putTrie s (st\<lparr>stRoot := root\<rparr>))\<lparr>sCache := Some (d(k \<mapsto> DBytes (c (keccak cr k))))\<rparr>"
    have "Get_db cr k s = (Ok (v k), ?s')"
      using s root(1) None by (simp add: Get_db_def Get_ts_def trieGet_def cacheView_def)
    moreover have "v = cacheView cr (d(k \<mapsto> DBytes (c (keccak cr k)))) c"
      using s(5) None by (auto simp: cacheView_def fun_eq_iff)
    moreover have "secureTrie ?s' = Some (st\<lparr>stRoot := root\<rparr>)"
      by (simp add: secureTrie_def putTrie_def)
    ultimately show ?thesis using s(1) root(2) by (auto simp: dbrep_def putTrie_def)
  next
    case (Some x)
    then have "Get_db cr k s = (Ok (v k), s)"
      using s by (cases x) (simp_all add: Get_db_def Get_ts_def cacheView_def)
    then show ?thesis using \<open>dbrep cr kv s v\<close> by blast
  qed
qed

lemma Put_db_runsTo: "runsTo (dbrep cr kv) (Put_db cr k b) v (Ok ()) (v(k \<mapsto> b))"
  unfolding runsTo_def
proof (intro allI impI)
  fix s
  assume "dbrep cr kv s v"
  then obtain d st c where s: "sStore s = kv" "sCache s = Some d" "secureTrie s = Some st"
      "trieMap (trieOf (diskNode cr) st) c" "v = cacheView cr d c" by (auto simp: dbrep_def)
  have v: "v(k \<mapsto> b) = cacheView cr (d(k \<mapsto> DBytes (Some b))) c"
    using s(5) by (auto simp: cacheView_def fun_eq_iff)
  have "dbrep cr kv (s\<lparr>sCache := Some (d(k \<mapsto> DBytes (Some b)))\<rparr>) (v(k \<mapsto> b))"
    unfolding dbrep_def v using s(1,3,4)
    by (intro conjI exI [of _ "d(k \<mapsto> DBytes (Some b))"] exI [of _ st] exI [of _ c])
      (simp_all add: secureTrie_def)
  then show "\<exists>s'. Put_db cr k b s = (Ok (), s') \<and> dbrep cr kv s' (v(k \<mapsto> b))"
    using s(2) by (simp add: Put_db_def)
qed

interpretation state_db: cell_store "dbrep cr kv" "Get_db cr" "Put_db cr" for cr kv
  by unfold_locales (rule Get_db_runsTo Put_db_runsTo)+

end
