(* ===== verification/AccountStore.thy ===== *)
theory AccountStore
  imports StoreDB
begin

section \<open>The account store\<close>

text \<open>
  \<^verbatim>\<open>chain/store/accountstore.go\<close> with \<^verbatim>\<open>types/account.go\<close>. Every operation reads or writes
  one cell of the state database: the account of an address under the hash of
  \<^verbatim>\<open>AddressStorage\<close> and the address string, an alias under \<^verbatim>\<open>alias\<close> and its name. The
  external binary codec is a parameter.
\<close>

record Storage =
  sBalance :: int
  sReputation :: int
  sNonce :: u64
  sByteCode :: bytes
  sCodeHash :: hash
  sAlias :: bytes
  sBalanceMap :: "(bytes \<times> int) list"

definition emptyStorage :: Storage where
  "emptyStorage = \<lparr>sBalance = 0, sReputation = 0, sNonce = 0, sByteCode = [], sCodeHash = ZeroHash,
     sAlias = [], sBalanceMap = []\<rparr>"

record HeightValue =
  CreditHeight :: u64
  CreditValue :: int

record ReceivedCredit =
  rcAddr :: address
  HeightValues :: "HeightValue list"

record CancelCredit =
  CancelCreditHeight :: u64
  CancelCreditValue :: "int list"

record StakeStorage =
  RC :: "ReceivedCredit list"
  CC :: "CancelCredit list"
  CandidateBytes :: bytes

definition emptyStake :: StakeStorage where
  "emptyStake = \<lparr>RC = [], CC = [], CandidateBytes = []\<rparr>"

record CandidateData =
  cdPubkey :: "bytes option"
  cdNode :: bytes

text \<open>
  The codecs: \<^verbatim>\<open>binary.Marshal\<close> and \<^verbatim>\<open>binary.Unmarshal\<close> at the stored types, and
  \<^verbatim>\<open>CandidateData.Unmarshal\<close>, whose JSON and node-URL parsing is external.
\<close>

record Env =
  crypto :: Crypto
  encStorage :: "Storage \<Rightarrow> bytes option"
  decStorage :: "bytes \<Rightarrow> Storage option"
  encStake :: "StakeStorage \<Rightarrow> bytes option"
  decStake :: "bytes \<Rightarrow> StakeStorage option"
  encAddrs :: "address list \<Rightarrow> bytes option"
  decAddrs :: "bytes \<Rightarrow> address list option"
  candUnmarshal :: "bytes \<Rightarrow> CandidateData option"
  candMarshal :: "CandidateData \<Rightarrow> bytes option"

definition ascii :: "string \<Rightarrow> bytes" where
  "ascii cs = map (\<lambda>c. of_nat (of_char c)) cs"

definition AddressStorage :: bytes where "AddressStorage = ascii ''AddressStorage''"
definition AliasPrefix :: bytes where "AliasPrefix = ascii ''alias''"

definition acctKey :: "Env \<Rightarrow> address \<Rightarrow> bytes" where
  "acctKey env addr = keccak (crypto env) (AddressStorage @ addrHex (keccak (crypto env)) addr)"

type_synonym 'a storeAction = "(StoreDB, chainError, 'a) action"

definition GetStorage :: "Env \<Rightarrow> address \<Rightarrow> Storage option storeAction" where
  "GetStorage env addr =
     bindA (Get_db (crypto env) (acctKey env addr)) (\<lambda>value.
       case value of
         None \<Rightarrow> returnA None
       | Some b \<Rightarrow> (case decStorage env b of None \<Rightarrow> raiseA ErrDecode | Some x \<Rightarrow> returnA (Some x)))"

definition DeleteStorage :: "Env \<Rightarrow> address \<Rightarrow> unit storeAction" where
  "DeleteStorage env addr = Delete_db (crypto env) (acctKey env addr)"

definition PutStorage :: "Env \<Rightarrow> address \<Rightarrow> Storage \<Rightarrow> unit storeAction" where
  "PutStorage env addr storage =
     (case encStorage env storage of
        None \<Rightarrow> raiseA ErrEncode
      | Some b \<Rightarrow> Put_db (crypto env) (acctKey env addr) b)"

text \<open>\<^verbatim>\<open>storage, _ := GetStorage(addr)\<close>: an error leaves nil.\<close>

definition lookupStorage :: "Env \<Rightarrow> address \<Rightarrow> Storage option storeAction" where
  "lookupStorage env addr =
     bindA (tryA (GetStorage env addr)) (\<lambda>r. returnA (case r of Ok x \<Rightarrow> x | _ \<Rightarrow> None))"

definition GetBalance_a :: "Env \<Rightarrow> address \<Rightarrow> int storeAction" where
  "GetBalance_a env addr =
     bindA (lookupStorage env addr) (\<lambda>st. returnA (case st of None \<Rightarrow> 0 | Some x \<Rightarrow> sBalance x))"

definition PutBalance_a :: "Env \<Rightarrow> address \<Rightarrow> int \<Rightarrow> unit storeAction" where
  "PutBalance_a env addr balance =
     bindA (lookupStorage env addr) (\<lambda>st.
       PutStorage env addr ((case st of None \<Rightarrow> emptyStorage | Some x \<Rightarrow> x)\<lparr>sBalance := balance\<rparr>))"

definition GetNonce :: "Env \<Rightarrow> address \<Rightarrow> u64 storeAction" where
  "GetNonce env addr =
     bindA (lookupStorage env addr) (\<lambda>st. returnA (case st of None \<Rightarrow> 0 | Some x \<Rightarrow> sNonce x))"

definition PutNonce :: "Env \<Rightarrow> address \<Rightarrow> u64 \<Rightarrow> unit storeAction" where
  "PutNonce env addr nonce =
     bindA (lookupStorage env addr) (\<lambda>st.
       PutStorage env addr ((case st of None \<Rightarrow> emptyStorage | Some x \<Rightarrow> x)\<lparr>sNonce := nonce\<rparr>))"

definition GetStorageAlias :: "Env \<Rightarrow> address \<Rightarrow> bytes storeAction" where
  "GetStorageAlias env addr =
     bindA (lookupStorage env addr) (\<lambda>st. returnA (case st of None \<Rightarrow> [] | Some x \<Rightarrow> sAlias x))"

definition setStorageAlias :: "Env \<Rightarrow> address \<Rightarrow> bytes \<Rightarrow> unit storeAction" where
  "setStorageAlias env addr alias =
     bindA (lookupStorage env addr) (\<lambda>st.
       PutStorage env addr ((case st of None \<Rightarrow> emptyStorage | Some x \<Rightarrow> x)\<lparr>sAlias := alias\<rparr>))"

definition AliasPut :: "Env \<Rightarrow> bytes \<Rightarrow> bytes \<Rightarrow> unit storeAction" where
  "AliasPut env alias value = Put_db (crypto env) (AliasPrefix @ alias) value"

definition AliasGet :: "Env \<Rightarrow> bytes \<Rightarrow> address storeAction" where
  "AliasGet env alias =
     bindA (Get_db (crypto env) (AliasPrefix @ alias)) (\<lambda>buf.
       returnA (BytesToAddress (case buf of None \<Rightarrow> [] | Some b \<Rightarrow> b)))"

definition AliasExist :: "Env \<Rightarrow> bytes \<Rightarrow> bool storeAction" where
  "AliasExist env alias =
     bindA (tryA (Get_db (crypto env) (AliasPrefix @ alias))) (\<lambda>r.
       returnA (case r of Ok (Some _) \<Rightarrow> True | _ \<Rightarrow> False))"

definition AliasSet :: "Env \<Rightarrow> address \<Rightarrow> bytes \<Rightarrow> unit storeAction" where
  "AliasSet env addr alias =
     (if alias \<noteq> [] then
        bindA (AliasExist env alias) (\<lambda>b.
          if b then raiseA ErrUsedAlias
          else bindA (AliasPut env alias addr) (\<lambda>_. setStorageAlias env addr alias))
      else raiseA ErrInvalidateAlias)"

definition GetByteCode :: "Env \<Rightarrow> address \<Rightarrow> bytes storeAction" where
  "GetByteCode env addr =
     bindA (lookupStorage env addr) (\<lambda>st. returnA (case st of None \<Rightarrow> [] | Some x \<Rightarrow> sByteCode x))"

definition PutByteCode :: "Env \<Rightarrow> address \<Rightarrow> bytes \<Rightarrow> unit storeAction" where
  "PutByteCode env addr byteCode =
     bindA (lookupStorage env addr) (\<lambda>st.
       case Bytes2Hash (Some (keccak (crypto env) byteCode)) of
         None \<Rightarrow> (\<lambda>s. (Panic, s))
       | Some h \<Rightarrow> PutStorage env addr ((case st of None \<Rightarrow> emptyStorage | Some x \<Rightarrow> x)
                     \<lparr>sByteCode := byteCode, sCodeHash := h\<rparr>))"

definition GetCodeHash :: "Env \<Rightarrow> address \<Rightarrow> hash storeAction" where
  "GetCodeHash env addr =
     bindA (lookupStorage env addr) (\<lambda>st. returnA (case st of None \<Rightarrow> ZeroHash | Some x \<Rightarrow> sCodeHash x))"

definition GetReputation :: "Env \<Rightarrow> address \<Rightarrow> int storeAction" where
  "GetReputation env addr =
     bindA (lookupStorage env addr) (\<lambda>st. returnA (case st of None \<Rightarrow> 0 | Some x \<Rightarrow> sReputation x))"

definition AddBalance_a :: "Env \<Rightarrow> address \<Rightarrow> int \<Rightarrow> unit storeAction" where
  "AddBalance_a env addr amount =
     bindA (GetBalance_a env addr) (\<lambda>balance. PutBalance_a env addr (balance + amount))"

definition SubBalance_a :: "Env \<Rightarrow> address \<Rightarrow> int \<Rightarrow> unit storeAction" where
  "SubBalance_a env addr amount =
     bindA (GetBalance_a env addr) (\<lambda>balance. PutBalance_a env addr (balance - amount))"

definition storageIsEmpty :: "Env \<Rightarrow> Storage \<Rightarrow> bool" where
  "storageIsEmpty env st = (sNonce st = 0 \<and> sBalance st = 0 \<and> sCodeHash st = keccak (crypto env) [])"

end
