(* ===== verification/StakeStore.thy ===== *)
theory StakeStore
  imports AccountStore
begin

section \<open>The stake store\<close>

text \<open>
  \<^verbatim>\<open>chain/store/stakestore.go\<close> with \<^verbatim>\<open>types/stake.go\<close>. The stake of an address is the list of
  credits it received (per voter, each with the height it was given at) and the list of
  credits it has cancelled and that wait to be paid back. Addresses are compared by their
  strings, as the code does. The nil checks on address arguments are left out: every
  caller passes the address of a value.
\<close>

definition StakeStorageName :: bytes where "StakeStorageName = ascii ''StakeStorage''"
definition CandidateAddrs :: bytes where "CandidateAddrs = ascii ''CandidateAddrs''"

definition RegisterPledgeLimit :: int where "RegisterPledgeLimit = 50000000"

definition pledgeLimit :: int where "pledgeLimit = RegisterPledgeLimit * Coin"

definition stakeKey :: "Env \<Rightarrow> address \<Rightarrow> bytes" where
  "stakeKey env addr = keccak (crypto env) (StakeStorageName @ addrHex (keccak (crypto env)) addr)"

definition sameAddr :: "Env \<Rightarrow> address \<Rightarrow> address \<Rightarrow> bool" where
  "sameAddr env a b = (addrHex (keccak (crypto env)) a = addrHex (keccak (crypto env)) b)"

definition getStakeStorage :: "Env \<Rightarrow> address \<Rightarrow> StakeStorage option storeAction" where
  "getStakeStorage env addr =
     bindA (Get_db (crypto env) (stakeKey env addr)) (\<lambda>value.
       case value of
         None \<Rightarrow> returnA None
       | Some b \<Rightarrow> (case decStake env b of None \<Rightarrow> raiseA ErrDecode | Some x \<Rightarrow> returnA (Some x)))"

definition putStakeStorage :: "Env \<Rightarrow> address \<Rightarrow> StakeStorage \<Rightarrow> unit storeAction" where
  "putStakeStorage env addr storage =
     (case encStake env storage of
        None \<Rightarrow> raiseA ErrEncode
      | Some b \<Rightarrow> Put_db (crypto env) (stakeKey env addr) b)"

definition DelStakeStorage :: "Env \<Rightarrow> address \<Rightarrow> unit storeAction" where
  "DelStakeStorage env addr = Delete_db (crypto env) (stakeKey env addr)"

definition lookupStake :: "Env \<Rightarrow> address \<Rightarrow> StakeStorage option storeAction" where
  "lookupStake env addr =
     bindA (tryA (getStakeStorage env addr)) (\<lambda>r. returnA (case r of Ok x \<Rightarrow> x | _ \<Rightarrow> None))"

subsection \<open>The list of candidates\<close>

definition GetCandidateAddrs :: "Env \<Rightarrow> address list storeAction" where
  "GetCandidateAddrs env =
     bindA (Get_db (crypto env) CandidateAddrs) (\<lambda>buf.
       case buf of
         None \<Rightarrow> returnA []
       | Some b \<Rightarrow> (case decAddrs env b of None \<Rightarrow> raiseA ErrDecode | Some x \<Rightarrow> returnA x))"

text \<open>
  Deletion ranges over the original slice while \<^verbatim>\<open>append\<close> shifts the elements of the same
  array down: \<open>arr\<close> is the array, \<open>len\<close> the length of the shortened slice, and a match past
  it panics.
\<close>

fun delAddrLoop :: "Env \<Rightarrow> address \<Rightarrow> nat \<Rightarrow> nat \<Rightarrow> address list \<Rightarrow> nat \<Rightarrow> (address list \<times> nat) option" where
  "delAddrLoop env addr 0 i arr len = Some (arr, len)"
| "delAddrLoop env addr (Suc k) i arr len =
     (if sameAddr env (arr ! i) addr then
        if i + 1 \<le> len then
          delAddrLoop env addr k (i + 1)
            (take i arr @ take (len - (i + 1)) (drop (i + 1) arr) @ drop (len - 1) arr) (len - 1)
        else None
      else delAddrLoop env addr k (i + 1) arr len)"

definition UpdateCandidateAddr :: "Env \<Rightarrow> address \<Rightarrow> bool \<Rightarrow> unit storeAction" where
  "UpdateCandidateAddr env addr add =
     bindA (GetCandidateAddrs env) (\<lambda>addrs.
       let write = (\<lambda>xs. case encAddrs env xs of
             None \<Rightarrow> raiseA ErrEncode
           | Some b \<Rightarrow> bindA (tryA (Put_db (crypto env) CandidateAddrs b)) (\<lambda>_. returnA ()))
       in if add then
            if \<exists>x\<in>set addrs. sameAddr env x addr then returnA () else write (addrs @ [addr])
          else if length addrs = 0 then returnA ()
          else (case delAddrLoop env addr (length addrs) 0 addrs (length addrs) of
                  None \<Rightarrow> (\<lambda>s. (Panic, s))
                | Some (arr, len) \<Rightarrow> write (take len arr)))"

definition AddCandidateAddr :: "Env \<Rightarrow> address \<Rightarrow> unit storeAction" where
  "AddCandidateAddr env addr = UpdateCandidateAddr env addr True"

definition DelCandidateAddr :: "Env \<Rightarrow> address \<Rightarrow> unit storeAction" where
  "DelCandidateAddr env addr = UpdateCandidateAddr env addr False"

definition GetCandidateData :: "Env \<Rightarrow> address \<Rightarrow> bytes storeAction" where
  "GetCandidateData env addr =
     bindA (lookupStake env addr) (\<lambda>st.
       case st of None \<Rightarrow> raiseA (ErrMsg ''addr stake no exist'') | Some x \<Rightarrow> returnA (CandidateBytes x))"

subsection \<open>Giving credit\<close>

text \<open>The first entry of the voter gets the new value; \<open>None\<close> when there is no entry.\<close>

fun addCredit :: "Env \<Rightarrow> address \<Rightarrow> HeightValue \<Rightarrow> ReceivedCredit list \<Rightarrow> ReceivedCredit list option" where
  "addCredit env from hv [] = None"
| "addCredit env from hv (rc # rcs) =
     (if sameAddr env (rcAddr rc) from then Some (rc\<lparr>HeightValues := HeightValues rc @ [hv]\<rparr> # rcs)
      else map_option ((#) rc) (addCredit env from hv rcs))"

definition withCredit :: "Env \<Rightarrow> address \<Rightarrow> HeightValue \<Rightarrow> ReceivedCredit list \<Rightarrow> ReceivedCredit list" where
  "withCredit env from hv rcs =
     (case addCredit env from hv rcs of
        Some rcs' \<Rightarrow> rcs'
      | None \<Rightarrow> rcs @ [\<lparr>rcAddr = from, HeightValues = [hv]\<rparr>])"

definition VoteCredit :: "Env \<Rightarrow> address \<Rightarrow> address \<Rightarrow> int \<Rightarrow> u64 \<Rightarrow> unit storeAction" where
  "VoteCredit env from to addBalance height =
     (if sameAddr env from to then raiseA (ErrMsg ''from euqal to addr'')
      else bindA (lookupStake env to) (\<lambda>st.
        let storage = (case st of None \<Rightarrow> emptyStake | Some x \<Rightarrow> x);
            hv = \<lparr>CreditHeight = height, CreditValue = addBalance\<rparr>
        in putStakeStorage env to (storage\<lparr>RC := withCredit env from hv (RC storage)\<rparr>)))"

definition creditTotal :: "HeightValue list \<Rightarrow> int" where
  "creditTotal hvs = sum_list (map CreditValue hvs)"

definition ownCredit :: "Env \<Rightarrow> address \<Rightarrow> ReceivedCredit list \<Rightarrow> int" where
  "ownCredit env addr rcs =
     (case List.find (\<lambda>rc. sameAddr env (rcAddr rc) addr) rcs of
        None \<Rightarrow> 0 | Some rc \<Rightarrow> creditTotal (HeightValues rc))"

definition CandidateCredit :: "Env \<Rightarrow> address \<Rightarrow> int option \<Rightarrow> bytes \<Rightarrow> u64 \<Rightarrow> unit storeAction" where
  "CandidateCredit env addr addBalance data height =
     bindA (lookupStake env addr) (\<lambda>st.
       let storage = (case st of None \<Rightarrow> emptyStake | Some x \<Rightarrow> x);
           storage1 = (case addBalance of None \<Rightarrow> storage
             | Some v \<Rightarrow> storage\<lparr>RC := withCredit env addr \<lparr>CreditHeight = height, CreditValue = v\<rparr> (RC storage)\<rparr>);
           enough = (case addBalance of None \<Rightarrow> False
             | Some v \<Rightarrow> v + ownCredit env addr (RC storage) \<ge> pledgeLimit)
       in bindA (if enough then tryA (AddCandidateAddr env addr) else returnA (Ok ())) (\<lambda>_.
          case candUnmarshal env data of
            None \<Rightarrow> raiseA ErrDecode
          | Some cd \<Rightarrow>
              let data' = (case candMarshal env cd of None \<Rightarrow> [] | Some b \<Rightarrow> b);
                  storage2 = (if length data' > 0 then storage1\<lparr>CandidateBytes := data'\<rparr> else storage1)
              in if addBalance \<noteq> None \<or> length data' > 0 then putStakeStorage env addr storage2
                 else raiseA (ErrMsg ''candidate credit param err'')))"

subsection \<open>Taking credit back\<close>

text \<open>
  The values are taken oldest first: whole values while they fit, then a part of the next
  one. The result is what was taken, with its heights, and the values left (\<open>None\<close> when the
  loop runs to its end, which leaves the list as it was).
\<close>

fun cancelLoop :: "int \<Rightarrow> HeightValue list \<Rightarrow> HeightValue list \<times> HeightValue list option" where
  "cancelLoop tmp [] = ([], None)"
| "cancelLoop tmp (hv # hvs) =
     (if tmp \<ge> CreditValue hv then
        if tmp - CreditValue hv = 0 then ([hv], Some hvs)
        else let (prin, left) = cancelLoop (tmp - CreditValue hv) hvs in (hv # prin, left)
      else ([hv\<lparr>CreditValue := tmp\<rparr>], Some (hv\<lparr>CreditValue := CreditValue hv - tmp\<rparr> # hvs)))"

datatype cancelResult = CancelNotFound | CancelNotEnough
  | CancelDone (cancelLeft: int) (cancelPrincipal: "HeightValue list") (cancelRest: "ReceivedCredit list")

fun cancelRC :: "Env \<Rightarrow> address \<Rightarrow> int \<Rightarrow> ReceivedCredit list \<Rightarrow> cancelResult" where
  "cancelRC env from amount [] = CancelNotFound"
| "cancelRC env from amount (rc # rcs) =
     (if sameAddr env (rcAddr rc) from then
        if creditTotal (HeightValues rc) \<ge> amount then
          let (prin, left) = cancelLoop amount (HeightValues rc);
              hvs = (case left of None \<Rightarrow> HeightValues rc | Some l \<Rightarrow> l)
          in CancelDone (creditTotal (HeightValues rc) - amount) prin
               (if length hvs = 0 then rcs else rc\<lparr>HeightValues := hvs\<rparr> # rcs)
        else CancelNotEnough
      else (case cancelRC env from amount rcs of
              CancelDone l p r \<Rightarrow> CancelDone l p (rc # r) | other \<Rightarrow> other))"

fun addCancel :: "u64 \<Rightarrow> int \<Rightarrow> CancelCredit list \<Rightarrow> CancelCredit list" where
  "addCancel height amount [] = [\<lparr>CancelCreditHeight = height, CancelCreditValue = [amount]\<rparr>]"
| "addCancel height amount (cc # ccs) =
     (if CancelCreditHeight cc = height
      then cc\<lparr>CancelCreditValue := CancelCreditValue cc @ [amount]\<rparr> # ccs
      else cc # addCancel height amount ccs)"

definition cancelCredit :: "Env \<Rightarrow> address \<Rightarrow> address \<Rightarrow> int \<Rightarrow> u64 \<Rightarrow>
    (int \<Rightarrow> StakeStorage \<Rightarrow> StakeStorage storeAction) \<Rightarrow> HeightValue list storeAction" where
  "cancelCredit env from to amount height f =
     bindA (lookupStake env to) (\<lambda>st.
       case st of
         None \<Rightarrow> raiseA (ErrMsg ''not exist vote credit'')
       | Some storage \<Rightarrow>
           (case cancelRC env from amount (RC storage) of
              CancelNotFound \<Rightarrow> raiseA (ErrMsg ''not exist vote credit'')
            | CancelNotEnough \<Rightarrow> raiseA (ErrMsg ''vote credit not enough'')
            | CancelDone left prin rcs \<Rightarrow>
                bindA (f left (storage\<lparr>RC := rcs\<rparr>)) (\<lambda>storage2.
                bindA (putStakeStorage env from
                         (storage2\<lparr>CC := addCancel height amount (CC storage2)\<rparr>)) (\<lambda>_.
                  returnA prin))))"

definition CancelVoteCredit_s :: "Env \<Rightarrow> address \<Rightarrow> address \<Rightarrow> int \<Rightarrow> u64 \<Rightarrow> HeightValue list storeAction" where
  "CancelVoteCredit_s env from to amount height =
     (if sameAddr env from to then raiseA (ErrMsg ''from euqal to addr'')
      else if amount \<le> 0 then raiseA (ErrMsg ''cancel credit value <= 0'')
      else cancelCredit env from to amount height (\<lambda>_ storage.
        bindA (putStakeStorage env to storage) (\<lambda>_.
        bindA (lookupStake env from) (\<lambda>st.
          returnA (case st of None \<Rightarrow> emptyStake | Some x \<Rightarrow> x)))))"

definition CancelCandidateCredit_s :: "Env \<Rightarrow> address \<Rightarrow> int \<Rightarrow> u64 \<Rightarrow> HeightValue list storeAction" where
  "CancelCandidateCredit_s env from amount height =
     cancelCredit env from from amount height (\<lambda>left storage.
       bindA (if left < pledgeLimit then tryA (DelCandidateAddr env from) else returnA (Ok ()))
         (\<lambda>_. returnA storage))"

subsection \<open>Paying cancelled credit back\<close>

definition cancelDue :: "u64 \<Rightarrow> u64 \<Rightarrow> CancelCredit \<Rightarrow> bool" where
  "cancelDue height interval cc = (height \<ge> CancelCreditHeight cc + interval)"

definition cancelTotal :: "CancelCredit list \<Rightarrow> int" where
  "cancelTotal ccs = sum_list (map (\<lambda>cc. sum_list (CancelCreditValue cc)) ccs)"

definition GetCancelCreditForBalance :: "Env \<Rightarrow> address \<Rightarrow> u64 \<Rightarrow> u64 \<Rightarrow> int storeAction" where
  "GetCancelCreditForBalance env addr height interval =
     bindA (lookupStake env addr) (\<lambda>st.
       returnA (case st of None \<Rightarrow> 0
         | Some x \<Rightarrow> cancelTotal (filter (cancelDue height interval) (CC x))))"

definition CancelCreditToBalance :: "Env \<Rightarrow> address \<Rightarrow> u64 \<Rightarrow> u64 \<Rightarrow> int storeAction" where
  "CancelCreditToBalance env addr height interval =
     bindA (lookupStake env addr) (\<lambda>st.
       case st of
         None \<Rightarrow> returnA 0
       | Some x \<Rightarrow>
           bindA (tryA (putStakeStorage env addr
                    (x\<lparr>CC := filter (\<lambda>cc. \<not> cancelDue height interval cc) (CC x)\<rparr>))) (\<lambda>r.
             returnA (case r of Ok _ \<Rightarrow> cancelTotal (filter (cancelDue height interval) (CC x)) | _ \<Rightarrow> 0)))"

definition GetCreditCount :: "Env \<Rightarrow> address \<Rightarrow> int storeAction" where
  "GetCreditCount env addr =
     bindA (lookupStake env addr) (\<lambda>st.
       returnA (case st of None \<Rightarrow> 0
         | Some x \<Rightarrow> sum_list (map (\<lambda>rc. creditTotal (HeightValues rc)) (RC x))))"

fun creditDetails :: "ReceivedCredit list \<Rightarrow> (address \<rightharpoonup> int) \<Rightarrow> (address \<rightharpoonup> int)" where
  "creditDetails [] m = m"
| "creditDetails (rc # rcs) m = creditDetails rcs (m(rcAddr rc \<mapsto> creditTotal (HeightValues rc)))"

definition GetCreditDetails :: "Env \<Rightarrow> address \<Rightarrow> (address \<rightharpoonup> int) storeAction" where
  "GetCreditDetails env addr =
     bindA (lookupStake env addr) (\<lambda>st.
       returnA (case st of None \<Rightarrow> Map.empty | Some x \<Rightarrow> creditDetails (RC x) Map.empty))"

end
