(* ===== verification/Store.thy ===== *)
theory Store
  imports StakeStore
begin

section \<open>The store of the chain state\<close>

text \<open>
  \<^verbatim>\<open>chain/store/store.go\<close>: balances seen through the stake. Cancelled credit that is due at
  the given height counts as balance, and every write of a balance first pays it out.
\<close>

definition ChangeInterval :: bytes where "ChangeInterval = ascii ''changeInterval''"

definition bigEndian64 :: "bytes \<Rightarrow> u64" where
  "bigEndian64 b = foldl (\<lambda>a x. a * 256 + ucast x) 0 (take 8 b)"

definition GetChangeInterval :: "u64 storeAction" where
  "GetChangeInterval s =
     (case sStore s ChangeInterval of
        None \<Rightarrow> (Err ErrNotFound, s)
      | Some value \<Rightarrow> if length value < 8 then (Err ErrDecode, s) else (Ok (bigEndian64 value * 100), s))"

definition CancelCandidateCredit :: "Env \<Rightarrow> address \<Rightarrow> int \<Rightarrow> u64 \<Rightarrow> HeightValue list storeAction" where
  "CancelCandidateCredit env from amount height =
     bindA GetChangeInterval (\<lambda>_. CancelCandidateCredit_s env from amount height)"

definition CancelVoteCredit :: "Env \<Rightarrow> address \<Rightarrow> address \<Rightarrow> int \<Rightarrow> u64 \<Rightarrow> HeightValue list storeAction" where
  "CancelVoteCredit env from to amount height =
     bindA GetChangeInterval (\<lambda>_. CancelVoteCredit_s env from to amount height)"

text \<open>
  \<^verbatim>\<open>AddBalance\<close> adds the paid-out credit to the caller's \<^verbatim>\<open>amount\<close> in place; the result is
  the value the caller's variable has afterwards.
\<close>

definition AddBalance :: "Env \<Rightarrow> address \<Rightarrow> u64 \<Rightarrow> int \<Rightarrow> int storeAction" where
  "AddBalance env addr height amount =
     bindA GetChangeInterval (\<lambda>ci.
     bindA (CancelCreditToBalance env addr height ci) (\<lambda>voteCredit.
     bindA (AddBalance_a env addr (amount + voteCredit)) (\<lambda>_.
       returnA (amount + voteCredit))))"

definition SubBalance :: "Env \<Rightarrow> address \<Rightarrow> u64 \<Rightarrow> int \<Rightarrow> unit storeAction" where
  "SubBalance env addr height amount =
     bindA GetChangeInterval (\<lambda>ci.
     bindA (CancelCreditToBalance env addr height ci) (\<lambda>voteCredit.
     bindA (AddBalance_a env addr voteCredit) (\<lambda>_.
       SubBalance_a env addr amount)))"

text \<open>An error of the change interval makes \<^verbatim>\<open>GetBalance\<close> return nil.\<close>

definition GetBalance :: "Env \<Rightarrow> address \<Rightarrow> u64 \<Rightarrow> int option storeAction" where
  "GetBalance env addr height =
     bindA (tryA GetChangeInterval) (\<lambda>r.
       case r of
         Ok ci \<Rightarrow>
           bindA (GetCancelCreditForBalance env addr height ci) (\<lambda>credit.
           bindA (GetBalance_a env addr) (\<lambda>b. returnA (Some (credit + b))))
       | _ \<Rightarrow> returnA None)"

definition PutBalance :: "Env \<Rightarrow> address \<Rightarrow> u64 \<Rightarrow> int \<Rightarrow> unit storeAction" where
  "PutBalance env addr height balance =
     bindA (if height \<noteq> 0 then
              bindA GetChangeInterval (\<lambda>ci.
              bindA (CancelCreditToBalance env addr height ci) (\<lambda>voteCredit.
                AddBalance_a env addr voteCredit))
            else returnA ())
       (\<lambda>_. PutBalance_a env addr balance)"

definition GetStateRoot :: "Env \<Rightarrow> bytes list \<Rightarrow> hash storeAction" where
  "GetStateRoot env order = bindA (Flush_db (crypto env) order) (\<lambda>_. getStateRoot (crypto env))"

definition TrieStoreFromStore :: "Env \<Rightarrow> (bytes \<rightharpoonup> bytes) \<Rightarrow> bytes option \<Rightarrow> (chainError, StoreDB) res" where
  "TrieStoreFromStore env diskDB stateRoot =
     (case RecoverTrie_db (crypto env) stateRoot
             \<lparr>sStore = diskDB, sCache = None, sTrie = None, sTrieDb = NewDatabase\<rparr> of
        (Ok True, s) \<Rightarrow> Ok s
      | (Ok False, s) \<Rightarrow> Err ErrRecoverRoot
      | (Err e, s) \<Rightarrow> Err e
      | (Panic, s) \<Rightarrow> Panic)"

text \<open>The method \<^verbatim>\<open>Empty\<close> of the store calls itself.\<close>

partial_function (option) Empty_st :: "address \<Rightarrow> bool option" where
  "Empty_st addr = Empty_st addr"

subsection \<open>Interest rates\<close>

definition interestRate :: u64 where "interestRate = 1000000 * 12"
definition threeMonthHeight :: u64 where "threeMonthHeight = 1555200"
definition sixMonthHeight :: u64 where "sixMonthHeight = 3110400"
definition oneYearHeight :: u64 where "oneYearHeight = 6220800"

definition rateOf :: "u64 \<Rightarrow> u64 \<Rightarrow> u64" where
  "rateOf heights rate = word_of_int (uint (heights * 100) div uint rate)"

definition GetInterestRate :: "u64 \<times> u64 \<times> u64 \<times> u64" where
  "GetInterestRate =
     (rateOf threeMonthHeight (interestRate * 8) * (12 div 3),
      rateOf sixMonthHeight (interestRate * 4) * (12 div 6),
      rateOf oneYearHeight (interestRate * 2) * (12 div 12),
      rateOf oneYearHeight interestRate)"

end
