(* ===== verification/StoreSem.thy ===== *)
theory StoreSem
  imports Store
begin

section \<open>The ledger a store represents\<close>

text \<open>
  The abstract state behind the store: for the addresses of a set \<open>A\<close> an account and a stake,
  the list of candidates, the aliases and the change interval. \<open>ledgerRep env A s L\<close> relates a
  state database to it through the keys and codecs, and the lemmas below state each
  operation of the store as a transition of the ledger.
\<close>

record Ledger =
  lAcct :: "address \<Rightarrow> Storage option"
  lStake :: "address \<Rightarrow> StakeStorage option"
  lCands :: "address list"
  lAlias :: "bytes \<Rightarrow> bytes option"
  lInterval :: u64

text \<open>
  What the store relies on: the codec reads back what it wrote, hashes have 32 bytes, and
  the keys of the accounts and stakes in \<open>A\<close> do not collide.
\<close>

definition envOK :: "Env \<Rightarrow> address set \<Rightarrow> bool" where
  "envOK env A \<longleftrightarrow>
     (\<forall>x. \<exists>b. encStorage env x = Some b \<and> decStorage env b = Some x) \<and>
     (\<forall>x. \<exists>b. encStake env x = Some b \<and> decStake env b = Some x) \<and>
     (\<forall>x. \<exists>b. encAddrs env x = Some b \<and> decAddrs env b = Some x) \<and>
     (\<forall>x. length (keccak (crypto env) x) = HashLength) \<and>
     (\<forall>a\<in>A. length a = AddressLength) \<and>
     inj_on (acctKey env) A \<and> inj_on (stakeKey env) A \<and>
     (\<forall>a\<in>A. \<forall>b\<in>A. acctKey env a \<noteq> stakeKey env b)"

definition cell :: "(bytes \<Rightarrow> 'x option) \<Rightarrow> bytes option \<Rightarrow> 'x option \<Rightarrow> bool" where
  "cell dec r x \<longleftrightarrow> (case r of None \<Rightarrow> x = None | Some b \<Rightarrow> dec b = x \<and> x \<noteq> None)"

definition ledgerCells :: "Env \<Rightarrow> address set \<Rightarrow> (bytes \<Rightarrow> bytes option) \<Rightarrow> Ledger \<Rightarrow> bool" where
  "ledgerCells env A v L \<longleftrightarrow>
     (\<forall>a\<in>A. cell (decStorage env) (v (acctKey env a)) (lAcct L a)) \<and>
     (\<forall>a\<in>A. cell (decStake env) (v (stakeKey env a)) (lStake L a)) \<and>
     (case v CandidateAddrs of None \<Rightarrow> lCands L = [] | Some b \<Rightarrow> decAddrs env b = Some (lCands L)) \<and>
     (\<forall>al. length al \<le> 20 \<longrightarrow> lAlias L al = v (AliasPrefix @ al))"

definition ledgerRep :: "Env \<Rightarrow> address set \<Rightarrow> StoreDB \<Rightarrow> Ledger \<Rightarrow> bool" where
  "ledgerRep env A s L \<longleftrightarrow>
     (\<exists>kv v ci. dbrep (crypto env) kv s v \<and> kv ChangeInterval = Some ci \<and> 8 \<le> length ci \<and>
        lInterval L = bigEndian64 ci * 100 \<and> ledgerCells env A v L)"

subsection \<open>From cells to the ledger\<close>

lemma runsTo_ledger:
  assumes "\<And>kv v. ledgerCells env A v L \<Longrightarrow>
      \<exists>v'. runsTo (dbrep (crypto env) kv) m v r v' \<and> ledgerCells env A v' L'"
    and "lInterval L' = lInterval L"
  shows "runsTo (ledgerRep env A) m L r L'"
  unfolding runsTo_def
proof (intro allI impI)
  fix s
  assume "ledgerRep env A s L"
  then obtain kv v ci where s: "dbrep (crypto env) kv s v" "kv ChangeInterval = Some ci" "8 \<le> length ci"
      "lInterval L = bigEndian64 ci * 100" "ledgerCells env A v L" by (auto simp: ledgerRep_def)
  obtain v' where v': "runsTo (dbrep (crypto env) kv) m v r v'" "ledgerCells env A v' L'"
    using assms(1) [OF s(5)] by blast
  obtain s' where "m s = (r, s')" "dbrep (crypto env) kv s' v'" using runsTo_det [OF v'(1), OF s(1)] by blast
  then show "\<exists>s'. m s = (r, s') \<and> ledgerRep env A s' L'"
    using s v'(2) assms(2) by (auto simp: ledgerRep_def)
qed

lemma envOK_keys:
  assumes "envOK env A" "a \<in> A"
  shows "length (acctKey env a) = 32" "length (stakeKey env a) = 32"
    "acctKey env a \<noteq> CandidateAddrs" "stakeKey env a \<noteq> CandidateAddrs"
    "length al \<le> 20 \<Longrightarrow> acctKey env a \<noteq> AliasPrefix @ al" "length al \<le> 20 \<Longrightarrow> stakeKey env a \<noteq> AliasPrefix @ al"
proof -
  show l: "length (acctKey env a) = 32" "length (stakeKey env a) = 32"
    using assms(1) by (simp_all add: envOK_def acctKey_def stakeKey_def HashLength_def)
  have c: "length CandidateAddrs = 14" "length AliasPrefix = 5"
    by (simp_all add: CandidateAddrs_def AliasPrefix_def ascii_def)
  show "acctKey env a \<noteq> CandidateAddrs" "stakeKey env a \<noteq> CandidateAddrs" using l c by auto
  show "length al \<le> 20 \<Longrightarrow> acctKey env a \<noteq> AliasPrefix @ al" "length al \<le> 20 \<Longrightarrow> stakeKey env a \<noteq> AliasPrefix @ al"
    using l c by (auto dest!: arg_cong [of _ _ length])
qed

lemma CandidateAddrs_not_alias: "CandidateAddrs \<noteq> AliasPrefix @ al"
  by (simp add: CandidateAddrs_def AliasPrefix_def ascii_def)

lemma sameAddr_iff [simp]: "sameAddr env a b \<longleftrightarrow> a = b"
  by (simp add: sameAddr_def)

subsection \<open>Transitions of the ledger\<close>

definition acct :: "Ledger \<Rightarrow> address \<Rightarrow> Storage" where
  "acct L a = (case lAcct L a of None \<Rightarrow> emptyStorage | Some x \<Rightarrow> x)"

definition stake :: "Ledger \<Rightarrow> address \<Rightarrow> StakeStorage" where
  "stake L a = (case lStake L a of None \<Rightarrow> emptyStake | Some x \<Rightarrow> x)"

definition setAcct :: "Ledger \<Rightarrow> address \<Rightarrow> Storage \<Rightarrow> Ledger" where
  "setAcct L a x = L\<lparr>lAcct := (lAcct L)(a \<mapsto> x)\<rparr>"

definition setStake :: "Ledger \<Rightarrow> address \<Rightarrow> StakeStorage \<Rightarrow> Ledger" where
  "setStake L a x = L\<lparr>lStake := (lStake L)(a \<mapsto> x)\<rparr>"

definition withBalance :: "Ledger \<Rightarrow> address \<Rightarrow> int \<Rightarrow> Ledger" where
  "withBalance L a b = setAcct L a ((acct L a)\<lparr>sBalance := b\<rparr>)"

definition withNonce :: "Ledger \<Rightarrow> address \<Rightarrow> u64 \<Rightarrow> Ledger" where
  "withNonce L a n = setAcct L a ((acct L a)\<lparr>sNonce := n\<rparr>)"

definition due :: "Ledger \<Rightarrow> address \<Rightarrow> u64 \<Rightarrow> int" where
  "due L a h = cancelTotal (filter (cancelDue h (lInterval L)) (CC (stake L a)))"

definition payout :: "Ledger \<Rightarrow> address \<Rightarrow> u64 \<Rightarrow> Ledger" where
  "payout L a h = (case lStake L a of None \<Rightarrow> L
     | Some x \<Rightarrow> setStake L a (x\<lparr>CC := filter (\<lambda>cc. \<not> cancelDue h (lInterval L) cc) (CC x)\<rparr>))"

definition available :: "Ledger \<Rightarrow> address \<Rightarrow> u64 \<Rightarrow> int" where
  "available L a h = due L a h + sBalance (acct L a)"

lemma acct_updates [simp]:
  "acct (setAcct L a x) b = (if b = a then x else acct L b)"
  "acct (setStake L a y) b = acct L b"
  "acct (L\<lparr>lCands := cs\<rparr>) b = acct L b" "acct (L\<lparr>lAlias := al\<rparr>) b = acct L b"
  by (simp_all add: acct_def setAcct_def setStake_def)

lemma stake_updates [simp]:
  "stake (setStake L a y) b = (if b = a then y else stake L b)"
  "stake (setAcct L a x) b = stake L b"
  "stake (L\<lparr>lCands := cs\<rparr>) b = stake L b" "stake (L\<lparr>lAlias := al\<rparr>) b = stake L b"
  by (simp_all add: stake_def setAcct_def setStake_def)

lemma setAcct_simps [simp]:
  "lStake (setAcct L a x) = lStake L" "lCands (setAcct L a x) = lCands L"
  "lAlias (setAcct L a x) = lAlias L" "lInterval (setAcct L a x) = lInterval L"
  "setAcct (setAcct L a x) a y = setAcct L a y"
  by (simp_all add: setAcct_def)

lemma setStake_simps [simp]:
  "lAcct (setStake L a x) = lAcct L" "lCands (setStake L a x) = lCands L"
  "lAlias (setStake L a x) = lAlias L" "lInterval (setStake L a x) = lInterval L"
  "setStake (setStake L a x) a y = setStake L a y"
  by (simp_all add: setStake_def)

lemma withBalance_twice [simp]: "withBalance (withBalance L a b) a c = withBalance L a c"
  by (simp add: withBalance_def)

lemma acct_withBalance [simp]:
  "acct (withBalance L a b) c = (if c = a then (acct L a)\<lparr>sBalance := b\<rparr> else acct L c)"
  by (simp add: withBalance_def)

lemma acct_withNonce [simp]:
  "acct (withNonce L a n) c = (if c = a then (acct L a)\<lparr>sNonce := n\<rparr> else acct L c)"
  by (simp add: withNonce_def)

lemma withBalance_simps [simp]:
  "stake (withBalance L a b) = stake L" "lStake (withBalance L a b) = lStake L"
  "lCands (withBalance L a b) = lCands L" "lAlias (withBalance L a b) = lAlias L"
  "lInterval (withBalance L a b) = lInterval L"
  by (simp_all add: withBalance_def fun_eq_iff)

lemma withNonce_simps [simp]:
  "stake (withNonce L a n) = stake L" "lStake (withNonce L a n) = lStake L"
  "lCands (withNonce L a n) = lCands L" "lAlias (withNonce L a n) = lAlias L"
  "lInterval (withNonce L a n) = lInterval L"
  by (simp_all add: withNonce_def fun_eq_iff)

lemma payout_simps [simp]:
  "acct (payout L a h) = acct L" "lAcct (payout L a h) = lAcct L" "lCands (payout L a h) = lCands L"
  "lAlias (payout L a h) = lAlias L" "lInterval (payout L a h) = lInterval L"
  by (simp_all add: payout_def fun_eq_iff split: option.splits)

lemma stake_payout:
  "stake (payout L a h) b = (if b = a then (stake L a)\<lparr>CC := filter (\<lambda>cc. \<not> cancelDue h (lInterval L) cc)
     (CC (stake L a))\<rparr> else stake L b)"
  by (auto simp: payout_def stake_def emptyStake_def setStake_def split: option.splits)

lemma due_other [simp]:
  "due (withBalance L a b) c h = due L c h" "due (withNonce L a n) c h = due L c h"
  by (simp_all add: due_def)

lemma due_payout [simp]: "due (payout L a h) b h = (if b = a then 0 else due L b h)"
  by (simp add: due_def stake_payout cancelTotal_def)

text \<open>Paying a balance out twice at the same height pays nothing more.\<close>

lemma payout_twice [simp]: "payout (withBalance (payout L a h) a b) a h = withBalance (payout L a h) a b"
  by (auto simp: payout_def withBalance_def setAcct_def setStake_def acct_def split: option.splits)

subsection \<open>The operations as transitions\<close>

text \<open>Writing one cell changes one part of the ledger.\<close>

lemma cell_Some: "dec b = Some x \<Longrightarrow> cell dec (Some b) (Some x)"
  by (simp add: cell_def)

lemma envOK_injects:
  assumes "envOK env A" "a \<in> A" "c \<in> A"
  shows "acctKey env c = acctKey env a \<longleftrightarrow> c = a" "stakeKey env c = stakeKey env a \<longleftrightarrow> c = a"
    "stakeKey env c \<noteq> acctKey env a" "acctKey env c \<noteq> stakeKey env a"
proof -
  have i: "inj_on (acctKey env) A" "inj_on (stakeKey env) A" "\<forall>a\<in>A. \<forall>b\<in>A. acctKey env a \<noteq> stakeKey env b"
    using assms(1) by (simp_all add: envOK_def)
  show "acctKey env c = acctKey env a \<longleftrightarrow> c = a" "stakeKey env c = stakeKey env a \<longleftrightarrow> c = a"
    by (rule inj_on_eq_iff [OF i(1) assms(3,2)], rule inj_on_eq_iff [OF i(2) assms(3,2)])
  show "acctKey env c \<noteq> stakeKey env a" using i(3) assms(2,3) by blast
  have "acctKey env a \<noteq> stakeKey env c" using i(3) assms(2,3) by blast
  then show "stakeKey env c \<noteq> acctKey env a" by (rule not_sym)
qed

lemma ledgerCells_acct:
  assumes "envOK env A" "a \<in> A" "ledgerCells env A v L" "decStorage env b = Some x"
  shows "ledgerCells env A (v(acctKey env a \<mapsto> b)) (setAcct L a x)"
proof -
  note k = envOK_keys(3-6) [OF assms(1,2), THEN not_sym]
  show ?thesis using assms(3,4) k(1,3) envOK_injects [OF assms(1,2)]
    by (simp add: ledgerCells_def setAcct_def cell_Some split: option.splits)
qed

lemma ledgerCells_stake:
  assumes "envOK env A" "a \<in> A" "ledgerCells env A v L" "decStake env b = Some x"
  shows "ledgerCells env A (v(stakeKey env a \<mapsto> b)) (setStake L a x)"
proof -
  note k = envOK_keys(3-6) [OF assms(1,2), THEN not_sym]
  show ?thesis using assms(3,4) k(2,4) envOK_injects [OF assms(1,2)]
    by (simp add: ledgerCells_def setStake_def cell_Some split: option.splits)
qed

lemma ledgerCells_cands:
  assumes "envOK env A" "ledgerCells env A v L" "decAddrs env b = Some x"
  shows "ledgerCells env A (v(CandidateAddrs \<mapsto> b)) (L\<lparr>lCands := x\<rparr>)"
  using assms(2,3) envOK_keys(3,4) [OF assms(1)] CandidateAddrs_not_alias [THEN not_sym]
  by (simp add: ledgerCells_def)

lemma ledgerCells_alias:
  assumes "envOK env A" "ledgerCells env A v L" "length al \<le> 20"
  shows "ledgerCells env A (v(AliasPrefix @ al \<mapsto> b)) (L\<lparr>lAlias := (lAlias L)(al \<mapsto> b)\<rparr>)"
  using assms(2,3) envOK_keys(5,6) [OF assms(1) _ assms(3)] CandidateAddrs_not_alias
  by (simp add: ledgerCells_def split: option.splits)

named_theorems ledger_runs

lemma GetStorage_runs:
  assumes "a \<in> A"
  shows "runsTo (ledgerRep env A) (GetStorage env a) L (Ok (lAcct L a)) L"
  unfolding GetStorage_def
proof (rule runsTo_ledger, rule exI, rule conjI)
  fix kv v
  assume v: "ledgerCells env A v L"
  then have c: "cell (decStorage env) (v (acctKey env a)) (lAcct L a)" using assms by (simp add: ledgerCells_def)
  show "runsTo (dbrep (crypto env) kv) (bindA (Get_db (crypto env) (acctKey env a)) (\<lambda>value.
      case value of None \<Rightarrow> returnA None
      | Some b \<Rightarrow> (case decStorage env b of None \<Rightarrow> raiseA ErrDecode | Some x \<Rightarrow> returnA (Some x))))
     v (Ok (lAcct L a)) v"
    using c by (intro runsTo_bind [OF state_db.get_cell])
      (auto simp: cell_def runsTo_return split: option.splits)
qed simp_all

lemma lookupStorage_runs [ledger_runs]:
  "a \<in> A \<Longrightarrow> runsTo (ledgerRep env A) (lookupStorage env a) L (Ok (lAcct L a)) L"
  unfolding lookupStorage_def
  by (rule runsTo_bind [OF runsTo_try_Ok [OF GetStorage_runs]]) (simp_all add: runsTo_return)

lemma PutStorage_runs [ledger_runs]:
  assumes "envOK env A" "a \<in> A"
  shows "runsTo (ledgerRep env A) (PutStorage env a x) L (Ok ()) (setAcct L a x)"
proof -
  obtain b where b: "encStorage env x = Some b" "decStorage env b = Some x"
    using assms(1) unfolding envOK_def by blast
  show ?thesis unfolding PutStorage_def
    by (rule runsTo_ledger, rule exI, rule conjI, rule state_db.write_encoded [of "encStorage env", OF b(1)],
        rule ledgerCells_acct [OF assms]) (simp_all add: b(2))
qed

lemma getStakeStorage_runs:
  assumes "a \<in> A"
  shows "runsTo (ledgerRep env A) (getStakeStorage env a) L (Ok (lStake L a)) L"
  unfolding getStakeStorage_def
proof (rule runsTo_ledger, rule exI, rule conjI)
  fix kv v
  assume v: "ledgerCells env A v L"
  then have c: "cell (decStake env) (v (stakeKey env a)) (lStake L a)" using assms by (simp add: ledgerCells_def)
  show "runsTo (dbrep (crypto env) kv) (bindA (Get_db (crypto env) (stakeKey env a)) (\<lambda>value.
      case value of None \<Rightarrow> returnA None
      | Some b \<Rightarrow> (case decStake env b of None \<Rightarrow> raiseA ErrDecode | Some x \<Rightarrow> returnA (Some x))))
     v (Ok (lStake L a)) v"
    using c by (intro runsTo_bind [OF state_db.get_cell])
      (auto simp: cell_def runsTo_return split: option.splits)
qed simp_all

lemma lookupStake_runs [ledger_runs]:
  "a \<in> A \<Longrightarrow> runsTo (ledgerRep env A) (lookupStake env a) L (Ok (lStake L a)) L"
  unfolding lookupStake_def
  by (rule runsTo_bind [OF runsTo_try_Ok [OF getStakeStorage_runs]]) (simp_all add: runsTo_return)

lemma putStakeStorage_runs [ledger_runs]:
  assumes "envOK env A" "a \<in> A"
  shows "runsTo (ledgerRep env A) (putStakeStorage env a x) L (Ok ()) (setStake L a x)"
proof -
  obtain b where b: "encStake env x = Some b" "decStake env b = Some x"
    using assms(1) unfolding envOK_def by blast
  show ?thesis unfolding putStakeStorage_def
    by (rule runsTo_ledger, rule exI, rule conjI, rule state_db.write_encoded [of "encStake env", OF b(1)],
        rule ledgerCells_stake [OF assms]) (simp_all add: b(2))
qed

lemma GetChangeInterval_runs [ledger_runs]:
  "runsTo (ledgerRep env A) GetChangeInterval L (Ok (lInterval L)) L"
  unfolding runsTo_def
proof (intro allI impI)
  fix s
  assume s: "ledgerRep env A s L"
  then obtain kv v ci where "dbrep (crypto env) kv s v" "kv ChangeInterval = Some ci" "8 \<le> length ci"
      "lInterval L = bigEndian64 ci * 100" by (auto simp: ledgerRep_def)
  then have "GetChangeInterval s = (Ok (lInterval L), s)" by (simp add: dbrep_def GetChangeInterval_def)
  then show "\<exists>s'. GetChangeInterval s = (Ok (lInterval L), s') \<and> ledgerRep env A s' L" using s by blast
qed

lemma GetBalance_a_runs [ledger_runs]:
  "a \<in> A \<Longrightarrow> runsTo (ledgerRep env A) (GetBalance_a env a) L (Ok (sBalance (acct L a))) L"
  unfolding GetBalance_a_def
  by (rule runsTo_bind, rule lookupStorage_runs)
    (auto simp: acct_def emptyStorage_def runsTo_return split: option.splits)

lemma PutBalance_a_runs [ledger_runs]:
  "\<lbrakk>envOK env A; a \<in> A\<rbrakk> \<Longrightarrow> runsTo (ledgerRep env A) (PutBalance_a env a b) L (Ok ()) (withBalance L a b)"
  unfolding PutBalance_a_def withBalance_def acct_def
  by (rule runsTo_bind, rule lookupStorage_runs, assumption, rule PutStorage_runs)

lemma GetNonce_runs [ledger_runs]:
  "a \<in> A \<Longrightarrow> runsTo (ledgerRep env A) (GetNonce env a) L (Ok (sNonce (acct L a))) L"
  unfolding GetNonce_def
  by (rule runsTo_bind, rule lookupStorage_runs)
    (auto simp: acct_def emptyStorage_def runsTo_return split: option.splits)

lemma PutNonce_runs [ledger_runs]:
  "\<lbrakk>envOK env A; a \<in> A\<rbrakk> \<Longrightarrow> runsTo (ledgerRep env A) (PutNonce env a n) L (Ok ()) (withNonce L a n)"
  unfolding PutNonce_def withNonce_def acct_def
  by (rule runsTo_bind, rule lookupStorage_runs, assumption, rule PutStorage_runs)

lemma AddBalance_a_runs [ledger_runs]:
  "\<lbrakk>envOK env A; a \<in> A\<rbrakk> \<Longrightarrow>
     runsTo (ledgerRep env A) (AddBalance_a env a x) L (Ok ()) (withBalance L a (sBalance (acct L a) + x))"
  unfolding AddBalance_a_def by (rule runsTo_bind, rule GetBalance_a_runs, assumption, rule PutBalance_a_runs)

lemma SubBalance_a_runs [ledger_runs]:
  "\<lbrakk>envOK env A; a \<in> A\<rbrakk> \<Longrightarrow>
     runsTo (ledgerRep env A) (SubBalance_a env a x) L (Ok ()) (withBalance L a (sBalance (acct L a) - x))"
  unfolding SubBalance_a_def by (rule runsTo_bind, rule GetBalance_a_runs, assumption, rule PutBalance_a_runs)

lemma GetCancelCreditForBalance_runs [ledger_runs]:
  "a \<in> A \<Longrightarrow> runsTo (ledgerRep env A) (GetCancelCreditForBalance env a h (lInterval L)) L (Ok (due L a h)) L"
  unfolding GetCancelCreditForBalance_def
  by (rule runsTo_bind, rule lookupStake_runs)
    (auto simp: due_def stake_def emptyStake_def cancelTotal_def runsTo_return split: option.splits)

lemma CancelCreditToBalance_runs [ledger_runs]:
  assumes "envOK env A" "a \<in> A"
  shows "runsTo (ledgerRep env A) (CancelCreditToBalance env a h (lInterval L)) L (Ok (due L a h)) (payout L a h)"
  unfolding CancelCreditToBalance_def
proof (rule runsTo_bind [OF lookupStake_runs [OF assms(2)]], cases "lStake L a")
  case None
  then show "runsTo (ledgerRep env A) (case lStake L a of None \<Rightarrow> returnA 0 | Some x \<Rightarrow>
       bindA (tryA (putStakeStorage env a (x\<lparr>CC := filter (\<lambda>cc. \<not> cancelDue h (lInterval L) cc) (CC x)\<rparr>)))
         (\<lambda>r. returnA (case r of Ok _ \<Rightarrow> cancelTotal (filter (cancelDue h (lInterval L)) (CC x)) | _ \<Rightarrow> 0)))
     L (Ok (due L a h)) (payout L a h)"
    by (simp add: due_def payout_def stake_def emptyStake_def cancelTotal_def runsTo_return)
next
  case (Some x)
  have "due L a h = cancelTotal (filter (cancelDue h (lInterval L)) (CC x))" by (simp add: due_def stake_def Some)
  then show "runsTo (ledgerRep env A) (case lStake L a of None \<Rightarrow> returnA 0 | Some x \<Rightarrow>
       bindA (tryA (putStakeStorage env a (x\<lparr>CC := filter (\<lambda>cc. \<not> cancelDue h (lInterval L) cc) (CC x)\<rparr>)))
         (\<lambda>r. returnA (case r of Ok _ \<Rightarrow> cancelTotal (filter (cancelDue h (lInterval L)) (CC x)) | _ \<Rightarrow> 0)))
     L (Ok (due L a h)) (payout L a h)"
    unfolding Some payout_def
    by (simp, intro runsTo_bind [OF runsTo_try_Ok [OF putStakeStorage_runs [OF assms]]]) (simp add: runsTo_return)
qed

lemma AddBalance_runs [ledger_runs]:
  assumes "envOK env A" "a \<in> A"
  shows "runsTo (ledgerRep env A) (AddBalance env a h x) L (Ok (x + due L a h))
     (withBalance (payout L a h) a (available L a h + x))"
proof -
  have b: "available L a h + x = sBalance (acct (payout L a h) a) + (x + due L a h)"
    by (simp add: available_def)
  show ?thesis unfolding AddBalance_def b
    by (rule runsTo_bind, rule GetChangeInterval_runs, rule runsTo_bind, rule CancelCreditToBalance_runs [OF assms],
        rule runsTo_bind, rule AddBalance_a_runs [OF assms], rule runsTo_return)
qed

lemma SubBalance_runs [ledger_runs]:
  assumes "envOK env A" "a \<in> A"
  shows "runsTo (ledgerRep env A) (SubBalance env a h x) L (Ok ())
     (withBalance (payout L a h) a (available L a h - x))"
proof -
  let ?L1 = "withBalance (payout L a h) a (sBalance (acct (payout L a h) a) + due L a h)"
  have b: "withBalance (payout L a h) a (available L a h - x) = withBalance ?L1 a (sBalance (acct ?L1 a) - x)"
    by (simp add: available_def algebra_simps)
  show ?thesis unfolding SubBalance_def b
    by (rule runsTo_bind, rule GetChangeInterval_runs, rule runsTo_bind, rule CancelCreditToBalance_runs [OF assms],
        rule runsTo_bind, rule AddBalance_a_runs [OF assms], rule SubBalance_a_runs [OF assms])
qed

lemma GetBalance_runs [ledger_runs]:
  "a \<in> A \<Longrightarrow> runsTo (ledgerRep env A) (GetBalance env a h) L (Ok (Some (available L a h))) L"
  unfolding GetBalance_def available_def
  by (rule runsTo_bind, rule runsTo_try_Ok, rule GetChangeInterval_runs, simp, rule runsTo_bind,
      rule GetCancelCreditForBalance_runs, assumption, rule runsTo_bind, rule GetBalance_a_runs, assumption,
      rule runsTo_return)

lemma PutBalance_runs [ledger_runs]:
  assumes "envOK env A" "a \<in> A"
  shows "runsTo (ledgerRep env A) (PutBalance env a h b) L (Ok ())
     (if h = 0 then withBalance L a b else withBalance (payout L a h) a b)"
proof (cases "h = 0")
  case True
  then show ?thesis unfolding PutBalance_def
    by (simp, intro runsTo_bind [OF runsTo_return] PutBalance_a_runs [OF assms])
next
  case False
  let ?L1 = "withBalance (payout L a h) a (sBalance (acct (payout L a h) a) + due L a h)"
  have "runsTo (ledgerRep env A) (PutBalance env a h b) L (Ok ()) (withBalance ?L1 a b)"
    using False unfolding PutBalance_def
    by (simp only: if_True not_False_eq_True, intro runsTo_bind) (rule GetChangeInterval_runs CancelCreditToBalance_runs [OF assms]
        AddBalance_a_runs [OF assms] PutBalance_a_runs [OF assms])+
  then show ?thesis using False by simp
qed

subsection \<open>The list of candidates\<close>

lemma GetCandidateAddrs_runs [ledger_runs]:
  "runsTo (ledgerRep env A) (GetCandidateAddrs env) L (Ok (lCands L)) L"
  unfolding GetCandidateAddrs_def
proof (rule runsTo_ledger, rule exI, rule conjI)
  fix kv v
  assume "ledgerCells env A v L"
  then have c: "case v CandidateAddrs of None \<Rightarrow> lCands L = [] | Some b \<Rightarrow> decAddrs env b = Some (lCands L)"
    by (simp add: ledgerCells_def)
  show "runsTo (dbrep (crypto env) kv) (bindA (Get_db (crypto env) CandidateAddrs) (\<lambda>buf.
      case buf of None \<Rightarrow> returnA []
      | Some b \<Rightarrow> (case decAddrs env b of None \<Rightarrow> raiseA ErrDecode | Some x \<Rightarrow> returnA x)))
     v (Ok (lCands L)) v"
    using c by (intro runsTo_bind [OF state_db.get_cell]) (auto simp: runsTo_return split: option.splits)
qed simp_all

lemma writeCands_runs:
  assumes "envOK env A"
  shows "runsTo (ledgerRep env A) (case encAddrs env xs of None \<Rightarrow> raiseA ErrEncode
     | Some b \<Rightarrow> bindA (tryA (Put_db (crypto env) CandidateAddrs b)) (\<lambda>_. returnA ())) L (Ok ()) (L\<lparr>lCands := xs\<rparr>)"
proof -
  obtain b where b: "encAddrs env xs = Some b" "decAddrs env b = Some xs"
    using assms(1) unfolding envOK_def by blast
  show ?thesis
  proof (rule runsTo_ledger, rule exI, rule conjI)
    fix kv v
    assume "ledgerCells env A v L"
    then show "ledgerCells env A (v(CandidateAddrs \<mapsto> b)) (L\<lparr>lCands := xs\<rparr>)"
      by (rule ledgerCells_cands [OF assms _ b(2)])
    show "runsTo (dbrep (crypto env) kv) (case encAddrs env xs of None \<Rightarrow> raiseA ErrEncode
     | Some b \<Rightarrow> bindA (tryA (Put_db (crypto env) CandidateAddrs b)) (\<lambda>_. returnA ())) v (Ok ()) (v(CandidateAddrs \<mapsto> b))"
      unfolding b(1) by (simp, rule runsTo_bind [OF runsTo_try_Ok [OF state_db.put_cell] runsTo_return])
  qed simp
qed

text \<open>Past the deleted entry the loop sees the shifted array and finds nothing more.\<close>

lemma delAddrLoop_absent:
  "\<lbrakk>\<forall>j. i \<le> j \<and> j < i + k \<longrightarrow> arr ! j \<noteq> addr\<rbrakk> \<Longrightarrow> delAddrLoop env addr k i arr len = Some (arr, len)"
  by (induction k arbitrary: i) auto

lemma delAddrLoop_skip:
  "\<lbrakk>\<forall>j. i \<le> j \<and> j < i + n \<longrightarrow> arr ! j \<noteq> addr\<rbrakk> \<Longrightarrow>
     delAddrLoop env addr (n + k) i arr len = delAddrLoop env addr k (i + n) arr len"
proof (induction n arbitrary: i)
  case (Suc n)
  have "delAddrLoop env addr (Suc n + k) i arr len = delAddrLoop env addr (n + k) (Suc i) arr len"
    using Suc.prems by simp
  also have "\<dots> = delAddrLoop env addr k (Suc i + n) arr len" using Suc.prems by (intro Suc.IH) auto
  finally show ?case by simp
qed simp

lemma delAddrLoop_distinct:
  assumes "distinct xs"
  shows "\<exists>arr len. delAddrLoop env addr (length xs) 0 xs (length xs) = Some (arr, len) \<and> take len arr = remove1 addr xs"
proof (cases "addr \<in> set xs")
  case True
  then obtain ys zs where xs: "xs = ys @ addr # zs" "addr \<notin> set ys" by (meson split_list_first)
  have d: "addr \<notin> set zs" "addr \<notin> set ys" using assms xs by auto
  let ?arr = "ys @ zs @ drop (length xs - 1) xs"
  have "delAddrLoop env addr (length ys + Suc (length zs)) 0 xs (length xs) =
      delAddrLoop env addr (Suc (length zs)) (length ys) xs (length xs)"
    using d(2) by (subst delAddrLoop_skip) (auto simp: xs nth_append in_set_conv_nth)
  also have "\<dots> = delAddrLoop env addr (length zs) (length ys + 1) ?arr (length xs - 1)"
    by (simp add: xs)
  also have "\<dots> = Some (?arr, length xs - 1)"
  proof (rule delAddrLoop_absent, intro allI impI)
    fix j
    assume j: "length ys + 1 \<le> j \<and> j < length ys + 1 + length zs"
    have last: "drop (length xs - 1) xs = [xs ! (length xs - 1)]"
      using Cons_nth_drop_Suc [of "length xs - 1" xs] by (simp add: xs)
    show "?arr ! j \<noteq> addr"
    proof (cases "j = length ys + length zs")
      case True
      then have "?arr ! j = xs ! (length xs - 1)" unfolding last by (simp add: nth_append)
      also have "\<dots> = zs ! (length zs - 1)" using j True by (cases zs) (auto simp: xs nth_append)
      finally show ?thesis using d(1) j True nth_mem [of "length zs - 1" zs] by auto
    next
      case False
      then have "?arr ! j = zs ! (j - length ys)" "j - length ys < length zs" using j by (auto simp: nth_append)
      then show ?thesis using d(1) nth_mem by metis
    qed
  qed
  finally have "delAddrLoop env addr (length xs) 0 xs (length xs) = Some (?arr, length xs - 1)"
    by (simp add: xs)
  moreover have "take (length xs - 1) ?arr = remove1 addr xs" using d by (simp add: xs remove1_append)
  ultimately show ?thesis by blast
next
  case False
  then have "delAddrLoop env addr (length xs) 0 xs (length xs) = Some (xs, length xs)"
    by (intro delAddrLoop_absent) (auto simp: in_set_conv_nth)
  then show ?thesis using False by (simp add: remove1_idem)
qed

definition addCand :: "address \<Rightarrow> address list \<Rightarrow> address list" where
  "addCand a xs = (if a \<in> set xs then xs else xs @ [a])"

lemma distinct_addCand [simp]: "distinct (addCand a xs) \<longleftrightarrow> distinct xs"
  by (simp add: addCand_def)

lemma AddCandidateAddr_runs [ledger_runs]:
  assumes "envOK env A"
  shows "runsTo (ledgerRep env A) (AddCandidateAddr env a) L (Ok ()) (L\<lparr>lCands := addCand a (lCands L)\<rparr>)"
proof (cases "a \<in> set (lCands L)")
  case True
  then show ?thesis unfolding AddCandidateAddr_def UpdateCandidateAddr_def
    by (intro runsTo_bind [OF GetCandidateAddrs_runs]) (simp add: addCand_def runsTo_return)
next
  case False
  then show ?thesis unfolding AddCandidateAddr_def UpdateCandidateAddr_def
    by (intro runsTo_bind [OF GetCandidateAddrs_runs]) (simp add: addCand_def writeCands_runs [OF assms])
qed

lemma cands_idle: "lCands L = [] \<Longrightarrow> L\<lparr>lCands := []\<rparr> = L"
  by (cases L) simp

lemma DelCandidateAddr_runs [ledger_runs]:
  assumes "envOK env A" "distinct (lCands L)"
  shows "runsTo (ledgerRep env A) (DelCandidateAddr env a) L (Ok ()) (L\<lparr>lCands := remove1 a (lCands L)\<rparr>)"
proof -
  obtain arr len where d: "delAddrLoop env a (length (lCands L)) 0 (lCands L) (length (lCands L)) = Some (arr, len)"
      "take len arr = remove1 a (lCands L)" using delAddrLoop_distinct [OF assms(2)] by blast
  show ?thesis unfolding DelCandidateAddr_def UpdateCandidateAddr_def
    using runsTo_return [of "ledgerRep env A" "()" L]
    by (intro runsTo_bind [OF GetCandidateAddrs_runs], cases "lCands L = []")
      (simp_all add: d writeCands_runs [OF assms(1)] cands_idle)
qed

end
