(* ===== verification/StakeSem.thy ===== *)
theory StakeSem
  imports StoreSem
begin

section \<open>The credit books\<close>

text \<open>
  What the operations on credits do to the total and to the shape of a book: no credit is
  lost or made, credits are taken back oldest first, and a book keeps one entry per voter
  without negative values. The second half states the operations as transitions of the
  ledger.
\<close>

definition rcTotal :: "ReceivedCredit list \<Rightarrow> int" where
  "rcTotal rcs = sum_list (map (\<lambda>rc. creditTotal (HeightValues rc)) rcs)"

lemma rcTotal_simps [simp]:
  "rcTotal [] = 0" "rcTotal (rc # rcs) = creditTotal (HeightValues rc) + rcTotal rcs"
  "rcTotal (xs @ ys) = rcTotal xs + rcTotal ys"
  by (simp_all add: rcTotal_def)

lemma creditTotal_simps [simp]:
  "creditTotal [] = 0" "creditTotal (hv # hvs) = CreditValue hv + creditTotal hvs"
  "creditTotal (xs @ ys) = creditTotal xs + creditTotal ys"
  by (simp_all add: creditTotal_def)

lemma cancelTotal_simps [simp]:
  "cancelTotal [] = 0" "cancelTotal (cc # ccs) = sum_list (CancelCreditValue cc) + cancelTotal ccs"
  by (simp_all add: cancelTotal_def)

definition bookOK :: "ReceivedCredit list \<Rightarrow> bool" where
  "bookOK rcs \<longleftrightarrow> distinct (map rcAddr rcs) \<and>
     (\<forall>rc\<in>set rcs. HeightValues rc \<noteq> [] \<and> (\<forall>hv\<in>set (HeightValues rc). CreditValue hv \<ge> 0))"

lemma bookOK_simps [simp]:
  "bookOK []" "bookOK (rc # rcs) \<longleftrightarrow> rcAddr rc \<notin> rcAddr ` set rcs \<and> HeightValues rc \<noteq> [] \<and>
     (\<forall>hv\<in>set (HeightValues rc). CreditValue hv \<ge> 0) \<and> bookOK rcs"
  by (auto simp: bookOK_def)

subsection \<open>Giving credit\<close>

lemma addCredit_total:
  "addCredit env a hv rcs = Some rcs' \<Longrightarrow> rcTotal rcs' = rcTotal rcs + CreditValue hv \<and> map rcAddr rcs' = map rcAddr rcs"
  by (induction rcs arbitrary: rcs') (auto split: if_splits)

lemma addCredit_None: "addCredit env a hv rcs = None \<longleftrightarrow> a \<notin> rcAddr ` set rcs"
  by (induction rcs) auto

lemma addCredit_ok:
  "\<lbrakk>addCredit env a hv rcs = Some rcs'; bookOK rcs; CreditValue hv \<ge> 0\<rbrakk> \<Longrightarrow> bookOK rcs'"
proof (induction rcs arbitrary: rcs')
  case (Cons rc rcs)
  show ?case
  proof (cases "rcAddr rc = a")
    case False
    then obtain r where r: "addCredit env a hv rcs = Some r" "rcs' = rc # r" using Cons.prems(1) by auto
    have "rcAddr ` set r = rcAddr ` set rcs" using addCredit_total [OF r(1)] by (metis set_map)
    then show ?thesis using Cons.IH [OF r(1)] Cons.prems r(2) by simp
  qed (use Cons.prems in auto)
qed simp

lemma rcTotal_withCredit: "rcTotal (withCredit env a hv rcs) = rcTotal rcs + CreditValue hv"
  by (auto simp: withCredit_def dest: addCredit_total split: option.splits)

lemma bookOK_withCredit:
  assumes "bookOK rcs" "CreditValue hv \<ge> 0"
  shows "bookOK (withCredit env a hv rcs)"
  using assms addCredit_ok [OF _ assms] addCredit_None [of env a hv rcs]
  by (auto simp: withCredit_def bookOK_def split: option.splits)

subsection \<open>Taking credit back\<close>

lemma cancelLoop_total:
  assumes "tmp \<le> creditTotal hvs" "hvs \<noteq> []"
  shows "\<exists>p l. cancelLoop tmp hvs = (p, Some l) \<and> creditTotal p = tmp \<and> creditTotal l = creditTotal hvs - tmp"
  using assms
proof (induction tmp hvs rule: cancelLoop.induct)
  case (2 tmp hv hvs)
  consider (whole) "tmp = CreditValue hv" | (more) "CreditValue hv < tmp" | (part) "tmp < CreditValue hv" by linarith
  then show ?case
  proof cases
    case more
    then have "hvs \<noteq> []" "tmp - CreditValue hv \<le> creditTotal hvs" using "2.prems"(1) by auto
    then show ?thesis using "2.IH" more by fastforce
  qed auto
qed simp

text \<open>The heights taken are those of the oldest values, in order.\<close>

lemma cancelLoop_oldest:
  "cancelLoop tmp hvs = (p, l) \<Longrightarrow> map CreditHeight p = take (length p) (map CreditHeight hvs)"
proof (induction tmp hvs arbitrary: p l rule: cancelLoop.induct)
  case (2 tmp hv hvs)
  then show ?case by (auto split: if_splits prod.splits)
qed simp

lemma cancelLoop_pos:
  "\<lbrakk>cancelLoop tmp hvs = (p, Some l); \<forall>hv\<in>set hvs. CreditValue hv \<ge> 0; tmp \<ge> 0\<rbrakk> \<Longrightarrow>
     (\<forall>hv\<in>set p. CreditValue hv \<ge> 0) \<and> (\<forall>hv\<in>set l. CreditValue hv \<ge> 0)"
proof (induction tmp hvs arbitrary: p rule: cancelLoop.induct)
  case (2 tmp hv hvs)
  then show ?case by (auto split: if_splits prod.splits)
qed simp

lemma cancelRC_found:
  "cancelRC env a amount rcs = CancelNotFound \<longleftrightarrow> a \<notin> rcAddr ` set rcs"
  by (induction rcs) (auto simp: Let_def split: cancelResult.splits prod.splits)

lemma cancelRC_addrs:
  "cancelRC env a amount rcs = CancelDone l p rest \<Longrightarrow> rcAddr ` set rest \<subseteq> rcAddr ` set rcs"
  by (induction rcs arbitrary: rest) (auto simp: Let_def image_subset_iff split: if_splits cancelResult.splits prod.splits)

lemma cancelRC_step:
  assumes "cancelRC env a amount (rc # rcs) = CancelDone l p rest" "HeightValues rc \<noteq> []"
  obtains (here) hvs where "rcAddr rc = a" "amount \<le> creditTotal (HeightValues rc)"
      "cancelLoop amount (HeightValues rc) = (p, Some hvs)" "creditTotal p = amount"
      "creditTotal hvs = creditTotal (HeightValues rc) - amount" "l = creditTotal hvs"
      "rest = (if hvs = [] then rcs else rc\<lparr>HeightValues := hvs\<rparr> # rcs)"
  | (later) r where "rcAddr rc \<noteq> a" "cancelRC env a amount rcs = CancelDone l p r" "rest = rc # r"
proof (cases "rcAddr rc = a")
  case True
  then have le: "amount \<le> creditTotal (HeightValues rc)" using assms(1) by (auto split: if_splits)
  obtain q hvs where q: "cancelLoop amount (HeightValues rc) = (q, Some hvs)" "creditTotal q = amount"
      "creditTotal hvs = creditTotal (HeightValues rc) - amount" using cancelLoop_total [OF le assms(2)] by blast
  show ?thesis using here [of hvs] assms(1) True le q by simp
next
  case False
  then show ?thesis using later assms(1) by (auto split: cancelResult.splits)
qed

lemma cancelRC_total:
  "\<lbrakk>cancelRC env a amount rcs = CancelDone l p rest; bookOK rcs\<rbrakk> \<Longrightarrow>
     creditTotal p = amount \<and> rcTotal rest = rcTotal rcs - amount"
proof (induction rcs arbitrary: rest)
  case (Cons rc rcs)
  have "HeightValues rc \<noteq> []" using Cons.prems(2) by simp
  with Cons.prems(1) show ?case
    by (cases rule: cancelRC_step) (use Cons.IH Cons.prems(2) in auto)
qed simp

lemma cancelRC_ok:
  "\<lbrakk>cancelRC env a amount rcs = CancelDone l p rest; bookOK rcs; amount \<ge> 0\<rbrakk> \<Longrightarrow> bookOK rest"
proof (induction rcs arbitrary: rest)
  case (Cons rc rcs)
  have "HeightValues rc \<noteq> []" using Cons.prems(2) by simp
  with Cons.prems(1) show ?case
  proof (cases rule: cancelRC_step)
    case (here hvs)
    then show ?thesis using cancelLoop_pos [OF here(3)] Cons.prems(2,3) by simp
  next
    case (later r)
    then show ?thesis using Cons.IH [OF later(2)] Cons.prems(2,3) cancelRC_addrs [OF later(2)] by auto
  qed
qed simp

lemma cancelTotal_addCancel: "cancelTotal (addCancel h amount ccs) = cancelTotal ccs + amount"
  by (induction ccs) auto

lemma cancelTotal_filter_split:
  "cancelTotal (filter P ccs) + cancelTotal (filter (\<lambda>c. \<not> P c) ccs) = cancelTotal ccs"
  by (induction ccs) auto

subsection \<open>The operations as transitions\<close>

definition voteFor :: "Env \<Rightarrow> Ledger \<Rightarrow> address \<Rightarrow> address \<Rightarrow> int \<Rightarrow> u64 \<Rightarrow> Ledger" where
  "voteFor env L from to v h = setStake L to ((stake L to)\<lparr>RC :=
     withCredit env from \<lparr>CreditHeight = h, CreditValue = v\<rparr> (RC (stake L to))\<rparr>)"

lemma VoteCredit_runs [ledger_runs]:
  assumes "envOK env A" "to \<in> A" "from \<noteq> to"
  shows "runsTo (ledgerRep env A) (VoteCredit env from to v h) L (Ok ()) (voteFor env L from to v h)"
  using assms(3) unfolding VoteCredit_def voteFor_def stake_def
  by (simp add: Let_def, intro runsTo_bind [OF lookupStake_runs [OF assms(2)]] putStakeStorage_runs [OF assms(1,2)])

lemma VoteCredit_self [ledger_runs]:
  "runsTo (ledgerRep env A) (VoteCredit env a a v h) L (Err (ErrMsg ''from euqal to addr'')) L"
  by (simp add: VoteCredit_def runsTo_raise)

text \<open>
  Registering as candidate: the address joins the list when its own credit reaches the
  pledge limit, and the candidate data is stored.
\<close>

definition registered :: "Env \<Rightarrow> Ledger \<Rightarrow> address \<Rightarrow> int \<Rightarrow> Ledger" where
  "registered env L a v = (if v + ownCredit env a (RC (stake L a)) \<ge> pledgeLimit
     then L\<lparr>lCands := addCand a (lCands L)\<rparr> else L)"

definition candidateData :: "Env \<Rightarrow> bytes \<Rightarrow> StakeStorage \<Rightarrow> StakeStorage option" where
  "candidateData env data x = (case candUnmarshal env data of None \<Rightarrow> None
     | Some cd \<Rightarrow> (case candMarshal env cd of None \<Rightarrow> Some x
         | Some b \<Rightarrow> Some (if b = [] then x else x\<lparr>CandidateBytes := b\<rparr>)))"

lemma registered_simps [simp]:
  "stake (registered env L a v) = stake L" "acct (registered env L a v) = acct L"
  "lInterval (registered env L a v) = lInterval L"
  by (auto simp: registered_def)

lemma register_runs:
  assumes "envOK env A"
  shows "runsTo (ledgerRep env A) (if v + ownCredit env a (RC (stake L a)) \<ge> pledgeLimit
       then tryA (AddCandidateAddr env a) else returnA (Ok ())) L (Ok (Ok ())) (registered env L a v)"
  using runsTo_try_Ok [OF AddCandidateAddr_runs [OF assms]] by (auto simp: registered_def runsTo_return)

lemma CandidateCredit_runs:
  assumes "envOK env A" "a \<in> A"
  shows "runsTo (ledgerRep env A) (CandidateCredit env a (Some v) data h) L
     (if candUnmarshal env data = None then Err ErrDecode else Ok ())
     (case candidateData env data (stake (voteFor env L a a v h) a) of
        None \<Rightarrow> registered env L a v | Some x \<Rightarrow> setStake (registered env L a v) a x)"
proof -
  let ?x = "stake (voteFor env L a a v h) a"
  have x: "(case lStake L a of None \<Rightarrow> emptyStake | Some x \<Rightarrow> x) = stake L a" by (simp add: stake_def)
  show ?thesis unfolding CandidateCredit_def
    by (rule runsTo_bind [OF lookupStake_runs [OF assms(2)]], unfold x, simp only: Let_def option.case,
        rule runsTo_bind [OF register_runs [OF assms(1)]])
      (auto simp: candidateData_def voteFor_def runsTo_raise putStakeStorage_runs [OF assms] split: option.splits)
qed

text \<open>Cancelling: the credit leaves the book of \<open>to\<close> and waits with the cancelled credits of \<open>from\<close>.\<close>

definition addWaiting :: "Ledger \<Rightarrow> address \<Rightarrow> int \<Rightarrow> u64 \<Rightarrow> Ledger" where
  "addWaiting L a v h = setStake L a ((stake L a)\<lparr>CC := addCancel h v (CC (stake L a))\<rparr>)"

definition takeCredit :: "Ledger \<Rightarrow> address \<Rightarrow> ReceivedCredit list \<Rightarrow> Ledger" where
  "takeCredit L to rest = setStake L to ((stake L to)\<lparr>RC := rest\<rparr>)"

definition cancelOutcome :: "Env \<Rightarrow> Ledger \<Rightarrow> address \<Rightarrow> address \<Rightarrow> int \<Rightarrow> cancelResult" where
  "cancelOutcome env L from to v = cancelRC env from v (RC (stake L to))"

lemma cancelOutcome_absent: "lStake L to = None \<Longrightarrow> cancelOutcome env L from to v = CancelNotFound"
  by (simp add: cancelOutcome_def stake_def emptyStake_def)

lemma cancelCredit_fails:
  assumes "to \<in> A"
  shows "cancelOutcome env L from to v = CancelNotFound \<Longrightarrow>
      runsTo (ledgerRep env A) (cancelCredit env from to v h f) L (Err (ErrMsg ''not exist vote credit'')) L"
    "cancelOutcome env L from to v = CancelNotEnough \<Longrightarrow>
      runsTo (ledgerRep env A) (cancelCredit env from to v h f) L (Err (ErrMsg ''vote credit not enough'')) L"
  unfolding cancelCredit_def using cancelOutcome_absent [of L to env "from" v]
  by (rule_tac [!] runsTo_bind [OF lookupStake_runs [OF assms]])
    (auto simp: cancelOutcome_def stake_def runsTo_raise split: option.splits)

lemma cancelCredit_done:
  assumes "envOK env A" "from \<in> A" "to \<in> A" "cancelOutcome env L from to v = CancelDone l p rest"
    and "runsTo (ledgerRep env A) (f l ((stake L to)\<lparr>RC := rest\<rparr>)) L (Ok y) L1"
  shows "runsTo (ledgerRep env A) (cancelCredit env from to v h f) L (Ok p)
     (setStake L1 from (y\<lparr>CC := addCancel h v (CC y)\<rparr>))"
proof -
  obtain x where x: "lStake L to = Some x" "stake L to = x"
    using assms(4) cancelOutcome_absent [of L to] by (cases "lStake L to") (auto simp: stake_def)
  then have r: "cancelRC env from v (RC x) = CancelDone l p rest" using assms(4) by (simp add: cancelOutcome_def)
  show ?thesis unfolding cancelCredit_def
    by (rule runsTo_bind [OF lookupStake_runs [OF assms(3)]], simp only: x r option.case cancelResult.case,
        rule runsTo_bind [OF assms(5) [unfolded x(2)]], rule runsTo_bind,
        rule putStakeStorage_runs [OF assms(1,2)], rule runsTo_return)
qed

lemma CancelVoteCredit_s_done:
  assumes "envOK env A" "from \<in> A" "to \<in> A" "from \<noteq> to" "v > 0"
    and "cancelOutcome env L from to v = CancelDone l p rest"
  shows "runsTo (ledgerRep env A) (CancelVoteCredit_s env from to v h) L (Ok p) (addWaiting (takeCredit L to rest) from v h)"
proof -
  let ?f = "\<lambda>_ storage. bindA (putStakeStorage env to storage) (\<lambda>_. bindA (lookupStake env from) (\<lambda>st.
          returnA (case st of None \<Rightarrow> emptyStake | Some x \<Rightarrow> x)))"
  have "runsTo (ledgerRep env A) (?f l ((stake L to)\<lparr>RC := rest\<rparr>)) L
      (Ok (stake (takeCredit L to rest) from)) (takeCredit L to rest)"
    unfolding takeCredit_def stake_def [of _ "from"]
    by (rule runsTo_bind [OF putStakeStorage_runs [OF assms(1,3)]], rule runsTo_bind [OF lookupStake_runs [OF assms(2)]],
        rule runsTo_return)
  from cancelCredit_done [where f = ?f, OF assms(1-3,6), OF this] show ?thesis
    using assms(4,5) by (simp add: CancelVoteCredit_s_def addWaiting_def)
qed

definition unregistered :: "Ledger \<Rightarrow> address \<Rightarrow> int \<Rightarrow> Ledger" where
  "unregistered L a left = (if left < pledgeLimit then L\<lparr>lCands := remove1 a (lCands L)\<rparr> else L)"

lemma CancelCandidateCredit_s_done:
  assumes "envOK env A" "from \<in> A" "distinct (lCands L)" "cancelOutcome env L from from v = CancelDone l p rest"
  shows "runsTo (ledgerRep env A) (CancelCandidateCredit_s env from v h) L (Ok p)
     (addWaiting (takeCredit (unregistered L from l) from rest) from v h)"
proof -
  let ?f = "\<lambda>left storage. bindA (if left < pledgeLimit then tryA (DelCandidateAddr env from) else returnA (Ok ()))
         (\<lambda>_. returnA storage)"
  have st: "stake (unregistered L from l) = stake L" by (simp add: unregistered_def fun_eq_iff)
  have "runsTo (ledgerRep env A) (?f l ((stake L from)\<lparr>RC := rest\<rparr>)) L
      (Ok ((stake L from)\<lparr>RC := rest\<rparr>)) (unregistered L from l)"
    using runsTo_try_Ok [OF DelCandidateAddr_runs [OF assms(1,3)]]
    by (cases "l < pledgeLimit") (auto simp: unregistered_def intro!: runsTo_bind [OF _ runsTo_return] runsTo_return)
  from cancelCredit_done [where f = ?f, OF assms(1,2,2,4), OF this] show ?thesis
    by (simp add: CancelCandidateCredit_s_def addWaiting_def takeCredit_def st)
qed

end
