(* ===== verification/Bloom.thy ===== *)
theory Bloom
  imports ChainTypes
begin

section \<open>Receipts and their bloom filters\<close>

text \<open>
  \<^verbatim>\<open>types/receipt.go\<close>, \<^verbatim>\<open>types/log.go\<close> and \<^verbatim>\<open>types/bloom9.go\<close>. A bloom filter is 256 bytes; the
  code computes on it as a big integer, which is a natural number here. A filter built
  from receipts finds every address and topic of their logs.
\<close>

record Log =
  logTxType :: u64
  logAddress :: address
  logTopics :: "hash list"
  logData :: bytes
  logTxHash :: hash
  logHeight :: u64

record Receipt =
  rPostState :: bytes
  rStatus :: u64
  rCumulativeGasUsed :: u64
  rLogs :: "Log list"
  rBloom :: bytes
  rTxHash :: hash
  rContractAddress :: address
  rGasUsed :: u64
  rBlockHash :: hash
  rBlockNumber :: u64

definition ReceiptStatusFailed :: u64 where "ReceiptStatusFailed = 0"
definition ReceiptStatusSuccessful :: u64 where "ReceiptStatusSuccessful = 1"

definition BloomByteLength :: nat where "BloomByteLength = 256"

definition NewReceipt :: "bytes \<Rightarrow> bool \<Rightarrow> u64 \<Rightarrow> Receipt" where
  "NewReceipt root failed cumulativeGasUsed =
     \<lparr>rPostState = root, rStatus = (if failed then ReceiptStatusFailed else ReceiptStatusSuccessful),
      rCumulativeGasUsed = cumulativeGasUsed, rLogs = [], rBloom = replicate BloomByteLength 0, rTxHash = ZeroHash,
      rContractAddress = ZeroAddress, rGasUsed = 0, rBlockHash = ZeroHash, rBlockNumber = 0\<rparr>"

subsection \<open>Big integers as bytes\<close>

definition beNat :: "bytes \<Rightarrow> nat" where
  "beNat bs = foldl (\<lambda>a b. a * 256 + unat b) 0 bs"

function natBytes :: "nat \<Rightarrow> bytes" where
  "natBytes n = (if n = 0 then [] else natBytes (n div 256) @ [of_nat (n mod 256)])"
  by pat_completeness auto
termination by (relation "measure id") auto

declare natBytes.simps [simp del]

subsection \<open>The filter\<close>

text \<open>\<^verbatim>\<open>copy(b[256-len(d):], d)\<close>; more than 256 bytes panic.\<close>

definition SetBytes_b :: "bytes \<Rightarrow> bytes \<Rightarrow> bytes option" where
  "SetBytes_b b d = (if length b < length d then None else Some (take (BloomByteLength - length d) b @ d))"

definition BytesToBloom :: "bytes \<Rightarrow> bytes option" where
  "BytesToBloom b = SetBytes_b (replicate BloomByteLength 0) b"

definition bloom9 :: "(bytes \<Rightarrow> bytes) \<Rightarrow> bytes \<Rightarrow> nat" where
  "bloom9 keccak b =
     (let h = keccak b
      in foldl (\<lambda>r i. r OR 2 ^ ((unat (h ! (i + 1)) + unat (h ! i) * 256) mod 2048)) 0 [0, 2, 4])"

definition Add_b :: "(bytes \<Rightarrow> bytes) \<Rightarrow> bytes \<Rightarrow> nat \<Rightarrow> bytes option" where
  "Add_b keccak b d = SetBytes_b b (natBytes (beNat b OR bloom9 keccak (natBytes d)))"

definition LogsBloom :: "(bytes \<Rightarrow> bytes) \<Rightarrow> Log list \<Rightarrow> nat" where
  "LogsBloom keccak logs =
     foldl (\<lambda>bin log. foldl (\<lambda>bin b. bin OR bloom9 keccak b) (bin OR bloom9 keccak (logAddress log)) (logTopics log)) 0 logs"

definition CreateBloom :: "(bytes \<Rightarrow> bytes) \<Rightarrow> Receipt list \<Rightarrow> bytes option" where
  "CreateBloom keccak receipts =
     BytesToBloom (natBytes (foldl (\<lambda>bin receipt. bin OR LogsBloom keccak (rLogs receipt)) 0 receipts))"

definition BloomLookup :: "(bytes \<Rightarrow> bytes) \<Rightarrow> bytes \<Rightarrow> bytes \<Rightarrow> bool" where
  "BloomLookup keccak bin topic = (let cmp = bloom9 keccak topic in beNat bin AND cmp = cmp)"

text \<open>\<^verbatim>\<open>TestBytes\<close> goes through a big integer, which drops the leading zeros of its argument.\<close>

definition TestBytes :: "(bytes \<Rightarrow> bytes) \<Rightarrow> bytes \<Rightarrow> bytes \<Rightarrow> bool" where
  "TestBytes keccak bin test = BloomLookup keccak bin (natBytes (beNat test))"

subsection \<open>Correctness\<close>

lemma beNat_append_one [simp]: "beNat (bs @ [b]) = beNat bs * 256 + unat b" "beNat [] = 0"
  by (simp_all add: beNat_def)

lemma beNat_natBytes [simp]: "beNat (natBytes n) = n"
proof (induction n rule: natBytes.induct)
  case (1 n)
  have "unat (of_nat (n mod 256) :: byte) = n mod 256"
    by (simp add: unsigned_of_nat take_bit_nat_eq_self)
  then show ?case using 1 by (subst natBytes.simps) simp
qed

lemma length_natBytes: "n < 256 ^ k \<Longrightarrow> length (natBytes n) \<le> k"
proof (induction k arbitrary: n)
  case 0
  then show ?case by (subst natBytes.simps) simp
next
  case (Suc k)
  then have "n div 256 < 256 ^ k" by (simp add: less_mult_imp_div_less mult.commute)
  then show ?case using Suc.IH by (subst natBytes.simps) simp
qed

lemma beNat_zeros: "beNat (replicate k 0 @ bs) = beNat bs"
proof (induction bs rule: rev_induct)
  case Nil
  have "beNat (replicate k 0) = 0" unfolding beNat_def by (induction k) simp_all
  then show ?case by simp
next
  case (snoc b bs)
  then show ?case by (simp flip: append_assoc)
qed

definition small :: "nat \<Rightarrow> bool" where
  "small n \<longleftrightarrow> take_bit 2048 n = n"

lemma small_or [simp]: "\<lbrakk>small a; small b\<rbrakk> \<Longrightarrow> small (a OR b)" "small 0"
  by (simp_all add: small_def take_bit_or)

lemma small_bloom9 [simp]: "small (bloom9 keccak b)"
proof -
  have "small (2 ^ (m mod 2048))" for m
  proof -
    have "(2 :: nat) ^ (m mod 2048) < 2 ^ 2048" by (intro power_strict_increasing) auto
    then show ?thesis by (simp add: small_def take_bit_nat_eq_self)
  qed
  then show ?thesis by (simp add: bloom9_def Let_def)
qed

lemma BytesToBloom_small:
  assumes "small n"
  shows "\<exists>bl. BytesToBloom (natBytes n) = Some bl \<and> length bl = BloomByteLength \<and> beNat bl = n"
proof -
  have "n < 2 ^ 2048" using assms by (metis small_def take_bit_nat_less_exp)
  also have "(2 :: nat) ^ 2048 = 256 ^ 256" using power_mult [of "2 :: nat" 8 256] by simp
  finally have "n < 256 ^ 256" .
  then have "length (natBytes n) \<le> 256" by (rule length_natBytes)
  then show ?thesis by (simp add: BytesToBloom_def SetBytes_b_def BloomByteLength_def beNat_zeros)
qed

text \<open>The bits of every element are in a fold of \<open>OR\<close>.\<close>

definition within :: "nat \<Rightarrow> nat \<Rightarrow> bool" where
  "within a b \<longleftrightarrow> b AND a = a"

lemma within_or [simp]: "within a (a OR b)" "within a b \<Longrightarrow> within a (b OR c)" "within a c \<Longrightarrow> within a (b OR c)" "within a a"
  by (auto simp: within_def bit_eq_iff bit_simps)

lemma within_foldl_init: "within a b \<Longrightarrow> within a (foldl (\<lambda>bin x. bin OR f x) b xs)"
  by (induction xs arbitrary: b) simp_all

lemma within_foldl: "\<lbrakk>x \<in> set xs; within a (f x)\<rbrakk> \<Longrightarrow> within a (foldl (\<lambda>bin x. bin OR f x) b xs)"
  by (induction xs arbitrary: b) (auto intro: within_foldl_init)

lemma small_foldl: "\<lbrakk>small b; \<And>x. x \<in> set xs \<Longrightarrow> small (f x)\<rbrakk> \<Longrightarrow> small (foldl (\<lambda>bin x. bin OR f x) b xs)"
  by (induction xs arbitrary: b) simp_all

definition logBits :: "(bytes \<Rightarrow> bytes) \<Rightarrow> Log \<Rightarrow> nat" where
  "logBits keccak log = foldl (\<lambda>bin b. bin OR bloom9 keccak b) (bloom9 keccak (logAddress log)) (logTopics log)"

lemma foldl_or_init: "foldl (\<lambda>bin b. bin OR f b) ((c :: nat) OR d) xs = c OR foldl (\<lambda>bin b. bin OR f b) d xs"
  by (induction xs arbitrary: d) (simp_all add: or.assoc)

lemma LogsBloom_alt: "LogsBloom keccak logs = foldl (\<lambda>bin log. bin OR logBits keccak log) 0 logs"
  by (simp add: LogsBloom_def logBits_def foldl_or_init)

lemma logBits_within:
  "within (bloom9 keccak (logAddress log)) (logBits keccak log)"
  "t \<in> set (logTopics log) \<Longrightarrow> within (bloom9 keccak t) (logBits keccak log)"
  unfolding logBits_def by (rule within_foldl_init, simp, erule within_foldl, simp)

lemma small_LogsBloom [simp]: "small (LogsBloom keccak logs)"
  unfolding LogsBloom_alt by (intro small_foldl) (auto simp: logBits_def intro: small_foldl)

text \<open>
  C22. A bloom filter made from receipts has 256 bytes and finds every address and every
  topic of their logs: there are no false negatives.
\<close>

theorem CreateBloom_finds:
  assumes "receipt \<in> set receipts" "log \<in> set (rLogs receipt)"
  shows "\<exists>bl. CreateBloom keccak receipts = Some bl \<and> length bl = BloomByteLength \<and>
     BloomLookup keccak bl (logAddress log) \<and> (\<forall>t\<in>set (logTopics log). BloomLookup keccak bl t)"
proof -
  let ?n = "foldl (\<lambda>bin receipt. bin OR LogsBloom keccak (rLogs receipt)) 0 receipts"
  have "small ?n" by (intro small_foldl) simp_all
  then obtain bl where bl: "CreateBloom keccak receipts = Some bl" "length bl = BloomByteLength" "beNat bl = ?n"
    using BytesToBloom_small by (auto simp: CreateBloom_def)
  have "within a ?n" if "within a (logBits keccak log)" for a
    by (rule within_foldl [OF assms(1)], unfold LogsBloom_alt, rule within_foldl [OF assms(2)], rule that)
  then have "BloomLookup keccak bl t" if "within (bloom9 keccak t) (logBits keccak log)" for t
    using that by (simp add: BloomLookup_def bl(3) within_def)
  then show ?thesis using bl(1,2) logBits_within by blast
qed

definition exampleLog :: Log where
  "exampleLog = \<lparr>logTxType = 2, logAddress = replicate 20 7, logTopics = [replicate 32 1], logData = [],
     logTxHash = ZeroHash, logHeight = 5\<rparr>"

theorem CreateBloom_finds_witness:
  "\<exists>bl. CreateBloom (\<lambda>b. take 32 (b @ replicate 32 0)) [(NewReceipt [] False 21000)\<lparr>rLogs := [exampleLog]\<rparr>] = Some bl \<and>
     BloomLookup (\<lambda>b. take 32 (b @ replicate 32 0)) bl (replicate 20 7)"
proof -
  have "(NewReceipt [] False 21000)\<lparr>rLogs := [exampleLog]\<rparr> \<in> set [(NewReceipt [] False 21000)\<lparr>rLogs := [exampleLog]\<rparr>]"
    "exampleLog \<in> set (rLogs ((NewReceipt [] False 21000)\<lparr>rLogs := [exampleLog]\<rparr>))"
    "logAddress exampleLog = replicate 20 7"
    by (simp_all add: exampleLog_def)
  from CreateBloom_finds [OF this(1,2), of "\<lambda>b. take 32 (b @ replicate 32 0)"] this(3) show ?thesis by auto
qed

end
