(* ===== verification/TxExec.thy ===== *)
theory TxExec
  imports StakeSem Bloom
begin

section \<open>Transaction execution\<close>

text \<open>
  \<^verbatim>\<open>chain/transactionvalidator.go\<close>, \<^verbatim>\<open>chain/gas_pool.go\<close> and the processors \<^verbatim>\<open>transfertx.go\<close>,
  \<^verbatim>\<open>votetx.go\<close>, \<^verbatim>\<open>cancelvotetx.go\<close>, \<^verbatim>\<open>candidatetx.go\<close>, \<^verbatim>\<open>cancelcandidatetx.go\<close>, \<^verbatim>\<open>aliastx.go\<close>.
  The part of an \<^verbatim>\<open>ExecuteTransactionContext\<close> that changes is the state \<open>TxState\<close>: the store, the
  gas pool of the block and the two gas counters; the rest is the constant \<open>TxCtx\<close>. A
  processor that sets \<^verbatim>\<open>Txerror\<close> and returns is an action that raises it: what it wrote
  before stays written.
\<close>

record TxState =
  tStore :: StoreDB
  tGp :: u64
  tGasRemained :: u64
  tInitialGas :: u64

record TxCtx =
  cEnv :: Env
  cFrom :: address
  cTx :: Transaction
  cHeight :: u64

record ExecuteTransactionResult =
  TxResult :: bytes
  ContractTxExecuteFail :: bool
  ContractTxLog :: "Log list"
  ContractAddr :: address

definition emptyResult :: ExecuteTransactionResult where
  "emptyResult = \<lparr>TxResult = [], ContractTxExecuteFail = False, ContractTxLog = [], ContractAddr = ZeroAddress\<rparr>"

type_synonym 'a txAction = "(TxState, chainError, 'a) action"

definition onStore :: "'a storeAction \<Rightarrow> 'a txAction" where
  "onStore m s = (let (r, st) = m (tStore s) in (r, s\<lparr>tStore := st\<rparr>))"

definition readTx :: "(TxState \<Rightarrow> 'a) \<Rightarrow> 'a txAction" where
  "readTx f s = (Ok (f s), s)"

text \<open>Calling a method on a nil big integer panics.\<close>

definition nonNil :: "'a option \<Rightarrow> ('a \<Rightarrow> 'b txAction) \<Rightarrow> 'b txAction" where
  "nonNil x f = (case x of None \<Rightarrow> (\<lambda>s. (Panic, s)) | Some y \<Rightarrow> f y)"

subsection \<open>The gas pool of a block\<close>

definition AddGas :: "u64 \<Rightarrow> unit txAction" where
  "AddGas amount s = (if tGp s > - 1 - amount then (Panic, s) else (Ok (), s\<lparr>tGp := tGp s + amount\<rparr>))"

definition SubGas :: "u64 \<Rightarrow> unit txAction" where
  "SubGas amount s = (if tGp s < amount then (Err ErrReachGasLimit, s) else (Ok (), s\<lparr>tGp := tGp s - amount\<rparr>))"

subsection \<open>The transaction context\<close>

definition RefundGas :: "u64 \<Rightarrow> unit txAction" where
  "RefundGas refundGas s = (Ok (), s\<lparr>tGasRemained := tGasRemained s + refundGas\<rparr>)"

definition UseGas :: "u64 \<Rightarrow> unit txAction" where
  "UseGas amount s = (if tGasRemained s < amount then (Err ErrOutOfGas, s)
     else (Ok (), s\<lparr>tGasRemained := tGasRemained s - amount\<rparr>))"

definition txGasUsed :: "TxState \<Rightarrow> u64" where
  "txGasUsed s = tInitialGas s - tGasRemained s"

definition txToAddr :: "TxCtx \<Rightarrow> address" where
  "txToAddr c = (if addrIsEmpty (txTo (cTx c)) then ZeroAddress else txTo (cTx c))"

text \<open>An error of \<^verbatim>\<open>AddBalance\<close> ends \<^verbatim>\<open>RefundCoin\<close> without an error and without refilling the pool.\<close>

definition RefundCoin :: "TxCtx \<Rightarrow> unit txAction" where
  "RefundCoin c =
     bindA (readTx tGasRemained) (\<lambda>gasRemained.
     bindA (tryA (onStore (AddBalance (cEnv c) (cFrom c) (cHeight c) (uint gasRemained * txGasPrice (cTx c))))) (\<lambda>r.
       case r of Ok _ \<Rightarrow> AddGas gasRemained | _ \<Rightarrow> returnA ()))"

definition buyGas :: "TxCtx \<Rightarrow> unit txAction" where
  "buyGas c =
     (let mgval = uint (txGas (cTx c)) * txGasPrice (cTx c)
      in bindA (onStore (GetBalance (cEnv c) (cFrom c) (cHeight c))) (\<lambda>balance.
         nonNil balance (\<lambda>b.
           if b < mgval then raiseA ErrInsufficientBalanceForGas
           else bindA (SubGas (txGas (cTx c))) (\<lambda>_.
                bindA (RefundGas (txGas (cTx c))) (\<lambda>_.
                bindA (\<lambda>s. (Ok (), s\<lparr>tInitialGas := txGas (cTx c)\<rparr>)) (\<lambda>_.
                  onStore (SubBalance (cEnv c) (cFrom c) (cHeight c) mgval)))))))"

definition PreCheck :: "TxCtx \<Rightarrow> unit txAction" where
  "PreCheck c =
     bindA (onStore (GetNonce (cEnv c) (cFrom c))) (\<lambda>nonce.
       if nonce < txNonce (cTx c) then raiseA ErrNonceTooHigh
       else if nonce > txNonce (cTx c) then raiseA ErrNonceTooLow
       else buyGas c)"

subsection \<open>Processors\<close>

type_synonym processor = "TxCtx \<Rightarrow> ExecuteTransactionResult txAction"

definition finishTx :: "TxCtx \<Rightarrow> ExecuteTransactionResult txAction" where
  "finishTx c = bindA (onStore (PutNonce (cEnv c) (cFrom c) (txNonce (cTx c) + 1))) (\<lambda>_. returnA emptyResult)"

definition payFrom :: "TxCtx \<Rightarrow> int \<Rightarrow> unit txAction" where
  "payFrom c amount =
     bindA (onStore (GetBalance (cEnv c) (cFrom c) (cHeight c))) (\<lambda>originBalance.
     nonNil originBalance (\<lambda>b.
       if b - amount < 0 then raiseA ErrBalance
       else onStore (PutBalance (cEnv c) (cFrom c) (cHeight c) (b - amount))))"

definition payTo :: "TxCtx \<Rightarrow> address \<Rightarrow> int \<Rightarrow> unit txAction" where
  "payTo c to amount =
     bindA (onStore (GetBalance (cEnv c) to (cHeight c))) (\<lambda>toBalance.
     nonNil toBalance (\<lambda>b. onStore (PutBalance (cEnv c) to (cHeight c) (b + amount))))"

definition transferExec :: processor where
  "transferExec c =
     bindA (payFrom c (txAmount (cTx c))) (\<lambda>_.
     bindA (payTo c (txTo (cTx c)) (txAmount (cTx c))) (\<lambda>_.
       finishTx c))"

definition stakeExec :: processor where
  "stakeExec c =
     bindA (payFrom c (txAmount (cTx c))) (\<lambda>_.
     bindA (onStore (VoteCredit (cEnv c) (cFrom c) (txTo (cTx c)) (txAmount (cTx c)) (cHeight c))) (\<lambda>_.
       finishTx c))"

definition cancelVoteExec :: processor where
  "cancelVoteExec c =
     bindA (onStore (CancelVoteCredit (cEnv c) (cFrom c) (txTo (cTx c)) (txAmount (cTx c)) (cHeight c))) (\<lambda>_.
       finishTx c)"

definition candidateExec :: processor where
  "candidateExec c =
     bindA (payFrom c (txAmount (cTx c))) (\<lambda>_.
       case candUnmarshal (cEnv c) (txData (cTx c)) of
         None \<Rightarrow> raiseA ErrDecode
       | Some _ \<Rightarrow>
           bindA (onStore (CandidateCredit (cEnv c) (cFrom c) (Some (txAmount (cTx c))) (txData (cTx c)) (cHeight c))) (\<lambda>_.
             finishTx c))"

definition cancelCandidateExec :: processor where
  "cancelCandidateExec c =
     bindA (onStore (CancelCandidateCredit (cEnv c) (cFrom c) (txAmount (cTx c)) (cHeight c))) (\<lambda>_.
       finishTx c)"

text \<open>
  A byte from 128 on decodes to a rune outside the three ranges, so the check of the runes
  is the check of the bytes.
\<close>

definition aliasChar :: "byte \<Rightarrow> bool" where
  "aliasChar b = ((48 \<le> b \<and> b \<le> 57) \<or> (65 \<le> b \<and> b \<le> 90) \<or> (97 \<le> b \<and> b \<le> 122))"

definition CheckAlias :: "bytes \<Rightarrow> (chainError, unit) res" where
  "CheckAlias alias =
     (if length alias < 5 then Err ErrTooShortAlias
      else if length alias > 20 then Err ErrTooLongAlias
      else if \<exists>b\<in>set alias. \<not> aliasChar b then Err ErrUnsupportAliasChar
      else Ok ())"

definition aliasCalcers :: "((nat \<Rightarrow> bool) \<times> int) list" where
  "aliasCalcers =
     [(\<lambda>n. n = 5, CoinFromNumer 160000), (\<lambda>n. n = 6, CoinFromNumer 80000), (\<lambda>n. n = 7, CoinFromNumer 40000),
      (\<lambda>n. n = 8, CoinFromNumer 20000), (\<lambda>n. n = 9, CoinFromNumer 10000), (\<lambda>n. n = 10, CoinFromNumer 5000),
      (\<lambda>n. n = 11, CoinFromNumer 2500), (\<lambda>n. n > 11, 0)]"

definition aliasFee :: "nat \<Rightarrow> int option" where
  "aliasFee n = map_option snd (List.find (\<lambda>calcer. fst calcer n) aliasCalcers)"

definition aliasExec :: processor where
  "aliasExec c =
     (let alias = txData (cTx c)
      in case CheckAlias alias of
           Err e \<Rightarrow> raiseA e
         | Panic \<Rightarrow> (\<lambda>s. (Panic, s))
         | Ok _ \<Rightarrow>
             bindA (onStore (AliasSet (cEnv c) (cFrom c) alias)) (\<lambda>_.
             bindA (UseGas (AliasGas * of_nat (length alias))) (\<lambda>_.
             nonNil (aliasFee (length alias)) (\<lambda>drepFee.
             bindA (payFrom c drepFee) (\<lambda>_.
             bindA (payTo c HoleAddress drepFee) (\<lambda>_.
               finishTx c))))))"

definition chainValidators :: "((Transaction \<Rightarrow> bool) \<times> processor) list" where
  "chainValidators =
     [(\<lambda>tx. txType tx = TransferType, transferExec),
      (\<lambda>tx. txType tx = SetAliasType, aliasExec),
      (\<lambda>tx. txType tx = VoteCreditType, stakeExec),
      (\<lambda>tx. txType tx = CancelVoteCreditType, cancelVoteExec),
      (\<lambda>tx. txType tx = CandidateType, candidateExec),
      (\<lambda>tx. txType tx = CancelCandidateType, cancelCandidateExec)]"

text \<open>
  The service of the virtual machine adds one more entry to the map, with its processor of contract
  transactions. \<open>nodeValidators evm\<close> are the entries of a node whose virtual machine is \<open>evm\<close>.
\<close>

definition selectEvm :: "Transaction \<Rightarrow> bool" where
  "selectEvm tx \<longleftrightarrow> txType tx = CreateContractType \<or> txType tx = CallContractType"

definition nodeValidators :: "processor \<Rightarrow> ((Transaction \<Rightarrow> bool) \<times> processor) set" where
  "nodeValidators evm = insert (selectEvm, evm) (set chainValidators)"

end
