(* ===== verification/Merkle.thy ===== *)
theory Merkle
  imports Prelude "HOL-Library.Log_Nat"
begin

section \<open>Merkle trees\<close>

text \<open>
  \<^verbatim>\<open>common/merkle.go\<close>. The code links nodes by pointers; a node is here its position, the
  layer and the index in it, from which the parent, the children and the neighbour follow.
  \<^verbatim>\<open>getHeight\<close> goes through floating-point logarithms, which give the rounded-up binary
  logarithm for every number of leaves a block can hold. SHA-256 is a parameter.
\<close>

definition ByteLen :: nat where "ByteLen = 32"

definition HashS256 :: "(bytes \<Rightarrow> bytes) \<Rightarrow> bytes list \<Rightarrow> bytes" where
  "HashS256 sha data = (let ret = sha (concat data) in replicate (ByteLen - length ret) 0 @ ret)"

definition getHeight :: "nat \<Rightarrow> nat" where
  "getHeight n = ceillog2 n + 1"

definition upperHash :: "(bytes \<Rightarrow> bytes) \<Rightarrow> bytes list \<Rightarrow> nat \<Rightarrow> bytes" where
  "upperHash sha layer i =
     (if 2 * i + 1 < length layer then HashS256 sha [layer ! (2 * i), layer ! (2 * i + 1)]
      else HashS256 sha [layer ! (2 * i)])"

definition getUpperLayer :: "(bytes \<Rightarrow> bytes) \<Rightarrow> bytes list \<Rightarrow> bytes list" where
  "getUpperLayer sha layer = map (upperHash sha layer) [0..<(length layer + 1) div 2]"

fun layersFrom :: "(bytes \<Rightarrow> bytes) \<Rightarrow> nat \<Rightarrow> bytes list \<Rightarrow> bytes list list" where
  "layersFrom sha 0 layer = [layer]"
| "layersFrom sha (Suc k) layer = layer # layersFrom sha k (getUpperLayer sha layer)"

record Merkle =
  mLayers :: "bytes list list"
  mHeight :: nat

definition NewMerkle :: "(bytes \<Rightarrow> bytes) \<Rightarrow> bytes list \<Rightarrow> Merkle" where
  "NewMerkle sha hashes =
     (if hashes = [] then \<lparr>mLayers = [], mHeight = 0\<rparr>
      else \<lparr>mLayers = layersFrom sha (getHeight (length hashes) - 1) hashes, mHeight = getHeight (length hashes)\<rparr>)"

definition rootHash :: "Merkle \<Rightarrow> bytes" where
  "rootHash m = (if mLayers m = [] \<or> last (mLayers m) = [] then [] else hd (last (mLayers m)))"

definition merkleRoot :: "(bytes \<Rightarrow> bytes) \<Rightarrow> bytes list \<Rightarrow> bytes" where
  "merkleRoot sha hashes = rootHash (NewMerkle sha hashes)"

text \<open>The neighbour of a node, and the node itself where it has none.\<close>

definition neighbour :: "bytes list \<Rightarrow> nat \<Rightarrow> nat" where
  "neighbour layer i =
     (if even i then if i + 1 < length layer then i + 1 else i else i - 1)"

text \<open>One entry per layer: its hash and its subscript.\<close>

definition getAuthorizationPath :: "Merkle \<Rightarrow> nat \<Rightarrow> (bytes \<times> nat) list" where
  "getAuthorizationPath m leaf =
     map (\<lambda>l. let j = neighbour (mLayers m ! l) (leaf div 2 ^ l) in (mLayers m ! l ! j, j)) [0..<mHeight m]"

text \<open>
  \<open>n\<close> climbs the tree from the leaf; at the last entry the hash made from the layer below
  is compared with it.
\<close>

fun validateLoop :: "(bytes \<Rightarrow> bytes) \<Rightarrow> Merkle \<Rightarrow> bytes \<Rightarrow> nat \<Rightarrow> nat \<Rightarrow> (bytes \<times> nat) list \<Rightarrow> bool" where
  "validateLoop sha m h l i [] = False"
| "validateLoop sha m h l i [(nh, j)] = (h = nh)"
| "validateLoop sha m h l i ((nh, j) # rest) =
     (let n = mLayers m ! l ! i;
          h' = (if i \<noteq> j then if i < j then HashS256 sha [n, nh] else HashS256 sha [nh, n] else HashS256 sha [n])
      in validateLoop sha m h' (l + 1) (i div 2) rest)"

definition validate :: "(bytes \<Rightarrow> bytes) \<Rightarrow> Merkle \<Rightarrow> nat \<Rightarrow> (bytes \<times> nat) list \<Rightarrow> bool" where
  "validate sha m leaf path = validateLoop sha m (mLayers m ! 0 ! leaf) 0 leaf path"

definition IsOnTrie :: "(bytes \<Rightarrow> bytes) \<Rightarrow> Merkle \<Rightarrow> bytes \<Rightarrow> bool" where
  "IsOnTrie sha m hash =
     (case mLayers m of
        [] \<Rightarrow> False
      | leaves # _ \<Rightarrow>
          (case List.find (\<lambda>i. leaves ! i = hash) [0..<length leaves] of
             None \<Rightarrow> False
           | Some i \<Rightarrow> validate sha m i (getAuthorizationPath m i)))"

subsection \<open>Shape\<close>

lemma length_getUpperLayer [simp]: "length (getUpperLayer sha layer) = (length layer + 1) div 2"
  by (simp add: getUpperLayer_def)

lemma nth_getUpperLayer [simp]: "i < (length layer + 1) div 2 \<Longrightarrow> getUpperLayer sha layer ! i = upperHash sha layer i"
  by (simp add: getUpperLayer_def)

lemma length_layersFrom [simp]: "length (layersFrom sha k layer) = Suc k"
  by (induction k arbitrary: layer) simp_all

lemma layersFrom_nonempty [simp]: "layersFrom sha k layer \<noteq> []"
  by (cases k) simp_all

lemma layersFrom_step:
  "l < k \<Longrightarrow> layersFrom sha k layer ! Suc l = getUpperLayer sha (layersFrom sha k layer ! l)"
proof (induction k arbitrary: layer l)
  case (Suc k)
  show ?case
  proof (cases l)
    case 0
    then show ?thesis by (cases k) simp_all
  next
    case (Suc l')
    then show ?thesis using Suc.IH [of l'] Suc.prems by simp
  qed
qed simp

lemma layersFrom_first [simp]: "layersFrom sha k layer ! 0 = layer"
  by (cases k) simp_all

lemma ceillog2_half: "n > 1 \<Longrightarrow> ceillog2 n = Suc (ceillog2 ((n + 1) div 2))"
  by (simp add: ceillog2_rec [of n])

lemma last_layersFrom:
  assumes "layer \<noteq> []" "k = ceillog2 (length layer)"
  shows "\<exists>h. last (layersFrom sha k layer) = [h]"
  using assms
proof (induction k arbitrary: layer)
  case 0
  then have "length layer = 1" by (cases layer) (auto simp: ceillog2_def split: if_splits)
  then show ?case by (auto simp: length_Suc_conv)
next
  case (Suc k)
  then have "length layer > 1" by (cases layer) (auto simp: ceillog2_def split: if_splits)
  then have "k = ceillog2 (length (getUpperLayer sha layer))" "getUpperLayer sha layer \<noteq> []"
    using Suc.prems(2) ceillog2_half [of "length layer"] by (auto simp flip: length_greater_0_conv)
  then have "\<exists>h. last (layersFrom sha k (getUpperLayer sha layer)) = [h]" by (intro Suc.IH)
  then show ?case by simp
qed

lemma NewMerkle_layers:
  assumes "hs \<noteq> []"
  shows "mLayers (NewMerkle sha hs) = layersFrom sha (ceillog2 (length hs)) hs"
    "mHeight (NewMerkle sha hs) = Suc (ceillog2 (length hs))"
    "\<exists>h. mLayers (NewMerkle sha hs) ! ceillog2 (length hs) = [h]"
proof -
  show *: "mLayers (NewMerkle sha hs) = layersFrom sha (ceillog2 (length hs)) hs"
    "mHeight (NewMerkle sha hs) = Suc (ceillog2 (length hs))"
    using assms by (simp_all add: NewMerkle_def getHeight_def)
  show "\<exists>h. mLayers (NewMerkle sha hs) ! ceillog2 (length hs) = [h]"
    using last_layersFrom [OF assms refl, of sha] last_conv_nth [of "layersFrom sha (ceillog2 (length hs)) hs"]
    unfolding * by simp
qed

subsection \<open>Membership\<close>

lemma neighbour_hash:
  assumes "i < length layer"
  shows "(let j = neighbour layer i; n = layer ! i; nh = layer ! j
    in if i \<noteq> j then if i < j then HashS256 sha [n, nh] else HashS256 sha [nh, n] else HashS256 sha [n]) =
    upperHash sha layer (i div 2)"
proof (cases "even i")
  case True
  then have "2 * (i div 2) = i" by simp
  then show ?thesis using True by (simp add: neighbour_def upperHash_def Let_def)
next
  case False
  then have "2 * (i div 2) + 1 = i" by presburger
  then have "2 * (i div 2) = i - 1" "2 * (i div 2) + 1 = i" "i \<noteq> i - 1" "\<not> i < i - 1" by simp_all
  then show ?thesis using assms False unfolding neighbour_def upperHash_def Let_def by simp
qed

lemma validateLoop_true:
  assumes L: "mLayers m = L" "\<And>l. l < k \<Longrightarrow> L ! Suc l = getUpperLayer sha (L ! l)" "L ! k = [r]"
    and f: "\<And>l. f l = (let j = neighbour (L ! l) (leaf div 2 ^ l) in (L ! l ! j, j))"
  shows "\<lbrakk>l \<le> k; leaf div 2 ^ l < length (L ! l)\<rbrakk> \<Longrightarrow>
    validateLoop sha m (L ! l ! (leaf div 2 ^ l)) l (leaf div 2 ^ l) (map f [l..<Suc k])"
proof (induction "k - l" arbitrary: l)
  case 0
  then have "l = k" "leaf div 2 ^ l = 0" using L(3) by auto
  then show ?case by (simp add: f L(3) neighbour_def Let_def)
next
  case (Suc n)
  let ?i = "leaf div 2 ^ l"
  have up: "L ! Suc l = getUpperLayer sha (L ! l)" using L(2) Suc.hyps(2) by simp
  have i: "?i div 2 = leaf div 2 ^ Suc l" by (simp add: div_mult2_eq [symmetric] mult.commute)
  have "?i div 2 < (length (L ! l) + 1) div 2" using Suc.prems(2) by linarith
  then have lt: "leaf div 2 ^ Suc l < length (L ! Suc l)" and e: "L ! Suc l ! (leaf div 2 ^ Suc l) = upperHash sha (L ! l) (?i div 2)"
    unfolding i [symmetric] up by simp_all
  have "validateLoop sha m (upperHash sha (L ! l) (?i div 2)) (Suc l) (?i div 2) (map f [Suc l..<Suc k])"
    unfolding e [symmetric] unfolding i using Suc.hyps(2) lt by (intro Suc.hyps(1)) auto
  moreover obtain x xs where x: "map f [Suc l..<Suc k] = x # xs"
    using Suc.hyps(2) by (cases "map f [Suc l..<Suc k]") (auto simp del: upt_Suc)
  moreover have "map f [l..<Suc k] = f l # map f [Suc l..<Suc k]" using Suc.prems(1) by (simp add: upt_rec)
  ultimately show ?case using neighbour_hash [OF Suc.prems(2), of sha]
    by (simp add: f Let_def L(1) del: upt_Suc)
qed

lemma IsOnTrie_leaf:
  assumes "i < length hs"
  shows "validate sha (NewMerkle sha hs) i (getAuthorizationPath (NewMerkle sha hs) i)"
proof -
  let ?m = "NewMerkle sha hs" and ?k = "ceillog2 (length hs)"
  have ne: "hs \<noteq> []" using assms by auto
  note L = NewMerkle_layers [OF ne, of sha]
  obtain r where r: "mLayers ?m ! ?k = [r]" using L(3) by blast
  have step: "mLayers ?m ! Suc l = getUpperLayer sha (mLayers ?m ! l)" if "l < ?k" for l
    using that by (simp add: L(1) layersFrom_step)
  have "validateLoop sha ?m (mLayers ?m ! 0 ! (i div 2 ^ 0)) 0 (i div 2 ^ 0)
      (map (\<lambda>l. let j = neighbour (mLayers ?m ! l) (i div 2 ^ l) in (mLayers ?m ! l ! j, j)) [0..<Suc ?k])"
    using assms by (intro validateLoop_true [OF refl step r]) (simp_all add: L(1))
  then show ?thesis by (simp add: validate_def getAuthorizationPath_def L(2) del: upt_Suc)
qed

text \<open>
  C20. \<^verbatim>\<open>IsOnTrie\<close> on the tree of a list of hashes answers exactly whether the hash is one of
  them: the authorization path of every leaf leads to the root.
\<close>

theorem IsOnTrie_correct:
  "IsOnTrie sha (NewMerkle sha hs) h \<longleftrightarrow> h \<in> set hs"
proof (cases "hs = []")
  case False
  have layers: "\<exists>rest. mLayers (NewMerkle sha hs) = hs # rest"
    unfolding NewMerkle_layers(1) [OF False] by (cases "ceillog2 (length hs)") auto
  show ?thesis
  proof (cases "List.find (\<lambda>i. hs ! i = h) [0..<length hs]")
    case None
    then have "h \<notin> set hs" by (auto simp: find_None_iff in_set_conv_nth)
    then show ?thesis using layers None by (auto simp: IsOnTrie_def)
  next
    case (Some i)
    then have i: "i < length hs" "hs ! i = h" by (auto simp: find_Some_iff)
    then have "h \<in> set hs" by auto
    then show ?thesis using layers Some IsOnTrie_leaf [OF i(1)] by (auto simp: IsOnTrie_def)
  qed
qed (simp add: IsOnTrie_def NewMerkle_def)

subsection \<open>The root binds the leaves\<close>

definition upperInput :: "bytes list \<Rightarrow> nat \<Rightarrow> bytes" where
  "upperInput layer i = (if 2 * i + 1 < length layer then layer ! (2 * i) @ layer ! (2 * i + 1) else layer ! (2 * i))"

fun hashInputs :: "(bytes \<Rightarrow> bytes) \<Rightarrow> nat \<Rightarrow> bytes list \<Rightarrow> bytes set" where
  "hashInputs sha 0 layer = {}"
| "hashInputs sha (Suc k) layer =
     upperInput layer ` {0..<(length layer + 1) div 2} \<union> hashInputs sha k (getUpperLayer sha layer)"

text \<open>What is fed to the hash function while the tree of the list is built.\<close>

definition merkleInputs :: "(bytes \<Rightarrow> bytes) \<Rightarrow> bytes list \<Rightarrow> bytes set" where
  "merkleInputs sha hs = hashInputs sha (ceillog2 (length hs)) hs"

lemma upperHash_sha: "length (sha (upperInput layer i)) = 32 \<Longrightarrow> upperHash sha layer i = sha (upperInput layer i)"
  by (auto simp: upperHash_def upperInput_def HashS256_def ByteLen_def Let_def split: if_splits)

lemma getUpperLayer_inject:
  assumes "length xs = length ys" "\<forall>x\<in>set xs \<union> set ys. length x = 32" "inj_on sha S" "\<forall>x\<in>S. length (sha x) = 32"
    and "upperInput xs ` {0..<(length xs + 1) div 2} \<subseteq> S" "upperInput ys ` {0..<(length ys + 1) div 2} \<subseteq> S"
    and "getUpperLayer sha xs = getUpperLayer sha ys"
  shows "xs = ys"
proof (rule nth_equalityI [OF assms(1)])
  fix j
  assume j: "j < length xs"
  obtain i where ij: "j = 2 * i \<or> j = 2 * i + 1" by (metis evenE oddE)
  then have i: "i < (length xs + 1) div 2" "2 * i < length xs" using j by linarith+
  then have S: "upperInput xs i \<in> S" "upperInput ys i \<in> S" using assms(1,5,6) by auto
  have "upperHash sha xs i = upperHash sha ys i" using arg_cong [OF assms(7), of "\<lambda>l. l ! i"] i assms(1) by simp
  then have "sha (upperInput xs i) = sha (upperInput ys i)" using S assms(4) by (simp add: upperHash_sha)
  then have e: "upperInput xs i = upperInput ys i" using S assms(3) by (auto dest: inj_onD)
  have len: "length (xs ! (2 * i)) = 32" "length (ys ! (2 * i)) = 32" using assms(1,2) i(2) by auto
  have "xs ! (2 * i) = ys ! (2 * i)" "2 * i + 1 < length xs \<Longrightarrow> xs ! (2 * i + 1) = ys ! (2 * i + 1)"
    using e len unfolding upperInput_def assms(1) by (auto split: if_splits)
  then show "xs ! j = ys ! j" using ij j by blast
qed

lemma layersFrom_inject:
  assumes "inj_on sha S" "\<forall>x\<in>S. length (sha x) = 32"
  shows "\<lbrakk>length xs = length ys; \<forall>x\<in>set xs \<union> set ys. length x = 32; hashInputs sha k xs \<subseteq> S; hashInputs sha k ys \<subseteq> S;
    last (layersFrom sha k xs) = last (layersFrom sha k ys)\<rbrakk> \<Longrightarrow> xs = ys"
proof (induction k arbitrary: xs ys)
  case (Suc k)
  have len: "length z = 32" if z: "z \<in> set (getUpperLayer sha zs)" and S: "hashInputs sha (Suc k) zs \<subseteq> S" for z zs
  proof -
    obtain i where i: "i < (length zs + 1) div 2" "z = upperHash sha zs i"
      using z by (metis in_set_conv_nth length_getUpperLayer nth_getUpperLayer)
    have "upperInput zs i \<in> hashInputs sha (Suc k) zs" using i(1) by (simp add: imageI)
    then have "upperInput zs i \<in> S" using S by blast
    then show ?thesis using i(2) assms(2) by (simp add: upperHash_sha)
  qed
  have S: "upperInput xs ` {0..<(length xs + 1) div 2} \<subseteq> S" "hashInputs sha k (getUpperLayer sha xs) \<subseteq> S"
    "upperInput ys ` {0..<(length ys + 1) div 2} \<subseteq> S" "hashInputs sha k (getUpperLayer sha ys) \<subseteq> S"
    using Suc.prems(3,4) by simp_all
  have "\<forall>x\<in>set (getUpperLayer sha xs) \<union> set (getUpperLayer sha ys). length x = 32"
    by (rule ballI, erule UnE, erule len [OF _ Suc.prems(3)], erule len [OF _ Suc.prems(4)])
  then have "getUpperLayer sha xs = getUpperLayer sha ys"
    using Suc.prems(1,5) by (intro Suc.IH [OF _ _ S(2,4)]; simp)
  then show ?case by (rule getUpperLayer_inject [OF Suc.prems(1,2) assms S(1,3)])
qed simp

text \<open>
  C21. Two different lists of as many 32-byte hashes have different Merkle roots, as long as
  the hash function has no collision among the inputs the two trees feed to it.
\<close>

theorem merkleRoot_binds:
  assumes "length xs = length ys" "xs \<noteq> ys" "\<forall>x\<in>set xs \<union> set ys. length x = 32"
    and "inj_on sha (merkleInputs sha xs \<union> merkleInputs sha ys)"
    and "\<forall>x\<in>merkleInputs sha xs \<union> merkleInputs sha ys. length (sha x) = 32"
  shows "merkleRoot sha xs \<noteq> merkleRoot sha ys"
proof
  assume eq: "merkleRoot sha xs = merkleRoot sha ys"
  have ne: "xs \<noteq> []" "ys \<noteq> []" using assms(1,2) by auto
  have root: "last (layersFrom sha (ceillog2 (length zs)) zs) = [merkleRoot sha zs]" if "zs \<noteq> []" for zs
    using last_layersFrom [OF that refl, of sha]
    by (auto simp: merkleRoot_def rootHash_def NewMerkle_layers(1) [OF that])
  have "xs = ys"
    using layersFrom_inject [OF assms(4,5) assms(1,3), of "ceillog2 (length xs)"] root [OF ne(1)] root [OF ne(2)] eq assms(1)
    by (simp add: merkleInputs_def)
  then show False using assms(2) by simp
qed

lemma merkleInputs_two: "merkleInputs sha [a, b] = {a @ b}"
proof -
  have "ceillog2 (length [a, b]) = Suc 0" using ceillog2_2 by (simp add: numeral_2_eq_2)
  then show ?thesis by (simp add: merkleInputs_def upperInput_def)
qed

theorem merkleRoot_binds_witness:
  "merkleRoot (drop 32) [replicate 32 1, replicate 32 2] \<noteq> merkleRoot (drop 32) [replicate 32 1, replicate 32 3]"
proof (rule merkleRoot_binds)
  have "(replicate 32 2 :: bytes) \<noteq> replicate 32 3" by (simp add: replicate_eq_replicate)
  then show "[replicate 32 1, replicate 32 2 :: bytes] \<noteq> [replicate 32 1, replicate 32 3]" by simp
  then show "inj_on (drop 32) (merkleInputs (drop 32) [replicate 32 1, replicate 32 2] \<union>
      merkleInputs (drop 32) [replicate 32 1, replicate 32 3])"
    by (simp add: merkleInputs_two inj_on_def)
qed (simp_all add: merkleInputs_two)

end
