(* ===== verification/BlockExec.thy ===== *)
theory BlockExec
  imports TxExec Merkle
begin

section \<open>Block execution\<close>

text \<open>
  \<^verbatim>\<open>chain/blockexecutor.go\<close>, the block template of \<^verbatim>\<open>blockmgr/templatevalidator.go\<close> and
  \<^verbatim>\<open>blockmgr/generate.go\<close>, the gas limit of \<^verbatim>\<open>chain/process.go\<close> and the receipt part of
  \<^verbatim>\<open>chain/chainstore.go\<close>. The map of validators is iterated in an order Go does not fix, so it
  is a list of any order. Hashing and encoding of headers and receipts are parameters.
\<close>

record Block =
  bHeader :: BlockHeader
  bTxCount :: u64
  bTxList :: "Transaction list"
  bProofType :: int
  bEvidence :: bytes

record ChainEnv =
  nEnv :: Env
  sha256 :: "bytes \<Rightarrow> bytes"
  headerHash :: "BlockHeader \<Rightarrow> hash"
  encReceipt :: "Receipt option \<Rightarrow> bytes option"
  encReceipts :: "Receipt list \<Rightarrow> bytes option"
  decReceipt :: "bytes \<Rightarrow> Receipt option"
  decReceipts :: "bytes \<Rightarrow> Receipt list option"

abbreviation hashFn :: "ChainEnv \<Rightarrow> bytes \<Rightarrow> bytes" where
  "hashFn ce \<equiv> keccak (crypto (nEnv ce))"

record BlockExecuteContext =
  bcStore :: StoreDB
  bcGp :: u64
  bcGasUsed :: int
  bcGasFee :: int
  bcLogs :: "Log list"
  bcReceipts :: "Receipt option list"
  bcDb :: "bytes \<rightharpoonup> bytes"

definition NewBlockExecuteContext :: "StoreDB \<Rightarrow> u64 \<Rightarrow> (bytes \<rightharpoonup> bytes) \<Rightarrow> BlockExecuteContext" where
  "NewBlockExecuteContext trieStore gp db =
     \<lparr>bcStore = trieStore, bcGp = gp, bcGasUsed = 0, bcGasFee = 0, bcLogs = [], bcReceipts = [], bcDb = db\<rparr>"

type_synonym 'a blockAction = "(BlockExecuteContext, chainError, 'a) action"
type_synonym validators = "((Transaction \<Rightarrow> bool) \<times> processor) list"

definition panicA :: "('s, 'e, 'a) action" where
  "panicA s = (Panic, s)"

definition onBlockStore :: "'a storeAction \<Rightarrow> 'a blockAction" where
  "onBlockStore m bc = (let (r, st) = m (bcStore bc) in (r, bc\<lparr>bcStore := st\<rparr>))"

subsection \<open>Header and body\<close>

definition span :: u64 where "span = MaxGasLimit div 360"

definition CalcGasLimit :: "BlockHeader \<Rightarrow> u64 \<Rightarrow> u64 \<Rightarrow> int" where
  "CalcGasLimit parent gasFloor gasCeil =
     (let pl = bigUint64 (hGasLimit parent); pu = bigUint64 (hGasUsed parent);
          limit0 = (if (pl * 2) div 3 > pu then pl - span else pl + span);
          limit1 = (if limit0 < MinGasLimit then MinGasLimit else limit0);
          limit2 = (if limit1 < gasFloor then gasFloor else if limit1 > gasCeil then gasCeil else limit1)
      in uint limit2)"

definition NodeVersion :: "32 word" where "NodeVersion = 1"

definition VerifyHeader :: "ChainEnv \<Rightarrow> u32 \<Rightarrow> BlockHeader \<Rightarrow> BlockHeader \<Rightarrow> (chainError, unit) res" where
  "VerifyHeader ce chainId header parent =
     (if hChainId header \<noteq> chainId then Err ErrChainId
      else if hVersion header \<noteq> NodeVersion then Err ErrVersion
      else if hPreviousHash header \<noteq> headerHash ce parent then Err ErrPreHash
      else if hHeight header - hHeight parent \<noteq> 1 then Err ErrInvalidateBlockNumber
      else if hTimestamp header \<le> hTimestamp parent then Err ErrInvalidateTimestamp
      else if bigUint64 (hGasLimit header) > 0x7fffffffffffffff then Err ErrGasLimit
      else if bigUint64 (hGasUsed header) > bigUint64 (hGasLimit header) then Err ErrGasUsed
      else if CalcGasLimit parent MinGasLimit MaxGasLimit \<noteq> hGasLimit header then Err ErrGasLimit
      else Ok ())"

definition DeriveMerkleRoot :: "ChainEnv \<Rightarrow> Transaction list \<Rightarrow> bytes" where
  "DeriveMerkleRoot ce txs = (if txs = [] then [] else merkleRoot (sha256 ce) (map txHash txs))"

definition VerifyBody :: "ChainEnv \<Rightarrow> Block \<Rightarrow> (chainError, unit) res" where
  "VerifyBody ce block =
     (if DeriveMerkleRoot ce (bTxList block) \<noteq> hTxRoot (bHeader block) then Err ErrTxRoot else Ok ())"

definition DeriveReceiptRoot :: "ChainEnv \<Rightarrow> Receipt option list \<Rightarrow> hash option" where
  "DeriveReceiptRoot ce receipts =
     (if receipts = [] then Some ZeroHash
      else Bytes2Hash (Some (merkleRoot (sha256 ce)
        (map (\<lambda>r. hashFn ce (case encReceipt ce r of None \<Rightarrow> [] | Some b \<Rightarrow> b)) receipts))))"

subsection \<open>One transaction\<close>

definition chargeTx :: "TxCtx \<Rightarrow> unit txAction" where
  "chargeTx c =
     bindA (PreCheck c) (\<lambda>_.
       case IntrinsicGas (cTx c) of
         None \<Rightarrow> raiseA ErrIntrinsicGas
       | Some gas \<Rightarrow> UseGas gas)"

text \<open>The receipt; \<open>addr\<close> is the contract address it starts from.\<close>

definition baseReceipt :: "TxCtx \<Rightarrow> ExecuteTransactionResult \<Rightarrow> address \<Rightarrow> u64 \<Rightarrow> Receipt" where
  "baseReceipt c etr addr gasUsed =
     (NewReceipt ZeroHash (ContractTxExecuteFail etr) gasUsed)
       \<lparr>rTxHash := txHash (cTx c), rGasUsed := gasUsed,
        rContractAddress := (if addrIsEmpty (txTo (cTx c)) \<and> txType (cTx c) = CreateContractType
                              then CreateAddress (keccak (crypto (cEnv c))) (cFrom c) (txNonce (cTx c)) else addr),
        rLogs := ContractTxLog etr, rBlockNumber := cHeight c\<rparr>"

definition makeReceipt :: "TxCtx \<Rightarrow> ExecuteTransactionResult \<Rightarrow> address \<Rightarrow> u64 \<Rightarrow> Receipt option" where
  "makeReceipt c etr addr gasUsed =
     (let r = baseReceipt c etr addr gasUsed
      in map_option (\<lambda>bl. r\<lparr>rBloom := bl\<rparr>) (CreateBloom (keccak (crypto (cEnv c))) [r]))"

definition settleTx :: "TxCtx \<Rightarrow> ExecuteTransactionResult \<Rightarrow> address \<Rightarrow> (Receipt option \<times> u64) txAction" where
  "settleTx c etr addr =
     bindA (RefundCoin c) (\<lambda>_.
     bindA (readTx txGasUsed) (\<lambda>gasUsed.
     nonNil (makeReceipt c etr addr gasUsed) (\<lambda>r. returnA (Some r, gasUsed))))"

definition selectTx :: "validators \<Rightarrow> Transaction \<Rightarrow> processor option" where
  "selectTx vs tx = map_option snd (List.find (\<lambda>v. fst v tx) vs)"

text \<open>
  A processor that fails leaves \<^verbatim>\<open>err\<close> nil in the executor, which returns no receipt and no
  error.
\<close>

definition routeTx :: "validators \<Rightarrow> TxCtx \<Rightarrow> (Receipt option \<times> u64) txAction" where
  "routeTx vs c =
     bindA (chargeTx c) (\<lambda>_.
       case selectTx vs (cTx c) of
         None \<Rightarrow> raiseA ErrUnsupportTxType
       | Some exec \<Rightarrow>
           bindA (tryA (exec c)) (\<lambda>r.
             case r of
               Ok etr \<Rightarrow> settleTx c etr (ContractAddr etr)
             | _ \<Rightarrow> returnA (None, 0)))"

text \<open>The template hands the error of the processor on, and does not copy its contract address.\<close>

definition routeTemplateTx :: "validators \<Rightarrow> TxCtx \<Rightarrow> (Receipt option \<times> u64) txAction" where
  "routeTemplateTx vs c =
     bindA (chargeTx c) (\<lambda>_.
       case selectTx vs (cTx c) of
         None \<Rightarrow> raiseA ErrUnsupportTxType
       | Some exec \<Rightarrow> bindA (exec c) (\<lambda>etr. settleTx c etr ZeroAddress))"

text \<open>A new transaction context shares the store and the gas pool with its block.\<close>

definition onTx :: "'a txAction \<Rightarrow> 'a blockAction" where
  "onTx m bc =
     (let (r, s) = m \<lparr>tStore = bcStore bc, tGp = bcGp bc, tGasRemained = 0, tInitialGas = 0\<rparr>
      in (r, bc\<lparr>bcStore := tStore s, bcGp := tGp s\<rparr>))"

definition RouteTransaction :: "ChainEnv \<Rightarrow> validators \<Rightarrow> u64 \<Rightarrow> Transaction \<Rightarrow> (Receipt option \<times> u64) blockAction" where
  "RouteTransaction ce vs height tx =
     (case txFrom tx of
        None \<Rightarrow> raiseA ErrRecoverSender
      | Some from \<Rightarrow> onTx (routeTx vs \<lparr>cEnv = nEnv ce, cFrom = from, cTx = tx, cHeight = height\<rparr>))"

definition RouteTemplateTransaction :: "ChainEnv \<Rightarrow> validators \<Rightarrow> u64 \<Rightarrow> Transaction \<Rightarrow> (Receipt option \<times> u64) blockAction" where
  "RouteTemplateTransaction ce vs height tx =
     (case txFrom tx of
        None \<Rightarrow> raiseA ErrRecoverSender
      | Some from \<Rightarrow> onTx (routeTemplateTx vs \<lparr>cEnv = nEnv ce, cFrom = from, cTx = tx, cHeight = height\<rparr>))"

definition addGas :: "u64 \<Rightarrow> Transaction \<Rightarrow> unit blockAction" where
  "addGas gasUsed tx bc =
     (Ok (), bc\<lparr>bcGasUsed := bcGasUsed bc + uint gasUsed, bcGasFee := bcGasFee bc + uint gasUsed * txGasPrice tx\<rparr>)"

subsection \<open>Receipts in the chain store\<close>

definition receiptKey :: "(bytes \<Rightarrow> bytes) \<Rightarrow> hash \<Rightarrow> bytes" where
  "receiptKey kec h = kec (ascii ''receipt_'' @ ascii ''0x'' @ hexEncode h)"

definition receiptsKey :: "(bytes \<Rightarrow> bytes) \<Rightarrow> hash \<Rightarrow> bytes" where
  "receiptsKey kec h = kec (ascii ''receipts_'' @ ascii ''0x'' @ hexEncode h)"

definition PutReceipt :: "ChainEnv \<Rightarrow> hash \<Rightarrow> Receipt \<Rightarrow> unit blockAction" where
  "PutReceipt ce h receipt bc =
     (case encReceipt ce (Some receipt) of
        None \<Rightarrow> (Err ErrEncode, bc)
      | Some b \<Rightarrow> (Ok (), bc\<lparr>bcDb := (bcDb bc)(receiptKey (hashFn ce) h \<mapsto> b)\<rparr>))"

definition GetReceipt :: "ChainEnv \<Rightarrow> (bytes \<rightharpoonup> bytes) \<Rightarrow> hash \<Rightarrow> Receipt option" where
  "GetReceipt ce db h = Option.bind (db (receiptKey (hashFn ce) h)) (decReceipt ce)"

definition PutReceipts :: "ChainEnv \<Rightarrow> hash \<Rightarrow> Receipt list \<Rightarrow> unit blockAction" where
  "PutReceipts ce h receipts bc =
     (case encReceipts ce receipts of
        None \<Rightarrow> (Err ErrEncode, bc)
      | Some b \<Rightarrow> (Ok (), bc\<lparr>bcDb := (bcDb bc)(receiptsKey (hashFn ce) h \<mapsto> b)\<rparr>))"

definition GetReceipts :: "ChainEnv \<Rightarrow> (bytes \<rightharpoonup> bytes) \<Rightarrow> hash \<Rightarrow> Receipt list" where
  "GetReceipts ce db h =
     (case db (receiptsKey (hashFn ce) h) of
        None \<Rightarrow> []
      | Some b \<Rightarrow> (case decReceipts ce b of None \<Rightarrow> [] | Some rs \<Rightarrow> rs))"

definition DeleteReceipts :: "ChainEnv \<Rightarrow> hash \<Rightarrow> (bytes \<rightharpoonup> bytes) \<Rightarrow> (bytes \<rightharpoonup> bytes)" where
  "DeleteReceipts ce h db = db(receiptsKey (hashFn ce) h := None)"

subsection \<open>A block\<close>

text \<open>\<^verbatim>\<open>make\<close> panics when the slice does not fit the address space.\<close>

definition makeReceipts :: "u64 \<Rightarrow> unit blockAction" where
  "makeReceipts n bc =
     (if unat n * 8 > 2 ^ 48 then (Panic, bc)
      else (Ok (), bc\<lparr>bcReceipts := replicate (unat n) None, bcLogs := []\<rparr>))"

definition storeReceipt :: "nat \<Rightarrow> Receipt option \<Rightarrow> unit blockAction" where
  "storeReceipt i receipt bc =
     (if i < length (bcReceipts bc) then
        (case receipt of
           None \<Rightarrow> (Panic, bc\<lparr>bcReceipts := (bcReceipts bc)[i := None]\<rparr>)
         | Some r \<Rightarrow> (Ok (), bc\<lparr>bcReceipts := (bcReceipts bc)[i := Some r], bcLogs := bcLogs bc @ rLogs r\<rparr>))
      else (Panic, bc))"

fun executeTxs :: "ChainEnv \<Rightarrow> validators \<Rightarrow> u64 \<Rightarrow> nat \<Rightarrow> Transaction list \<Rightarrow> unit blockAction" where
  "executeTxs ce vs height i [] = returnA ()"
| "executeTxs ce vs height i (t # ts) =
     bindA (RouteTransaction ce vs height t) (\<lambda>(receipt, gasUsed).
     bindA (addGas gasUsed t) (\<lambda>_.
     bindA (storeReceipt i receipt) (\<lambda>_.
       executeTxs ce vs height (i + 1) ts)))"

fun putAll :: "ChainEnv \<Rightarrow> hash \<Rightarrow> hash \<Rightarrow> Receipt option list \<Rightarrow> Receipt list blockAction" where
  "putAll ce blockHash postState [] = returnA []"
| "putAll ce blockHash postState (None # rs) = panicA"
| "putAll ce blockHash postState (Some r # rs) =
     (let r' = r\<lparr>rBlockHash := blockHash, rPostState := postState\<rparr>
      in bindA (PutReceipt ce (rTxHash r') r') (\<lambda>_.
         bindA (putAll ce blockHash postState rs) (\<lambda>rest. returnA (r' # rest))))"

text \<open>
  The receipts are shared by pointer, so the context ends with the completed ones. They are
  completed one by one; when storing one fails the error ends the execution and the context
  is dropped.
\<close>

definition ExecuteBlock :: "ChainEnv \<Rightarrow> validators \<Rightarrow> Block \<Rightarrow> unit blockAction" where
  "ExecuteBlock ce vs block =
     bindA (makeReceipts (bTxCount block)) (\<lambda>_.
     bindA (executeTxs ce vs (hHeight (bHeader block)) 0 (bTxList block)) (\<lambda>_.
     bindA (\<lambda>bc. (Ok (bcReceipts bc), bc)) (\<lambda>receipts.
       case DeriveReceiptRoot ce receipts of
         None \<Rightarrow> panicA
       | Some newReceiptRoot \<Rightarrow>
           if newReceiptRoot \<noteq> hReceiptRoot (bHeader block) then raiseA ErrReceiptRoot
           else bindA (putAll ce (headerHash ce (bHeader block)) newReceiptRoot receipts) (\<lambda>rs.
             bindA (\<lambda>bc. (Ok (), bc\<lparr>bcReceipts := map Some rs\<rparr>)) (\<lambda>_.
               PutReceipts ce (headerHash ce (bHeader block)) rs)))))"

subsection \<open>The block template\<close>

text \<open>
  \<open>fired i\<close> tells whether the timer has gone off before the \<open>i\<close>-th transaction. The error
  branch reads the sender for its log line and panics when there is none. The result is the
  list of chosen transactions with their receipts.
\<close>

fun templateTxs :: "ChainEnv \<Rightarrow> validators \<Rightarrow> u64 \<Rightarrow> (nat \<Rightarrow> bool) \<Rightarrow> nat \<Rightarrow> Transaction list \<Rightarrow>
    (Transaction \<times> Receipt option) list \<Rightarrow> (Transaction \<times> Receipt option) list blockAction" where
  "templateTxs ce vs height fired i [] acc = returnA acc"
| "templateTxs ce vs height fired i (t # ts) acc =
     bindA (onBlockStore CopyState_db) (\<lambda>snap.
     bindA (\<lambda>bc. (Ok (bcGp bc), bc)) (\<lambda>backGp.
       if fired i then returnA acc
       else bindA (tryA (RouteTemplateTransaction ce vs height t)) (\<lambda>r.
         let revert = bindA (onBlockStore (RevertState_db snap)) (\<lambda>_ bc. (Ok (), bc\<lparr>bcGp := backGp\<rparr>))
         in case r of
              Ok (receipt, gasUsed) \<Rightarrow>
                bindA (addGas gasUsed t) (\<lambda>_.
                  templateTxs ce vs height fired (i + 1) ts (acc @ [(t, receipt)]))
            | Err e \<Rightarrow>
                if e = ErrOutOfGas then bindA revert (\<lambda>_. returnA acc)
                else if txFrom t = None then panicA
                else bindA revert (\<lambda>_. templateTxs ce vs height fired (i + 1) ts acc)
            | Panic \<Rightarrow> panicA)))"

definition templateBlock :: "ChainEnv \<Rightarrow> Block \<Rightarrow> BlockExecuteContext \<Rightarrow> (Transaction \<times> Receipt option) list \<Rightarrow> Block option" where
  "templateBlock ce block bc chosen =
     (case (DeriveReceiptRoot ce (map snd chosen),
            CreateBloom (hashFn ce) (map (the \<circ> snd) chosen)) of
        (Some rr, Some bl) \<Rightarrow>
          Some (block\<lparr>bTxList := map fst chosen, bTxCount := of_nat (length chosen),
                 bHeader := (bHeader block)\<lparr>hGasUsed := bcGasUsed bc, hTxRoot := DeriveMerkleRoot ce (map fst chosen),
                   hReceiptRoot := rr, hBloom := bl\<rparr>\<rparr>)
      | _ \<Rightarrow> None)"

definition TemplateExecuteBlock :: "ChainEnv \<Rightarrow> validators \<Rightarrow> (nat \<Rightarrow> bool) \<Rightarrow> Block \<Rightarrow> Block blockAction" where
  "TemplateExecuteBlock ce vs fired block =
     bindA (makeReceipts (bTxCount block)) (\<lambda>_.
     bindA (templateTxs ce vs (hHeight (bHeader block)) fired 0 (bTxList block) []) (\<lambda>chosen bc.
       case templateBlock ce block bc chosen of
         None \<Rightarrow> (Panic, bc)
       | Some b \<Rightarrow> (Ok b, bc\<lparr>bcReceipts := map snd chosen\<rparr>)))"

definition GenerateTemplate :: "ChainEnv \<Rightarrow> validators \<Rightarrow> (nat \<Rightarrow> bool) \<Rightarrow> BlockHeader \<Rightarrow> hash \<Rightarrow> u64 \<Rightarrow> u32 \<Rightarrow> u64 \<Rightarrow>
    address \<Rightarrow> (int \<Rightarrow> Transaction list) \<Rightarrow> StoreDB \<Rightarrow> (bytes \<rightharpoonup> bytes) \<Rightarrow> (chainError, Block \<times> int) res" where
  "GenerateTemplate ce vs fired parent previousHash bestHeight chainId timestamp leaderAddr getPending trieStore db =
     (let newGasLimit = CalcGasLimit parent MinGasLimit MaxGasLimit;
          txs = getPending newGasLimit;
          header = \<lparr>hChainId = chainId, hVersion = NodeVersion, hPreviousHash = previousHash, hGasLimit = newGasLimit,
                    hGasUsed = 0, hHeight = bestHeight + 1, hTimestamp = timestamp, hStateRoot = [], hTxRoot = [],
                    hReceiptRoot = ZeroHash, hMinerAddr = leaderAddr, hBloom = replicate BloomByteLength 0\<rparr>;
          block = \<lparr>bHeader = header, bTxCount = of_nat (length txs), bTxList = txs, bProofType = 0, bEvidence = []\<rparr>
      in case TemplateExecuteBlock ce vs fired block (NewBlockExecuteContext trieStore (bigUint64 newGasLimit) db) of
           (Ok b, bc) \<Rightarrow> Ok (b, bcGasFee bc)
         | (Err e, bc) \<Rightarrow> Err e
         | (Panic, bc) \<Rightarrow> Panic)"

end
