(* ===== verification/TxSem.thy ===== *)
theory TxSem
  imports TxExec
begin

section \<open>What the processors do to the ledger\<close>

text \<open>
  A transaction context seen through the ledger, the total value the accounts hold, and the
  contract every processor keeps: on success the value is conserved, the nonce of the sender
  is the next one and the gas counters only fall.
\<close>

record TxView =
  vLedger :: Ledger
  vGp :: u64
  vRem :: u64
  vInit :: u64

definition txRep :: "Env \<Rightarrow> address set \<Rightarrow> TxState \<Rightarrow> TxView \<Rightarrow> bool" where
  "txRep env A s v \<longleftrightarrow> ledgerRep env A (tStore s) (vLedger v) \<and>
     vGp v = tGp s \<and> vRem v = tGasRemained s \<and> vInit v = tInitialGas s"

lemma onStore_runs:
  assumes "runsTo (ledgerRep env A) m (vLedger v) r L'"
  shows "runsTo (txRep env A) (onStore m) v r (v\<lparr>vLedger := L'\<rparr>)"
  using assms by (fastforce simp: runsTo_def txRep_def onStore_def)

lemma readTx_runs: "runsTo (txRep env A) (readTx tGasRemained) v (Ok (vRem v)) v"
  by (simp add: runsTo_def txRep_def readTx_def)

lemma UseGas_runs:
  "runsTo (txRep env A) (UseGas g) v (if vRem v < g then Err ErrOutOfGas else Ok ())
     (if vRem v < g then v else v\<lparr>vRem := vRem v - g\<rparr>)"
  by (simp add: runsTo_def txRep_def UseGas_def)

lemma AddGas_runs:
  "runsTo (txRep env A) (AddGas g) v (if vGp v > - 1 - g then Panic else Ok ())
     (if vGp v > - 1 - g then v else v\<lparr>vGp := vGp v + g\<rparr>)"
  by (simp add: runsTo_def txRep_def AddGas_def)

subsection \<open>Value\<close>

definition holdings :: "Ledger \<Rightarrow> address \<Rightarrow> int" where
  "holdings L a = sBalance (acct L a) + rcTotal (RC (stake L a)) + cancelTotal (CC (stake L a))"

definition wealth :: "address set \<Rightarrow> Ledger \<Rightarrow> int" where
  "wealth A L = (\<Sum>a\<in>A. holdings L a)"

definition ledgerInv :: "address set \<Rightarrow> Ledger \<Rightarrow> bool" where
  "ledgerInv A L \<longleftrightarrow> distinct (lCands L) \<and> (\<forall>a\<in>A. bookOK (RC (stake L a)))"

lemma wealth_update:
  assumes "finite A" "a \<in> A" "\<And>b. b \<noteq> a \<Longrightarrow> holdings L' b = holdings L b"
  shows "wealth A L' = wealth A L - holdings L a + holdings L' a"
proof -
  have "(\<Sum>b\<in>A - {a}. holdings L' b) = (\<Sum>b\<in>A - {a}. holdings L b)" using assms(3) by (intro sum.cong) auto
  then show ?thesis using sum.remove [OF assms(1,2), of "holdings L"] sum.remove [OF assms(1,2), of "holdings L'"]
    by (simp add: wealth_def)
qed

definition paid :: "Ledger \<Rightarrow> address \<Rightarrow> u64 \<Rightarrow> int \<Rightarrow> Ledger" where
  "paid L a h x = withBalance (payout L a h) a (available L a h + x)"

lemma holdings_paid: "holdings (paid L a h x) b = holdings L b + (if b = a then x else 0)"
  using cancelTotal_filter_split [of "cancelDue h (lInterval L)" "CC (stake L a)"]
  by (simp add: holdings_def paid_def stake_payout available_def due_def)

lemma wealth_paid: "\<lbrakk>finite A; a \<in> A\<rbrakk> \<Longrightarrow> wealth A (paid L a h x) = wealth A L + x"
  using wealth_update [of A a "paid L a h x" L] by (simp add: holdings_paid)

lemma wealth_withNonce [simp]: "wealth A (withNonce L a n) = wealth A L"
  by (auto simp: wealth_def holdings_def intro!: sum.cong)

lemma ledgerInv_simps [simp]:
  "ledgerInv A (paid L a h x) \<longleftrightarrow> ledgerInv A L" "ledgerInv A (withNonce L a n) \<longleftrightarrow> ledgerInv A L"
  by (auto simp: ledgerInv_def paid_def stake_payout)

lemma sNonce_paid [simp]: "sNonce (acct (paid L a h x) b) = sNonce (acct L b)"
  by (simp add: paid_def)

lemma wealth_voteFor:
  assumes "finite A" "to \<in> A"
  shows "wealth A (voteFor env L from to x h) = wealth A L + x"
  using wealth_update [OF assms, of "voteFor env L from to x h" L]
  by (simp add: holdings_def voteFor_def rcTotal_withCredit)

lemma ledgerInv_voteFor:
  "\<lbrakk>ledgerInv A L; to \<in> A; x \<ge> 0\<rbrakk> \<Longrightarrow> ledgerInv A (voteFor env L from to x h)"
  by (auto simp: ledgerInv_def voteFor_def intro: bookOK_withCredit)

lemma wealth_cancelled:
  assumes "finite A" "from \<in> A" "to \<in> A" "ledgerInv A L" "cancelOutcome env L from to x = CancelDone l p rest"
  shows "wealth A (addWaiting (takeCredit L to rest) from x h) = wealth A L"
proof -
  have b: "bookOK (RC (stake L to))" using assms(3,4) by (auto simp: ledgerInv_def)
  have "rcTotal rest = rcTotal (RC (stake L to)) - x"
    using cancelRC_total [OF _ b] assms(5) by (simp add: cancelOutcome_def)
  then have "wealth A (takeCredit L to rest) = wealth A L - x"
    using wealth_update [OF assms(1,3), of "takeCredit L to rest" L] by (simp add: holdings_def takeCredit_def)
  moreover have "wealth A (addWaiting K from x h) = wealth A K + x" for K
    using wealth_update [OF assms(1,2), of "addWaiting K from x h" K]
    by (simp add: holdings_def addWaiting_def cancelTotal_addCancel)
  ultimately show ?thesis by simp
qed

lemma ledgerInv_cancelled:
  assumes "to \<in> A" "ledgerInv A L" "cancelOutcome env L from to x = CancelDone l p rest" "x \<ge> 0"
  shows "ledgerInv A (addWaiting (takeCredit L to rest) from x h)"
proof -
  have b: "bookOK (RC (stake L to))" using assms(1,2) by (auto simp: ledgerInv_def)
  have "bookOK rest" using cancelRC_ok [OF _ b assms(4)] assms(3) by (simp add: cancelOutcome_def)
  then show ?thesis using assms(2) by (auto simp: ledgerInv_def addWaiting_def takeCredit_def)
qed

subsection \<open>Steps of a processor\<close>

text \<open>
  \<open>keeps env A m d\<close>: from any ledger that satisfies the invariant the action \<open>m\<close> ends without a
  panic, and when it succeeds the accounts of \<open>A\<close> hold \<open>d\<close> more than before, the invariant
  holds again, no nonce has changed, and of the gas counters only the remaining gas has
  fallen, if at all.
\<close>

definition advance :: "address set \<Rightarrow> int \<Rightarrow> TxView \<Rightarrow> TxView \<Rightarrow> bool" where
  "advance A d v v' \<longleftrightarrow> wealth A (vLedger v') = wealth A (vLedger v) + d \<and> ledgerInv A (vLedger v') \<and>
     (\<forall>b. sNonce (acct (vLedger v') b) = sNonce (acct (vLedger v) b)) \<and>
     vGp v' = vGp v \<and> vInit v' = vInit v \<and> vRem v' \<le> vRem v"

definition keeps :: "Env \<Rightarrow> address set \<Rightarrow> 'a txAction \<Rightarrow> int \<Rightarrow> bool" where
  "keeps env A m d \<longleftrightarrow> (\<forall>v. ledgerInv A (vLedger v) \<longrightarrow>
     (\<exists>r v'. runsTo (txRep env A) m v r v' \<and> r \<noteq> Panic \<and> (\<forall>x. r = Ok x \<longrightarrow> advance A d v v')))"

lemma keepsI:
  "(\<And>v. ledgerInv A (vLedger v) \<Longrightarrow> \<exists>r v'. runsTo (txRep env A) m v r v' \<and> r \<noteq> Panic \<and>
     (\<forall>x. r = Ok x \<longrightarrow> advance A d v v')) \<Longrightarrow> keeps env A m d"
  by (simp add: keeps_def)

lemma keeps_bind:
  assumes "keeps env A m d1" "\<And>x. keeps env A (f x) d2" "d = d1 + d2"
  shows "keeps env A (bindA m f) d"
proof (rule keepsI)
  fix v :: TxView
  assume "ledgerInv A (vLedger v)"
  then obtain r v1 where 1: "runsTo (txRep env A) m v r v1" "r \<noteq> Panic" "\<And>x. r = Ok x \<Longrightarrow> advance A d1 v v1"
    using assms(1) unfolding keeps_def by blast
  show "\<exists>r v'. runsTo (txRep env A) (bindA m f) v r v' \<and> r \<noteq> Panic \<and> (\<forall>x. r = Ok x \<longrightarrow> advance A d v v')"
  proof (cases r)
    case (Ok x)
    then have a: "advance A d1 v v1" using 1(3) by simp
    then obtain r2 v2 where 2: "runsTo (txRep env A) (f x) v1 r2 v2" "r2 \<noteq> Panic"
        "\<And>y. r2 = Ok y \<Longrightarrow> advance A d2 v1 v2" using assms(2) [of x] by (fastforce simp: keeps_def advance_def)
    have "runsTo (txRep env A) (bindA m f) v r2 v2" using runsTo_bind 1(1) 2(1) unfolding Ok by metis
    moreover have "advance A d v v2" if "r2 = Ok y" for y
      using a 2(3) [OF that] assms(3) by (auto simp: advance_def)
    ultimately show ?thesis using 2(2) by blast
  next
    case (Err e)
    then have "runsTo (txRep env A) (bindA m f) v (Err e) v1" using 1(1) by (intro runsTo_bind_Err) simp
    then show ?thesis by blast
  qed (use 1(2) in simp)
qed

lemma advance_ledger:
  "advance A d v (v\<lparr>vLedger := L'\<rparr>) \<longleftrightarrow> wealth A L' = wealth A (vLedger v) + d \<and> ledgerInv A L' \<and>
     (\<forall>b. sNonce (acct L' b) = sNonce (acct (vLedger v) b))"
  by (simp add: advance_def)

lemma keeps_onStore:
  assumes "\<And>L. ledgerInv A L \<Longrightarrow> \<exists>r L'. runsTo (ledgerRep env A) m L r L' \<and> r \<noteq> Panic \<and>
      (\<forall>x. r = Ok x \<longrightarrow> wealth A L' = wealth A L + d \<and> ledgerInv A L' \<and> (\<forall>b. sNonce (acct L' b) = sNonce (acct L b)))"
  shows "keeps env A (onStore m) d"
proof (rule keepsI)
  fix v :: TxView
  assume "ledgerInv A (vLedger v)"
  then obtain r L' where r: "runsTo (ledgerRep env A) m (vLedger v) r L'" "r \<noteq> Panic"
      "\<And>x. r = Ok x \<Longrightarrow> advance A d v (v\<lparr>vLedger := L'\<rparr>)"
    using assms unfolding advance_ledger by blast
  then show "\<exists>r v'. runsTo (txRep env A) (onStore m) v r v' \<and> r \<noteq> Panic \<and> (\<forall>x. r = Ok x \<longrightarrow> advance A d v v')"
    using onStore_runs [OF r(1)] by blast
qed

lemma keeps_UseGas: "keeps env A (UseGas g) 0"
proof (rule keepsI, rule exI, rule exI, rule conjI, rule UseGas_runs)
  fix v :: TxView
  assume i: "ledgerInv A (vLedger v)"
  have "vRem v - g \<le> vRem v" if "\<not> vRem v < g" using that by (simp add: word_le_nat_alt unat_sub_if' not_less)
  then show "(if vRem v < g then Err ErrOutOfGas else Ok ()) \<noteq> Panic \<and>
      (\<forall>x. (if vRem v < g then Err ErrOutOfGas else Ok ()) = Ok x \<longrightarrow>
        advance A 0 v (if vRem v < g then v else v\<lparr>vRem := vRem v - g\<rparr>))"
    using i by (simp add: advance_def)
qed

lemma payFrom_runs:
  assumes "cFrom c \<in> A" "envOK (cEnv c) A" "cHeight c \<noteq> 0"
  shows "runsTo (txRep (cEnv c) A) (payFrom c x) v
     (if available (vLedger v) (cFrom c) (cHeight c) < x then Err ErrBalance else Ok ())
     (if available (vLedger v) (cFrom c) (cHeight c) < x then v
      else v\<lparr>vLedger := paid (vLedger v) (cFrom c) (cHeight c) (- x)\<rparr>)"
proof -
  have g: "runsTo (txRep (cEnv c) A) (onStore (GetBalance (cEnv c) (cFrom c) (cHeight c))) v
      (Ok (Some (available (vLedger v) (cFrom c) (cHeight c)))) v"
    using onStore_runs [OF GetBalance_runs [OF assms(1)]] by simp
  have "runsTo (txRep (cEnv c) A) (onStore (PutBalance (cEnv c) (cFrom c) (cHeight c)
      (available (vLedger v) (cFrom c) (cHeight c) - x))) v (Ok ())
      (v\<lparr>vLedger := paid (vLedger v) (cFrom c) (cHeight c) (- x)\<rparr>)"
    using onStore_runs [OF PutBalance_runs [OF assms(2,1), where h = "cHeight c"]] assms(3) by (simp add: paid_def)
  then show ?thesis unfolding payFrom_def
    by (intro runsTo_bind [OF g]) (simp add: nonNil_def runsTo_raise)
qed

lemma payTo_runs:
  assumes "a \<in> A" "envOK (cEnv c) A" "cHeight c \<noteq> 0"
  shows "runsTo (txRep (cEnv c) A) (payTo c a x) v (Ok ()) (v\<lparr>vLedger := paid (vLedger v) a (cHeight c) x\<rparr>)"
proof -
  have g: "runsTo (txRep (cEnv c) A) (onStore (GetBalance (cEnv c) a (cHeight c))) v
      (Ok (Some (available (vLedger v) a (cHeight c)))) v"
    using onStore_runs [OF GetBalance_runs [OF assms(1)]] by simp
  have "runsTo (txRep (cEnv c) A) (onStore (PutBalance (cEnv c) a (cHeight c)
      (available (vLedger v) a (cHeight c) + x))) v (Ok ()) (v\<lparr>vLedger := paid (vLedger v) a (cHeight c) x\<rparr>)"
    using onStore_runs [OF PutBalance_runs [OF assms(2,1), where h = "cHeight c"]] assms(3) by (simp add: paid_def)
  then show ?thesis unfolding payTo_def by (intro runsTo_bind [OF g]) (simp add: nonNil_def)
qed

lemma keeps_payFrom:
  assumes "cFrom c \<in> A" "envOK (cEnv c) A" "cHeight c \<noteq> 0" "finite A"
  shows "keeps (cEnv c) A (payFrom c x) (- x)"
  by (rule keepsI, rule exI, rule exI, rule conjI, rule payFrom_runs [OF assms(1-3)])
    (simp add: advance_ledger wealth_paid [OF assms(4,1)])

lemma keeps_payTo:
  assumes "a \<in> A" "envOK (cEnv c) A" "cHeight c \<noteq> 0" "finite A"
  shows "keeps (cEnv c) A (payTo c a x) x"
  by (rule keepsI, rule exI, rule exI, rule conjI, rule payTo_runs [OF assms(1-3)])
    (simp add: advance_ledger wealth_paid [OF assms(4,1)])

lemma outcomeI:
  "\<lbrakk>runsTo rep m L r L'; r \<noteq> Panic; \<And>x. r = Ok x \<Longrightarrow> P L'\<rbrakk> \<Longrightarrow>
     \<exists>r L'. runsTo rep m L r L' \<and> r \<noteq> Panic \<and> (\<forall>x. r = Ok x \<longrightarrow> P L')"
  by blast

lemma keeps_VoteCredit:
  assumes "envOK env A" "to \<in> A" "finite A" "x \<ge> 0"
  shows "keeps env A (onStore (VoteCredit env from to x h)) x"
proof (rule keeps_onStore)
  fix L
  assume i: "ledgerInv A L"
  show "\<exists>r L'. runsTo (ledgerRep env A) (VoteCredit env from to x h) L r L' \<and> r \<noteq> Panic \<and>
      (\<forall>y. r = Ok y \<longrightarrow> wealth A L' = wealth A L + x \<and> ledgerInv A L' \<and> (\<forall>b. sNonce (acct L' b) = sNonce (acct L b)))"
  proof (cases "from = to")
    case True
    show ?thesis unfolding True by (rule outcomeI [OF VoteCredit_self]) simp_all
  next
    case False
    then show ?thesis
      by (intro outcomeI [OF VoteCredit_runs [OF assms(1,2)]] conjI)
        (simp_all add: wealth_voteFor [OF assms(3,2)] ledgerInv_voteFor [OF i assms(2,4)], simp add: voteFor_def)
  qed
qed

lemma CancelVoteCredit_outcome:
  assumes "envOK env A" "from \<in> A" "to \<in> A"
  obtains (failed) e where "runsTo (ledgerRep env A) (CancelVoteCredit env from to x h) L (Err e) L"
  | (paidBack) l p rest where "from \<noteq> to" "x > 0" "cancelOutcome env L from to x = CancelDone l p rest"
      "runsTo (ledgerRep env A) (CancelVoteCredit env from to x h) L (Ok p) (addWaiting (takeCredit L to rest) from x h)"
proof -
  note b = runsTo_bind [OF GetChangeInterval_runs, where f = "\<lambda>_. CancelVoteCredit_s env from to x h",
      folded CancelVoteCredit_def]
  have e: thesis if "runsTo (ledgerRep env A) (CancelVoteCredit_s env from to x h) L (Err e) L" for e
    using failed [OF b [OF that]] .
  show thesis
  proof (cases "from = to \<or> x \<le> 0")
    case True
    then have "\<exists>e. CancelVoteCredit_s env from to x h = raiseA e" by (auto simp: CancelVoteCredit_s_def)
    then show ?thesis using e runsTo_raise by metis
  next
    case False
    then have s: "CancelVoteCredit_s env from to x h = cancelCredit env from to x h (\<lambda>_ storage.
        bindA (putStakeStorage env to storage) (\<lambda>_. bindA (lookupStake env from) (\<lambda>st.
          returnA (case st of None \<Rightarrow> emptyStake | Some x \<Rightarrow> x))))" by (simp add: CancelVoteCredit_s_def)
    show ?thesis
    proof (cases "cancelOutcome env L from to x")
      case CancelNotFound
      then show ?thesis using e cancelCredit_fails(1) [OF assms(3)] unfolding s by blast
    next
      case CancelNotEnough
      then show ?thesis using e cancelCredit_fails(2) [OF assms(3)] unfolding s by blast
    next
      case (CancelDone l p rest)
      then show ?thesis using False paidBack [OF _ _ _ b [OF CancelVoteCredit_s_done [OF assms]]] by auto
    qed
  qed
qed

lemma CancelCandidateCredit_outcome:
  assumes "envOK env A" "from \<in> A" "distinct (lCands L)"
  obtains (failed) e where "runsTo (ledgerRep env A) (CancelCandidateCredit env from x h) L (Err e) L"
  | (paidBack) l p rest where "cancelOutcome env L from from x = CancelDone l p rest"
      "runsTo (ledgerRep env A) (CancelCandidateCredit env from x h) L (Ok p)
         (addWaiting (takeCredit (unregistered L from l) from rest) from x h)"
proof -
  note b = runsTo_bind [OF GetChangeInterval_runs, where f = "\<lambda>_. CancelCandidateCredit_s env from x h",
      folded CancelCandidateCredit_def]
  have e: thesis if "runsTo (ledgerRep env A) (CancelCandidateCredit_s env from x h) L (Err e) L" for e
    using failed [OF b [OF that]] .
  show thesis
  proof (cases "cancelOutcome env L from from x")
    case CancelNotFound
    then show ?thesis using e cancelCredit_fails(1) [OF assms(2)] unfolding CancelCandidateCredit_s_def by blast
  next
    case CancelNotEnough
    then show ?thesis using e cancelCredit_fails(2) [OF assms(2)] unfolding CancelCandidateCredit_s_def by blast
  next
    case (CancelDone l p rest)
    then show ?thesis using paidBack [OF _ b [OF CancelCandidateCredit_s_done [OF assms]]] by blast
  qed
qed

lemma keeps_CancelVoteCredit:
  assumes "envOK env A" "from \<in> A" "to \<in> A" "finite A"
  shows "keeps env A (onStore (CancelVoteCredit env from to x h)) 0"
proof (rule keeps_onStore)
  fix L
  assume i: "ledgerInv A L"
  show "\<exists>r L'. runsTo (ledgerRep env A) (CancelVoteCredit env from to x h) L r L' \<and> r \<noteq> Panic \<and>
      (\<forall>y. r = Ok y \<longrightarrow> wealth A L' = wealth A L + 0 \<and> ledgerInv A L' \<and> (\<forall>b. sNonce (acct L' b) = sNonce (acct L b)))"
  proof (cases rule: CancelVoteCredit_outcome [OF assms(1-3), where x = x and h = h and L = L])
    case (2 l p rest)
    then show ?thesis
      by (intro outcomeI [OF 2(4)] conjI) (simp_all add: wealth_cancelled [OF assms(4,2,3) i 2(3)]
        ledgerInv_cancelled [OF assms(3) i 2(3)], simp add: addWaiting_def takeCredit_def)
  qed blast
qed

lemma unregistered_simps [simp]:
  "stake (unregistered L a l) = stake L" "acct (unregistered L a l) = acct L"
  by (simp_all add: unregistered_def fun_eq_iff)

lemma unregistered_same [simp]:
  "wealth A (unregistered L a l) = wealth A L" "ledgerInv A L \<Longrightarrow> ledgerInv A (unregistered L a l)"
  "cancelOutcome env (unregistered L a l) from to x = cancelOutcome env L from to x"
  by (simp_all add: wealth_def holdings_def cancelOutcome_def) (simp add: unregistered_def ledgerInv_def)

lemma keeps_CancelCandidateCredit:
  assumes "envOK env A" "from \<in> A" "finite A" "x \<ge> 0"
  shows "keeps env A (onStore (CancelCandidateCredit env from x h)) 0"
proof (rule keeps_onStore)
  fix L
  assume i: "ledgerInv A L"
  then have d: "distinct (lCands L)" by (simp add: ledgerInv_def)
  show "\<exists>r L'. runsTo (ledgerRep env A) (CancelCandidateCredit env from x h) L r L' \<and> r \<noteq> Panic \<and>
      (\<forall>y. r = Ok y \<longrightarrow> wealth A L' = wealth A L + 0 \<and> ledgerInv A L' \<and> (\<forall>b. sNonce (acct L' b) = sNonce (acct L b)))"
  proof (cases rule: CancelCandidateCredit_outcome [OF assms(1,2) d, where x = x and h = h])
    case (2 l p rest)
    let ?K = "unregistered L from l"
    have o: "cancelOutcome env ?K from from x = CancelDone l p rest" "ledgerInv A ?K" using 2(1) i by simp_all
    show ?thesis
      by (intro outcomeI [OF 2(2)] conjI) (simp_all add: wealth_cancelled [OF assms(3,2,2) o(2,1)]
        ledgerInv_cancelled [OF assms(2) o(2,1) assms(4)], simp add: addWaiting_def takeCredit_def)
  qed blast
qed

lemma candidateData_RC: "candidateData env data x = Some y \<Longrightarrow> RC y = RC x \<and> CC y = CC x"
  by (auto simp: candidateData_def split: option.splits if_splits)

lemma candidateData_None: "candidateData env data x = None \<longleftrightarrow> candUnmarshal env data = None"
  by (auto simp: candidateData_def split: option.splits)

lemma keeps_CandidateCredit:
  assumes "envOK env A" "a \<in> A" "finite A" "x \<ge> 0"
  shows "keeps env A (onStore (CandidateCredit env a (Some x) data h)) x"
proof (rule keeps_onStore)
  fix L
  assume i: "ledgerInv A L"
  show "\<exists>r L'. runsTo (ledgerRep env A) (CandidateCredit env a (Some x) data h) L r L' \<and> r \<noteq> Panic \<and>
      (\<forall>y. r = Ok y \<longrightarrow> wealth A L' = wealth A L + x \<and> ledgerInv A L' \<and> (\<forall>b. sNonce (acct L' b) = sNonce (acct L b)))"
  proof (intro outcomeI [OF CandidateCredit_runs [OF assms(1,2)]])
    let ?V = "voteFor env L a a x h"
    fix u
    assume "(if candUnmarshal env data = None then Err ErrDecode else Ok ()) = Ok u"
    then obtain y where y: "candidateData env data (stake ?V a) = Some y"
      by (cases "candidateData env data (stake ?V a)") (simp_all add: candidateData_None split: if_splits)
    let ?L = "setStake (registered env L a x) a y"
    have h: "holdings ?L b = holdings ?V b" "RC (stake ?L b) = RC (stake ?V b)" for b
      using candidateData_RC [OF y] by (simp_all add: holdings_def voteFor_def)
    have "wealth A ?L = wealth A L + x" using h(1) wealth_voteFor [OF assms(3,2)] by (simp add: wealth_def)
    moreover have "ledgerInv A ?L" using ledgerInv_voteFor [OF i assms(2,4)] h(2)
      by (simp add: ledgerInv_def) (simp add: voteFor_def registered_def)
    ultimately show "wealth A (case candidateData env data (stake ?V a) of None \<Rightarrow> registered env L a x
         | Some y \<Rightarrow> setStake (registered env L a x) a y) = wealth A L + x \<and>
       ledgerInv A (case candidateData env data (stake ?V a) of None \<Rightarrow> registered env L a x
         | Some y \<Rightarrow> setStake (registered env L a x) a y) \<and>
       (\<forall>b. sNonce (acct (case candidateData env data (stake ?V a) of None \<Rightarrow> registered env L a x
         | Some y \<Rightarrow> setStake (registered env L a x) a y) b) = sNonce (acct L b))"
      by (simp add: y)
  qed simp
qed

subsection \<open>Aliases\<close>

lemma AliasExist_runs:
  assumes "length al \<le> 20"
  shows "runsTo (ledgerRep env A) (AliasExist env al) L (Ok (lAlias L al \<noteq> None)) L"
proof (rule runsTo_ledger, rule exI, rule conjI)
  fix kv v
  assume "ledgerCells env A v L"
  then have "v (AliasPrefix @ al) = lAlias L al" using assms by (simp add: ledgerCells_def)
  then show "runsTo (dbrep (crypto env) kv) (AliasExist env al) v (Ok (lAlias L al \<noteq> None)) v"
    unfolding AliasExist_def by (intro runsTo_bind [OF runsTo_try_Ok [OF state_db.get_cell]])
      (auto simp: runsTo_return split: option.splits)
qed simp_all

lemma AliasPut_runs:
  assumes "envOK env A" "length al \<le> 20"
  shows "runsTo (ledgerRep env A) (AliasPut env al b) L (Ok ()) (L\<lparr>lAlias := (lAlias L)(al \<mapsto> b)\<rparr>)"
  unfolding AliasPut_def
  by (rule runsTo_ledger, rule exI, rule conjI, rule state_db.put_cell, rule ledgerCells_alias [OF assms(1) _ assms(2)])
    simp_all

lemma setStorageAlias_runs:
  "\<lbrakk>envOK env A; a \<in> A\<rbrakk> \<Longrightarrow>
     runsTo (ledgerRep env A) (setStorageAlias env a al) L (Ok ()) (setAcct L a ((acct L a)\<lparr>sAlias := al\<rparr>))"
  unfolding setStorageAlias_def acct_def
  by (rule runsTo_bind, rule lookupStorage_runs, assumption, rule PutStorage_runs)

definition aliased :: "Ledger \<Rightarrow> address \<Rightarrow> bytes \<Rightarrow> Ledger" where
  "aliased L a al = setAcct (L\<lparr>lAlias := (lAlias L)(al \<mapsto> a)\<rparr>) a ((acct L a)\<lparr>sAlias := al\<rparr>)"

lemma AliasSet_runs:
  assumes "envOK env A" "a \<in> A" "length al \<le> 20"
  shows "runsTo (ledgerRep env A) (AliasSet env a al) L
     (if al = [] then Err ErrInvalidateAlias else if lAlias L al \<noteq> None then Err ErrUsedAlias else Ok ())
     (if al = [] \<or> lAlias L al \<noteq> None then L else aliased L a al)"
proof (cases "al = []")
  case False
  note e = AliasExist_runs [OF assms(3), of env A L]
  show ?thesis
  proof (cases "lAlias L al")
    case None
    have "runsTo (ledgerRep env A) (bindA (AliasPut env al a) (\<lambda>_. setStorageAlias env a al)) L (Ok ()) (aliased L a al)"
      using runsTo_bind [OF AliasPut_runs [OF assms(1,3)] setStorageAlias_runs [OF assms(1,2)]]
      by (simp add: aliased_def)
    then show ?thesis using False None unfolding AliasSet_def
      by (simp, intro runsTo_bind [OF e]) simp
  next
    case (Some b)
    then show ?thesis using False unfolding AliasSet_def
      by (simp, intro runsTo_bind [OF e]) (simp add: runsTo_raise)
  qed
qed (simp add: AliasSet_def runsTo_raise)

lemma aliased_simps [simp]:
  "wealth A (aliased L a al) = wealth A L" "ledgerInv A (aliased L a al) \<longleftrightarrow> ledgerInv A L"
  "sNonce (acct (aliased L a al) b) = sNonce (acct L b)" "sBalance (acct (aliased L a al) b) = sBalance (acct L b)"
  "stake (aliased L a al) = stake L" "lInterval (aliased L a al) = lInterval L"
  by (auto simp: wealth_def holdings_def ledgerInv_def aliased_def intro!: sum.cong)

lemma keeps_AliasSet:
  assumes "envOK env A" "a \<in> A" "length al \<le> 20"
  shows "keeps env A (onStore (AliasSet env a al)) 0"
  by (intro keeps_onStore outcomeI [OF AliasSet_runs [OF assms]]) (simp_all split: if_splits)

subsection \<open>The contract of a processor\<close>

definition goodCtx :: "address set \<Rightarrow> TxCtx \<Rightarrow> bool" where
  "goodCtx A c \<longleftrightarrow> envOK (cEnv c) A \<and> finite A \<and> cFrom c \<in> A \<and> txTo (cTx c) \<in> A \<and> HoleAddress \<in> A \<and>
     cHeight c \<noteq> 0 \<and> txAmount (cTx c) \<ge> 0"

definition txDone :: "address set \<Rightarrow> TxCtx \<Rightarrow> TxView \<Rightarrow> TxView \<Rightarrow> bool" where
  "txDone A c v v' \<longleftrightarrow> wealth A (vLedger v') = wealth A (vLedger v) \<and> ledgerInv A (vLedger v') \<and>
     (\<forall>b. sNonce (acct (vLedger v') b) = (if b = cFrom c then txNonce (cTx c) + 1 else sNonce (acct (vLedger v) b))) \<and>
     vGp v' = vGp v \<and> vInit v' = vInit v \<and> vRem v' \<le> vRem v"

lemma finishTx_runs:
  assumes "envOK (cEnv c) A" "cFrom c \<in> A"
  shows "runsTo (txRep (cEnv c) A) (finishTx c) v (Ok emptyResult)
     (v\<lparr>vLedger := withNonce (vLedger v) (cFrom c) (txNonce (cTx c) + 1)\<rparr>)"
  unfolding finishTx_def by (rule runsTo_bind [OF onStore_runs [OF PutNonce_runs [OF assms]] runsTo_return])

lemma processor_outcome:
  assumes "keeps (cEnv c) A m 0" "goodCtx A c" "ledgerInv A (vLedger v)"
  shows "\<exists>r v'. runsTo (txRep (cEnv c) A) (bindA m (\<lambda>_. finishTx c)) v r v' \<and> r \<noteq> Panic \<and>
     (\<forall>x. r = Ok x \<longrightarrow> x = emptyResult \<and> txDone A c v v')"
proof -
  obtain r v1 where 1: "runsTo (txRep (cEnv c) A) m v r v1" "r \<noteq> Panic" "\<And>x. r = Ok x \<Longrightarrow> advance A 0 v v1"
    using assms(1,3) unfolding keeps_def by blast
  show ?thesis
  proof (cases r)
    case (Ok x)
    have e: "envOK (cEnv c) A" "cFrom c \<in> A" using assms(2) by (auto simp: goodCtx_def)
    have "runsTo (txRep (cEnv c) A) (bindA m (\<lambda>_. finishTx c)) v (Ok emptyResult)
        (v1\<lparr>vLedger := withNonce (vLedger v1) (cFrom c) (txNonce (cTx c) + 1)\<rparr>)"
      using 1(1) unfolding Ok by (rule runsTo_bind) (rule finishTx_runs [OF e])
    moreover have "txDone A c v (v1\<lparr>vLedger := withNonce (vLedger v1) (cFrom c) (txNonce (cTx c) + 1)\<rparr>)"
      using 1(3) [OF Ok] by (simp add: advance_def txDone_def)
    ultimately show ?thesis by blast
  next
    case (Err e)
    then have "runsTo (txRep (cEnv c) A) (bindA m (\<lambda>_. finishTx c)) v (Err e) v1"
      using 1(1) by (intro runsTo_bind_Err) simp
    then show ?thesis by blast
  qed (use 1(2) in simp)
qed

text \<open>
  The contract: from a ledger that satisfies the invariant a processor never panics; either
  it raises an error, or it returns the empty result and has done exactly one transaction.
\<close>

locale tx_processor =
  fixes exec :: processor
  assumes exec_outcome: "\<lbrakk>goodCtx A c; ledgerInv A (vLedger v)\<rbrakk> \<Longrightarrow>
     \<exists>r v'. runsTo (txRep (cEnv c) A) (exec c) v r v' \<and> r \<noteq> Panic \<and>
       (\<forall>x. r = Ok x \<longrightarrow> x = emptyResult \<and> txDone A c v v')"

lemma goodCtxD:
  assumes "goodCtx A c"
  shows "envOK (cEnv c) A" "finite A" "cFrom c \<in> A" "txTo (cTx c) \<in> A" "HoleAddress \<in> A" "cHeight c \<noteq> 0"
    "txAmount (cTx c) \<ge> 0"
  using assms by (auto simp: goodCtx_def)

lemma bindA_assoc: "bindA (bindA m f) g = bindA m (\<lambda>x. bindA (f x) g)"
  by (rule HOL.ext) (simp add: bindA_def split: res.splits prod.splits)

lemma keeps_return: "keeps env A (returnA x) 0"
  by (intro keepsI) (use runsTo_return in \<open>fastforce simp: advance_def\<close>)

lemma keeps_raise: "keeps env A (raiseA e) d"
  by (intro keepsI) (use runsTo_raise in fastforce)

text \<open>A body that conserves the value, followed by the nonce update, keeps the contract.\<close>

lemma tx_processorI:
  assumes "\<And>c. exec c = bindA (body c) (\<lambda>_. finishTx c)" "\<And>A c. goodCtx A c \<Longrightarrow> keeps (cEnv c) A (body c) 0"
  shows "tx_processor exec"
  by unfold_locales (simp add: assms(1) processor_outcome [OF assms(2)])

interpretation transfer: tx_processor transferExec
proof (rule tx_processorI)
  show "transferExec c = bindA (bindA (payFrom c (txAmount (cTx c)))
      (\<lambda>_. payTo c (txTo (cTx c)) (txAmount (cTx c)))) (\<lambda>_. finishTx c)" for c
    by (simp add: transferExec_def bindA_assoc)
qed (rule keeps_bind [OF keeps_payFrom keeps_payTo]; simp add: goodCtxD)

interpretation vote: tx_processor stakeExec
proof (rule tx_processorI)
  show "stakeExec c = bindA (bindA (payFrom c (txAmount (cTx c)))
      (\<lambda>_. onStore (VoteCredit (cEnv c) (cFrom c) (txTo (cTx c)) (txAmount (cTx c)) (cHeight c)))) (\<lambda>_. finishTx c)" for c
    by (simp add: stakeExec_def bindA_assoc)
qed (rule keeps_bind [OF keeps_payFrom keeps_VoteCredit]; simp add: goodCtxD)

interpretation cancelVote: tx_processor cancelVoteExec
proof (rule tx_processorI)
  show "cancelVoteExec c = bindA (onStore (CancelVoteCredit (cEnv c) (cFrom c) (txTo (cTx c)) (txAmount (cTx c))
      (cHeight c))) (\<lambda>_. finishTx c)" for c
    by (simp add: cancelVoteExec_def)
qed (intro keeps_CancelVoteCredit; simp add: goodCtxD)

interpretation candidate: tx_processor candidateExec
proof (rule tx_processorI)
  show "candidateExec c = bindA (bindA (payFrom c (txAmount (cTx c))) (\<lambda>_.
      case candUnmarshal (cEnv c) (txData (cTx c)) of None \<Rightarrow> raiseA ErrDecode
      | Some _ \<Rightarrow> onStore (CandidateCredit (cEnv c) (cFrom c) (Some (txAmount (cTx c))) (txData (cTx c)) (cHeight c))))
      (\<lambda>_. finishTx c)" for c
    by (simp add: candidateExec_def bindA_assoc fun_eq_iff bindA_def raiseA_def split: option.splits prod.splits res.splits)
  fix A c
  assume g: "goodCtx A c"
  show "keeps (cEnv c) A (bindA (payFrom c (txAmount (cTx c))) (\<lambda>_.
      case candUnmarshal (cEnv c) (txData (cTx c)) of None \<Rightarrow> raiseA ErrDecode
      | Some _ \<Rightarrow> onStore (CandidateCredit (cEnv c) (cFrom c) (Some (txAmount (cTx c))) (txData (cTx c)) (cHeight c)))) 0"
    using g by (intro keeps_bind [OF keeps_payFrom, where ?d2.0 = "txAmount (cTx c)"])
      (auto simp: goodCtxD keeps_raise keeps_CandidateCredit split: option.splits)
qed

interpretation cancelCandidate: tx_processor cancelCandidateExec
proof (rule tx_processorI)
  show "cancelCandidateExec c = bindA (onStore (CancelCandidateCredit (cEnv c) (cFrom c) (txAmount (cTx c))
      (cHeight c))) (\<lambda>_. finishTx c)" for c
    by (simp add: cancelCandidateExec_def)
qed (intro keeps_CancelCandidateCredit; simp add: goodCtxD)

lemma aliasFee_defined: "length al \<ge> 5 \<Longrightarrow> \<exists>fee. aliasFee (length al) = Some fee"
proof -
  assume "length al \<ge> 5"
  then consider "length al = 5" | "length al = 6" | "length al = 7" | "length al = 8" | "length al = 9"
    | "length al = 10" | "length al = 11" | "length al > 11" by linarith
  then show ?thesis by cases (simp_all add: aliasFee_def aliasCalcers_def)
qed

definition aliasBody :: "TxCtx \<Rightarrow> unit txAction" where
  "aliasBody c = (case CheckAlias (txData (cTx c)) of Err e \<Rightarrow> raiseA e | Panic \<Rightarrow> (\<lambda>s. (Panic, s))
     | Ok _ \<Rightarrow> bindA (onStore (AliasSet (cEnv c) (cFrom c) (txData (cTx c)))) (\<lambda>_.
         bindA (UseGas (AliasGas * of_nat (length (txData (cTx c))))) (\<lambda>_.
         nonNil (aliasFee (length (txData (cTx c)))) (\<lambda>fee.
           bindA (payFrom c fee) (\<lambda>_. payTo c HoleAddress fee)))))"

lemma keeps_aliasBody:
  assumes g: "goodCtx A c"
  shows "keeps (cEnv c) A (aliasBody c) 0"
proof (cases "CheckAlias (txData (cTx c))")
  case (Ok u)
  let ?al = "txData (cTx c)"
  have len: "length ?al \<ge> 5" "length ?al \<le> 20" using Ok by (auto simp: CheckAlias_def split: if_splits)
  obtain fee where fee: "aliasFee (length ?al) = Some fee" using aliasFee_defined [OF len(1)] by blast
  have "keeps (cEnv c) A (bindA (payFrom c fee) (\<lambda>_. payTo c HoleAddress fee)) 0"
    using g by (intro keeps_bind [OF keeps_payFrom keeps_payTo]) (simp_all add: goodCtxD)
  then show ?thesis unfolding aliasBody_def Ok res.case fee nonNil_def option.case
    using keeps_AliasSet [OF goodCtxD(1,3) [OF g] len(2)]
    by (intro keeps_bind [where ?d1.0 = 0 and ?d2.0 = 0 and m = "onStore (AliasSet _ _ _)"]
        keeps_bind [OF keeps_UseGas, where ?d2.0 = 0]) simp_all
qed (simp_all add: aliasBody_def keeps_raise, simp add: CheckAlias_def split: if_splits)

interpretation setAlias: tx_processor aliasExec
proof (rule tx_processorI)
  show "aliasExec c = bindA (aliasBody c) (\<lambda>_. finishTx c)" for c
    by (simp add: aliasExec_def aliasBody_def bindA_assoc nonNil_def fun_eq_iff bindA_def raiseA_def Let_def
        split: option.splits prod.splits res.splits)
qed (rule keeps_aliasBody)

end
