(* ===== verification/BlockSem.thy ===== *)
theory BlockSem
  imports BlockExec TxSem
begin

section \<open>What executing transactions and blocks does to the ledger\<close>

text \<open>
  The lemmas follow a transaction through the router: gas is bought, used, and what is left
  is paid back. Inside the locale of processors the whole transaction is settled once for all
  processors: the accounts lose exactly the price of the gas used, and the gas pool of the
  block exactly that gas. Over a block these add up.
\<close>

subsection \<open>Charging\<close>

definition charged :: "TxCtx \<Rightarrow> TxView \<Rightarrow> TxView" where
  "charged c v = v\<lparr>vGp := vGp v - txGas (cTx c), vRem := vRem v + txGas (cTx c), vInit := txGas (cTx c),
     vLedger := paid (vLedger v) (cFrom c) (cHeight c) (- (uint (txGas (cTx c)) * txGasPrice (cTx c)))\<rparr>"

lemma SubGas_runs:
  "runsTo (txRep env A) (SubGas g) v (if vGp v < g then Err ErrReachGasLimit else Ok ())
     (if vGp v < g then v else v\<lparr>vGp := vGp v - g\<rparr>)"
  by (simp add: runsTo_def txRep_def SubGas_def)

lemma RefundGas_runs: "runsTo (txRep env A) (RefundGas g) v (Ok ()) (v\<lparr>vRem := vRem v + g\<rparr>)"
  by (simp add: runsTo_def txRep_def RefundGas_def)

lemma setInitial_runs:
  "runsTo (txRep env A) (\<lambda>s. (Ok (), s\<lparr>tInitialGas := g\<rparr>)) v (Ok ()) (v\<lparr>vInit := g\<rparr>)"
  by (simp add: runsTo_def txRep_def)

lemma paySub_runs:
  assumes "goodCtx A c"
  shows "runsTo (txRep (cEnv c) A) (onStore (SubBalance (cEnv c) (cFrom c) (cHeight c) x)) v (Ok ())
     (v\<lparr>vLedger := paid (vLedger v) (cFrom c) (cHeight c) (- x)\<rparr>)"
  using onStore_runs [OF SubBalance_runs [OF goodCtxD(1,3) [OF assms], where h = "cHeight c" and x = x]]
  by (simp add: paid_def)

lemma payAdd_runs:
  assumes "goodCtx A c"
  shows "runsTo (txRep (cEnv c) A) (onStore (AddBalance (cEnv c) (cFrom c) (cHeight c) x)) v
     (Ok (x + due (vLedger v) (cFrom c) (cHeight c))) (v\<lparr>vLedger := paid (vLedger v) (cFrom c) (cHeight c) x\<rparr>)"
  using onStore_runs [OF AddBalance_runs [OF goodCtxD(1,3) [OF assms], where h = "cHeight c" and x = x]]
  by (simp add: paid_def)

lemma senderBalance_runs:
  assumes "goodCtx A c"
  shows "runsTo (txRep (cEnv c) A) (onStore (GetBalance (cEnv c) (cFrom c) (cHeight c))) v
     (Ok (Some (available (vLedger v) (cFrom c) (cHeight c)))) v"
  using onStore_runs [OF GetBalance_runs [OF goodCtxD(3) [OF assms]]] by simp

lemma buyGas_ok:
  assumes g: "goodCtx A c" and ok: "txGas (cTx c) \<le> vGp v"
    "uint (txGas (cTx c)) * txGasPrice (cTx c) \<le> available (vLedger v) (cFrom c) (cHeight c)"
  shows "runsTo (txRep (cEnv c) A) (buyGas c) v (Ok ()) (charged c v)"
proof -
  let ?gas = "txGas (cTx c)" and ?rep = "txRep (cEnv c) A"
  let ?mg = "uint ?gas * txGasPrice (cTx c)"
  have s: "runsTo ?rep (SubGas ?gas) v (Ok ()) (v\<lparr>vGp := vGp v - ?gas\<rparr>)"
    using SubGas_runs [of "cEnv c" A ?gas v] leD [OF ok(1)] by simp
  have "runsTo ?rep (bindA (SubGas ?gas) (\<lambda>_. bindA (RefundGas ?gas) (\<lambda>_.
      bindA (\<lambda>s. (Ok (), s\<lparr>tInitialGas := ?gas\<rparr>)) (\<lambda>_.
        onStore (SubBalance (cEnv c) (cFrom c) (cHeight c) ?mg))))) v (Ok ()) (charged c v)"
    using paySub_runs [OF g, where x = ?mg and v = "v\<lparr>vGp := vGp v - ?gas, vRem := vRem v + ?gas, vInit := ?gas\<rparr>"]
    by (intro runsTo_bind [OF s] runsTo_bind [OF RefundGas_runs] runsTo_bind [OF setInitial_runs]) (simp add: charged_def)
  then show ?thesis using ok(2) unfolding buyGas_def Let_def
    by (intro runsTo_bind [OF senderBalance_runs [OF g]]) (simp add: nonNil_def)
qed

lemma buyGas_outcome:
  assumes g: "goodCtx A c"
  shows "\<exists>r v'. runsTo (txRep (cEnv c) A) (buyGas c) v r v' \<and> r \<noteq> Panic \<and>
     (\<forall>x. r = Ok x \<longrightarrow> txGas (cTx c) \<le> vGp v \<and> v' = charged c v \<and>
        uint (txGas (cTx c)) * txGasPrice (cTx c) \<le> available (vLedger v) (cFrom c) (cHeight c))"
proof -
  let ?gas = "txGas (cTx c)" and ?rep = "txRep (cEnv c) A"
  let ?mg = "uint ?gas * txGasPrice (cTx c)" and ?av = "available (vLedger v) (cFrom c) (cHeight c)"
  note b = senderBalance_runs [OF g, of v]
  consider (poor) "?av < ?mg" | (full) "\<not> ?av < ?mg" "vGp v < ?gas" | (ok) "\<not> ?av < ?mg" "\<not> vGp v < ?gas" by blast
  then show ?thesis
  proof cases
    case poor
    then have "runsTo ?rep (buyGas c) v (Err ErrInsufficientBalanceForGas) v"
      unfolding buyGas_def Let_def by (intro runsTo_bind [OF b]) (simp add: nonNil_def runsTo_raise)
    then show ?thesis by blast
  next
    case full
    have "runsTo ?rep (SubGas ?gas) v (Err ErrReachGasLimit) v" using SubGas_runs [of "cEnv c" A ?gas v] full(2) by simp
    then have "runsTo ?rep (buyGas c) v (Err ErrReachGasLimit) v"
      using full(1) unfolding buyGas_def Let_def by (intro runsTo_bind [OF b]) (simp add: nonNil_def runsTo_bind_Err)
    then show ?thesis by blast
  next
    case ok
    then have le: "?gas \<le> vGp v" "?mg \<le> ?av" by (simp_all add: not_less)
    then show ?thesis using buyGas_ok [OF g le] by blast
  qed
qed

lemma PreCheck_outcome:
  assumes g: "goodCtx A c"
  shows "\<exists>r v'. runsTo (txRep (cEnv c) A) (PreCheck c) v r v' \<and> r \<noteq> Panic \<and>
     (\<forall>x. r = Ok x \<longrightarrow> txGas (cTx c) \<le> vGp v \<and> v' = charged c v \<and> sNonce (acct (vLedger v) (cFrom c)) = txNonce (cTx c) \<and>
        uint (txGas (cTx c)) * txGasPrice (cTx c) \<le> available (vLedger v) (cFrom c) (cHeight c))"
proof -
  let ?n = "sNonce (acct (vLedger v) (cFrom c))" and ?rep = "txRep (cEnv c) A"
  have b: "runsTo ?rep (onStore (GetNonce (cEnv c) (cFrom c))) v (Ok ?n) v"
    using onStore_runs [OF GetNonce_runs [OF goodCtxD(3) [OF g]]] by simp
  consider "?n < txNonce (cTx c)" | "txNonce (cTx c) < ?n" | "?n = txNonce (cTx c)" by (metis linorder_neqE)
  then show ?thesis
  proof cases
    case 1
    then have "runsTo ?rep (PreCheck c) v (Err ErrNonceTooHigh) v"
      unfolding PreCheck_def by (intro runsTo_bind [OF b]) (simp add: runsTo_raise)
    then show ?thesis by blast
  next
    case 2
    then have "runsTo ?rep (PreCheck c) v (Err ErrNonceTooLow) v"
      unfolding PreCheck_def by (intro runsTo_bind [OF b]) (auto simp: runsTo_raise)
    then show ?thesis by blast
  next
    case 3
    obtain r v' where r: "runsTo ?rep (buyGas c) v r v'" "r \<noteq> Panic"
        "\<And>x. r = Ok x \<Longrightarrow> txGas (cTx c) \<le> vGp v \<and> v' = charged c v \<and>
          uint (txGas (cTx c)) * txGasPrice (cTx c) \<le> available (vLedger v) (cFrom c) (cHeight c)"
      using buyGas_outcome [OF g] by blast
    have "runsTo ?rep (PreCheck c) v r v'"
      using 3 r(1) unfolding PreCheck_def by (intro runsTo_bind [OF b]) simp
    then show ?thesis using r(2,3) 3 by blast
  qed
qed

text \<open>After the charge the transaction has its gas limit minus the intrinsic gas left.\<close>

lemma chargeTx_outcome:
  assumes g: "goodCtx A c" and v: "vRem v = 0"
  shows "\<exists>r v'. runsTo (txRep (cEnv c) A) (chargeTx c) v r v' \<and> r \<noteq> Panic \<and>
     (\<forall>x. r = Ok x \<longrightarrow> txGas (cTx c) \<le> vGp v \<and> sNonce (acct (vLedger v) (cFrom c)) = txNonce (cTx c) \<and>
        uint (txGas (cTx c)) * txGasPrice (cTx c) \<le> available (vLedger v) (cFrom c) (cHeight c) \<and>
        (\<exists>ig. IntrinsicGas (cTx c) = Some ig \<and> ig \<le> txGas (cTx c) \<and>
           v' = (charged c v)\<lparr>vRem := txGas (cTx c) - ig\<rparr>))"
proof -
  obtain r v1 where r: "runsTo (txRep (cEnv c) A) (PreCheck c) v r v1" "r \<noteq> Panic"
      "\<And>x. r = Ok x \<Longrightarrow> txGas (cTx c) \<le> vGp v \<and> v1 = charged c v \<and> sNonce (acct (vLedger v) (cFrom c)) = txNonce (cTx c) \<and>
        uint (txGas (cTx c)) * txGasPrice (cTx c) \<le> available (vLedger v) (cFrom c) (cHeight c)"
    using PreCheck_outcome [OF g] by blast
  show ?thesis
  proof (cases r)
    case (Err e)
    then have "runsTo (txRep (cEnv c) A) (chargeTx c) v (Err e) v1"
      using r(1) unfolding chargeTx_def by (intro runsTo_bind_Err) simp
    then show ?thesis by blast
  next
    case (Ok u)
    note k = r(3) [OF Ok]
    have rem: "vRem (charged c v) = txGas (cTx c)" using v by (simp add: charged_def)
    show ?thesis
    proof (cases "IntrinsicGas (cTx c)")
      case None
      then have "runsTo (txRep (cEnv c) A) (chargeTx c) v (Err ErrIntrinsicGas) v1"
        using r(1) unfolding chargeTx_def Ok by (intro runsTo_bind) (assumption, simp add: runsTo_raise)
      then show ?thesis by blast
    next
      case (Some ig)
      let ?r = "if vRem v1 < ig then Err ErrOutOfGas else Ok ()"
      have u: "runsTo (txRep (cEnv c) A) (chargeTx c) v ?r (if vRem v1 < ig then v1 else v1\<lparr>vRem := vRem v1 - ig\<rparr>)"
        using r(1) UseGas_runs unfolding chargeTx_def Ok by (intro runsTo_bind) (assumption, simp add: Some)
      show ?thesis by (rule exI, rule exI, rule conjI, rule u) (use k rem Some in \<open>auto split: if_splits\<close>)
    qed
  qed (use r(2) in simp)
qed

lemma chargeTx_ok:
  assumes g: "goodCtx A c" and ok: "txGas (cTx c) \<le> vGp v"
    "uint (txGas (cTx c)) * txGasPrice (cTx c) \<le> available (vLedger v) (cFrom c) (cHeight c)"
    and "sNonce (acct (vLedger v) (cFrom c)) = txNonce (cTx c)" "IntrinsicGas (cTx c) = Some ig" "ig \<le> txGas (cTx c)" "vRem v = 0"
  shows "runsTo (txRep (cEnv c) A) (chargeTx c) v (Ok ()) ((charged c v)\<lparr>vRem := txGas (cTx c) - ig\<rparr>)"
proof -
  have "runsTo (txRep (cEnv c) A) (onStore (GetNonce (cEnv c) (cFrom c))) v (Ok (txNonce (cTx c))) v"
    using onStore_runs [OF GetNonce_runs [OF goodCtxD(3) [OF g]]] assms(4) by (metis TxView.surjective TxView.update_convs(1))
  then have p: "runsTo (txRep (cEnv c) A) (PreCheck c) v (Ok ()) (charged c v)"
    unfolding PreCheck_def using buyGas_ok [OF g ok] by (intro runsTo_bind) (assumption, simp)
  have "vRem (charged c v) = txGas (cTx c)" using assms(7) by (simp add: charged_def)
  then show ?thesis using UseGas_runs [of "cEnv c" A ig "charged c v"] leD [OF assms(6)] unfolding chargeTx_def assms(5) option.case
    by (intro runsTo_bind [OF p]) simp
qed

subsection \<open>Settling\<close>

lemma CreateBloom_total: "\<exists>bl. CreateBloom kec rs = Some bl"
proof -
  have "small (foldl (\<lambda>bin r. bin OR LogsBloom kec (rLogs r)) 0 rs)" by (intro small_foldl) simp_all
  then show ?thesis using BytesToBloom_small unfolding CreateBloom_def by blast
qed

lemma makeReceipt_total:
  "\<exists>r. makeReceipt c etr addr g = Some r \<and> rGasUsed r = g \<and> rTxHash r = txHash (cTx c) \<and> rLogs r = ContractTxLog etr"
proof -
  obtain bl where "CreateBloom (keccak (crypto (cEnv c))) [baseReceipt c etr addr g] = Some bl"
    using CreateBloom_total by blast
  then show ?thesis by (simp add: makeReceipt_def Let_def baseReceipt_def)
qed

definition refunded :: "TxCtx \<Rightarrow> TxView \<Rightarrow> TxView" where
  "refunded c v = v\<lparr>vLedger := paid (vLedger v) (cFrom c) (cHeight c) (uint (vRem v) * txGasPrice (cTx c)),
     vGp := vGp v + vRem v\<rparr>"

lemma readGasUsed_runs: "runsTo (txRep env A) (readTx txGasUsed) v (Ok (vInit v - vRem v)) v"
  by (simp add: runsTo_def txRep_def readTx_def txGasUsed_def)

lemma settleTx_runs:
  assumes g: "goodCtx A c" and fits: "vGp v \<le> - 1 - vRem v"
  shows "\<exists>r. runsTo (txRep (cEnv c) A) (settleTx c etr addr) v (Ok (Some r, vInit v - vRem v)) (refunded c v) \<and>
     rGasUsed r = vInit v - vRem v \<and> rTxHash r = txHash (cTx c) \<and> rLogs r = ContractTxLog etr"
proof -
  let ?rep = "txRep (cEnv c) A"
  let ?v1 = "v\<lparr>vLedger := paid (vLedger v) (cFrom c) (cHeight c) (uint (vRem v) * txGasPrice (cTx c))\<rparr>"
  have "runsTo ?rep (AddGas (vRem v)) ?v1 (Ok ()) (refunded c v)"
    using AddGas_runs [of "cEnv c" A "vRem v" ?v1] leD [OF fits] by (simp add: refunded_def)
  then have c: "runsTo ?rep (RefundCoin c) v (Ok ()) (refunded c v)" unfolding RefundCoin_def
    by (intro runsTo_bind [OF readTx_runs] runsTo_bind [OF runsTo_try_Ok [OF payAdd_runs [OF g]]]) simp
  obtain r where r: "makeReceipt c etr addr (vInit v - vRem v) = Some r" "rGasUsed r = vInit v - vRem v"
      "rTxHash r = txHash (cTx c)" "rLogs r = ContractTxLog etr" using makeReceipt_total by blast
  have "runsTo ?rep (readTx txGasUsed) (refunded c v) (Ok (vInit v - vRem v)) (refunded c v)"
    using readGasUsed_runs [of "cEnv c" A "refunded c v"] by (simp add: refunded_def)
  then have "runsTo ?rep (settleTx c etr addr) v (Ok (Some r, vInit v - vRem v)) (refunded c v)"
    unfolding settleTx_def by (intro runsTo_bind [OF c]) (rule runsTo_bind, assumption, simp add: r nonNil_def runsTo_return)
  then show ?thesis using r by blast
qed

subsection \<open>A whole transaction\<close>

text \<open>
  \<open>txSettled A c g v v'\<close>: the transaction used \<open>g\<close> gas. The accounts of \<open>A\<close> paid for it and
  nothing else was lost, the sender's nonce went up by one, and the pool gave \<open>g\<close> away.
\<close>

definition txSettled :: "address set \<Rightarrow> TxCtx \<Rightarrow> u64 \<Rightarrow> TxView \<Rightarrow> TxView \<Rightarrow> bool" where
  "txSettled A c g v v' \<longleftrightarrow>
     wealth A (vLedger v') = wealth A (vLedger v) - uint g * txGasPrice (cTx c) \<and> ledgerInv A (vLedger v') \<and>
     sNonce (acct (vLedger v) (cFrom c)) = txNonce (cTx c) \<and>
     (\<forall>b. sNonce (acct (vLedger v') b) = (if b = cFrom c then txNonce (cTx c) + 1 else sNonce (acct (vLedger v) b))) \<and>
     g \<le> txGas (cTx c) \<and> g \<le> vGp v \<and> vGp v' = vGp v - g"

lemma gas_arith:
  fixes gp gas rem ig :: u64
  assumes "gas \<le> gp" "ig \<le> gas" "rem \<le> gas - ig"
  shows "gp - gas \<le> - 1 - rem" "gas - rem \<le> gas" "gas - rem \<le> gp" "gp - gas + rem = gp - (gas - rem)"
    "uint (gas - rem) = uint gas - uint rem"
proof -
  have le: "rem \<le> gas"
    using assms(2,3) by (metis order_trans word_sub_le)
  then show u: "uint (gas - rem) = uint gas - uint rem" by (simp add: uint_minus_simple_alt)
  show "gas - rem \<le> gas" using le by (rule word_sub_le)
  then show "gas - rem \<le> gp" using assms(1) by (rule order_trans)
  show "gp - gas + rem = gp - (gas - rem)" by simp
  have "uint (gp - gas) = uint gp - uint gas" using assms(1) by (simp add: uint_minus_simple_alt)
  moreover have "uint (- 1 - rem) = 2 ^ 64 - 1 - uint rem"
    using uint_minus_simple_alt [of rem "- 1"] by (simp add: unsigned_minus_1_eq_mask mask_eq_exp_minus_1)
  moreover have "uint gp < 2 ^ 64" using uint_lt2p [of gp] by simp
  ultimately show "gp - gas \<le> - 1 - rem" using le by (simp add: word_le_def)
qed

lemma txSettledI:
  assumes g: "goodCtx A c" and ig: "ig \<le> txGas (cTx c)" "txGas (cTx c) \<le> vGp v"
    and n: "sNonce (acct (vLedger v) (cFrom c)) = txNonce (cTx c)"
    and d: "txDone A c ((charged c v)\<lparr>vRem := txGas (cTx c) - ig\<rparr>) v2"
  shows "txSettled A c (vInit v2 - vRem v2) v (refunded c v2)" "vGp v2 \<le> - 1 - vRem v2"
proof -
  let ?gas = "txGas (cTx c)" and ?p = "txGasPrice (cTx c)"
  have v2: "vInit v2 = ?gas" "vGp v2 = vGp v - ?gas" "vRem v2 \<le> ?gas - ig"
      "wealth A (vLedger v2) = wealth A (vLedger v) - uint ?gas * ?p" "ledgerInv A (vLedger v2)"
      "\<forall>b. sNonce (acct (vLedger v2) b) = (if b = cFrom c then txNonce (cTx c) + 1 else sNonce (acct (vLedger v) b))"
    using d wealth_paid [OF goodCtxD(2,3) [OF g]] by (simp_all add: txDone_def charged_def)
  note a = gas_arith [OF ig(2,1) v2(3)]
  show "vGp v2 \<le> - 1 - vRem v2" using a(1) v2(2) by simp
  have "wealth A (vLedger (refunded c v2)) = wealth A (vLedger v) - uint (?gas - vRem v2) * ?p"
    unfolding a(5) using v2(4) wealth_paid [OF goodCtxD(2,3) [OF g]] by (simp add: refunded_def algebra_simps)
  then show "txSettled A c (vInit v2 - vRem v2) v (refunded c v2)"
    using v2 n a(2,3,4) by (simp add: txSettled_def) (simp add: refunded_def)
qed

context tx_processor
begin

text \<open>The stages of a transaction: the charge fails, the processor fails, or it is settled.\<close>

lemma stages:
  assumes g: "goodCtx A c" and v: "vRem v = 0" "ledgerInv A (vLedger v)"
  obtains (chargeFails) e v1 where "runsTo (txRep (cEnv c) A) (chargeTx c) v (Err e) v1"
  | (execFails) u v1 e v2 where "runsTo (txRep (cEnv c) A) (chargeTx c) v (Ok u) v1"
      "runsTo (txRep (cEnv c) A) (exec c) v1 (Err e) v2"
  | (settled) u v1 v2 rc g where "runsTo (txRep (cEnv c) A) (chargeTx c) v (Ok u) v1"
      "runsTo (txRep (cEnv c) A) (exec c) v1 (Ok emptyResult) v2"
      "runsTo (txRep (cEnv c) A) (settleTx c emptyResult addr) v2 (Ok (Some rc, g)) (refunded c v2)"
      "rGasUsed rc = g" "rTxHash rc = txHash (cTx c)" "rLogs rc = []" "txSettled A c g v (refunded c v2)"
proof -
  let ?rep = "txRep (cEnv c) A"
  obtain r v1 where 1: "runsTo ?rep (chargeTx c) v r v1" "r \<noteq> Panic"
      "\<And>x. r = Ok x \<Longrightarrow> txGas (cTx c) \<le> vGp v \<and> sNonce (acct (vLedger v) (cFrom c)) = txNonce (cTx c) \<and>
        (\<exists>ig. ig \<le> txGas (cTx c) \<and> v1 = (charged c v)\<lparr>vRem := txGas (cTx c) - ig\<rparr>)"
    using chargeTx_outcome [OF g v(1)] by blast
  show thesis
  proof (cases r)
    case (Err e)
    then show ?thesis using chargeFails 1(1) by simp
  next
    case (Ok u)
    obtain ig where k: "txGas (cTx c) \<le> vGp v" "sNonce (acct (vLedger v) (cFrom c)) = txNonce (cTx c)"
        "ig \<le> txGas (cTx c)" "v1 = (charged c v)\<lparr>vRem := txGas (cTx c) - ig\<rparr>" using 1(3) [OF Ok] by blast
    have "ledgerInv A (vLedger v1)" using v(2) by (simp add: k(4) charged_def)
    then obtain r2 v2 where 2: "runsTo ?rep (exec c) v1 r2 v2" "r2 \<noteq> Panic"
        "\<And>x. r2 = Ok x \<Longrightarrow> x = emptyResult \<and> txDone A c v1 v2" using exec_outcome [OF g] by blast
    show ?thesis
    proof (cases r2)
      case (Err e)
      then show ?thesis using execFails 1(1) 2(1) Ok by simp
    next
      case o2: (Ok etr)
      then have d: "etr = emptyResult" "txDone A c ((charged c v)\<lparr>vRem := txGas (cTx c) - ig\<rparr>) v2"
        using 2(3) k(4) by auto
      note s = txSettledI [OF g k(3,1,2) d(2)]
      obtain rc where "runsTo ?rep (settleTx c emptyResult addr) v2 (Ok (Some rc, vInit v2 - vRem v2)) (refunded c v2)"
          "rGasUsed rc = vInit v2 - vRem v2" "rTxHash rc = txHash (cTx c)" "rLogs rc = ContractTxLog emptyResult"
        using settleTx_runs [OF g s(2)] by blast
      then show ?thesis using settled 1(1) 2(1) s(1) unfolding Ok o2 d(1) by (auto simp: emptyResult_def)
    qed (use 2(2) in simp)
  qed (use 1(2) in simp)
qed

text \<open>The template's route: a failure of the processor is the failure of the transaction.\<close>

lemma executed:
  assumes "goodCtx A c" "vRem v = 0" "ledgerInv A (vLedger v)"
  shows "\<exists>r v'. runsTo (txRep (cEnv c) A) (bindA (chargeTx c) (\<lambda>_. bindA (exec c) (\<lambda>etr. settleTx c etr addr))) v r v' \<and>
     r \<noteq> Panic \<and> (\<forall>x. r = Ok x \<longrightarrow> (\<exists>rc g. x = (Some rc, g) \<and> rGasUsed rc = g \<and> rTxHash rc = txHash (cTx c) \<and>
       rLogs rc = [] \<and> txSettled A c g v v'))"
proof (rule stages [OF assms, where addr = addr])
  fix e v1
  assume 1: "runsTo (txRep (cEnv c) A) (chargeTx c) v (Err e) v1"
  have "runsTo (txRep (cEnv c) A) (bindA (chargeTx c) (\<lambda>_. bindA (exec c) (\<lambda>etr. settleTx c etr addr))) v (Err e) v1"
    by (rule runsTo_bind_Err [OF 1])
  then show ?thesis by blast
next
  fix u v1 e v2
  assume 1: "runsTo (txRep (cEnv c) A) (chargeTx c) v (Ok u) v1" and 2: "runsTo (txRep (cEnv c) A) (exec c) v1 (Err e) v2"
  have "runsTo (txRep (cEnv c) A) (bindA (chargeTx c) (\<lambda>_. bindA (exec c) (\<lambda>etr. settleTx c etr addr))) v (Err e) v2"
    by (rule runsTo_bind [OF 1], rule runsTo_bind_Err [OF 2])
  then show ?thesis by blast
next
  fix u v1 v2 rc g
  assume 1: "runsTo (txRep (cEnv c) A) (chargeTx c) v (Ok u) v1"
    and 2: "runsTo (txRep (cEnv c) A) (exec c) v1 (Ok emptyResult) v2"
    and 3: "runsTo (txRep (cEnv c) A) (settleTx c emptyResult addr) v2 (Ok (Some rc, g)) (refunded c v2)"
    and s: "rGasUsed rc = g" "rTxHash rc = txHash (cTx c)" "rLogs rc = []" "txSettled A c g v (refunded c v2)"
  have "runsTo (txRep (cEnv c) A) (bindA (chargeTx c) (\<lambda>_. bindA (exec c) (\<lambda>etr. settleTx c etr addr))) v
      (Ok (Some rc, g)) (refunded c v2)"
    by (rule runsTo_bind [OF 1], rule runsTo_bind [OF 2], rule 3)
  then show ?thesis using s by blast
qed

text \<open>The executor's route: a failure of the processor gives no receipt, no gas and no error.\<close>

lemma routed:
  assumes "goodCtx A c" "vRem v = 0" "ledgerInv A (vLedger v)" "selectTx vs (cTx c) = Some exec"
  shows "\<exists>r v'. runsTo (txRep (cEnv c) A) (routeTx vs c) v r v' \<and>
     r \<noteq> Panic \<and> (\<forall>x. r = Ok x \<longrightarrow> x = (None, 0) \<or> (\<exists>rc g. x = (Some rc, g) \<and> rGasUsed rc = g \<and>
       rTxHash rc = txHash (cTx c) \<and> rLogs rc = [] \<and> txSettled A c g v v'))"
proof (rule stages [OF assms(1-3), where addr = ZeroAddress])
  fix e v1
  assume 1: "runsTo (txRep (cEnv c) A) (chargeTx c) v (Err e) v1"
  have "runsTo (txRep (cEnv c) A) (routeTx vs c) v (Err e) v1"
    unfolding routeTx_def by (rule runsTo_bind_Err [OF 1])
  then show ?thesis by blast
next
  fix u v1 e v2
  assume 1: "runsTo (txRep (cEnv c) A) (chargeTx c) v (Ok u) v1" and 2: "runsTo (txRep (cEnv c) A) (exec c) v1 (Err e) v2"
  have "runsTo (txRep (cEnv c) A) (routeTx vs c) v (Ok (None, 0)) v2" unfolding routeTx_def assms(4) option.case
    by (rule runsTo_bind [OF 1], rule runsTo_bind [OF runsTo_try_Err [OF 2]]) (simp add: runsTo_return)
  then show ?thesis by blast
next
  fix u v1 v2 rc g
  assume 1: "runsTo (txRep (cEnv c) A) (chargeTx c) v (Ok u) v1"
    and 2: "runsTo (txRep (cEnv c) A) (exec c) v1 (Ok emptyResult) v2"
    and 3: "runsTo (txRep (cEnv c) A) (settleTx c emptyResult ZeroAddress) v2 (Ok (Some rc, g)) (refunded c v2)"
    and s: "rGasUsed rc = g" "rTxHash rc = txHash (cTx c)" "rLogs rc = []" "txSettled A c g v (refunded c v2)"
  have z: "ContractAddr emptyResult = ZeroAddress" by (simp add: emptyResult_def)
  have "runsTo (txRep (cEnv c) A) (routeTx vs c) v (Ok (Some rc, g)) (refunded c v2)" unfolding routeTx_def assms(4) option.case
    by (rule runsTo_bind [OF 1], rule runsTo_bind [OF runsTo_try_Ok [OF 2]]) (simp add: z 3)
  then show ?thesis using s by blast
qed

end

subsection \<open>The router\<close>

lemma chainValidators_processors:
  assumes "v \<in> set chainValidators"
  shows "tx_processor (snd v)"
  using assms transfer.tx_processor_axioms setAlias.tx_processor_axioms vote.tx_processor_axioms
    cancelVote.tx_processor_axioms candidate.tx_processor_axioms cancelCandidate.tx_processor_axioms
  by (auto simp: chainValidators_def)

text \<open>The selectors exclude each other, so the order in which the map is iterated does not matter.\<close>

lemma selectors_disjoint:
  "\<lbrakk>v \<in> set chainValidators; w \<in> set chainValidators; fst v tx; fst w tx\<rbrakk> \<Longrightarrow> v = w"
  by (auto simp: chainValidators_def TxType_defs)

lemma find_unique:
  assumes "\<And>v w. \<lbrakk>v \<in> set xs; w \<in> set xs; P v; P w\<rbrakk> \<Longrightarrow> v = w" "\<And>v. P v \<Longrightarrow> v \<in> set xs \<longleftrightarrow> v \<in> set ys"
  shows "List.find P xs = List.find P ys"
proof (cases "List.find P xs")
  case None
  then have "List.find P ys = None" using assms(2) by (auto simp: find_None_iff)
  then show ?thesis using None by simp
next
  case (Some v)
  then have v: "v \<in> set xs" "P v" by (auto simp: find_Some_iff)
  obtain w where w: "List.find P ys = Some w" using v assms(2) by (cases "List.find P ys") (auto simp: find_None_iff)
  then have "w \<in> set ys" "P w" by (auto simp: find_Some_iff)
  then show ?thesis using Some w v assms by metis
qed

lemma selectTx_order: "set vs = set chainValidators \<Longrightarrow> selectTx vs tx = selectTx chainValidators tx"
  unfolding selectTx_def by (rule arg_cong [of _ _ "map_option snd"], rule find_unique)
    (use selectors_disjoint in blast)+

text \<open>A transaction that is not a contract transaction never meets the virtual machine.\<close>

lemma selectTx_node:
  assumes "set vs = nodeValidators evm" "\<not> selectEvm tx"
  shows "selectTx vs tx = selectTx chainValidators tx"
  unfolding selectTx_def
  by (rule arg_cong [of _ _ "map_option snd"], rule find_unique)
    (use assms selectors_disjoint in \<open>auto simp: nodeValidators_def\<close>)

lemma RouteTransaction_node:
  assumes "set vs = nodeValidators evm" "\<not> selectEvm tx"
  shows "RouteTransaction ce vs h tx = RouteTransaction ce chainValidators h tx"
    "RouteTemplateTransaction ce vs h tx = RouteTemplateTransaction ce chainValidators h tx"
proof -
  have "routeTx vs c = routeTx chainValidators c \<and> routeTemplateTx vs c = routeTemplateTx chainValidators c" if "cTx c = tx" for c
    unfolding routeTx_def routeTemplateTx_def that selectTx_node [OF assms] by simp
  then show "RouteTransaction ce vs h tx = RouteTransaction ce chainValidators h tx"
    "RouteTemplateTransaction ce vs h tx = RouteTemplateTransaction ce chainValidators h tx"
    unfolding RouteTransaction_def RouteTemplateTransaction_def by (simp_all split: option.split)
qed

lemma executeTxs_node:
  "set vs = nodeValidators evm \<Longrightarrow> \<forall>tx\<in>set txs. \<not> selectEvm tx \<Longrightarrow>
     executeTxs ce vs h i txs = executeTxs ce chainValidators h i txs"
  by (induction txs arbitrary: i) (simp_all add: RouteTransaction_node)

lemma ExecuteBlock_node:
  assumes "set vs = nodeValidators evm" "\<forall>tx\<in>set (bTxList block). \<not> selectEvm tx"
  shows "ExecuteBlock ce vs block = ExecuteBlock ce chainValidators block"
  unfolding ExecuteBlock_def executeTxs_node [OF assms] by (rule refl)

lemma templateTxs_node:
  "set vs = nodeValidators evm \<Longrightarrow> \<forall>tx\<in>set txs. \<not> selectEvm tx \<Longrightarrow>
     templateTxs ce vs h fired i txs acc = templateTxs ce chainValidators h fired i txs acc"
proof (induction txs arbitrary: i acc)
  case (Cons t ts)
  then have t: "\<not> selectEvm t" and ts: "\<And>i acc. templateTxs ce vs h fired i ts acc = templateTxs ce chainValidators h fired i ts acc"
    by simp_all
  show ?case unfolding templateTxs.simps ts RouteTransaction_node(2) [OF Cons.prems(1) t] by (rule refl)
qed simp

lemma TemplateExecuteBlock_node:
  assumes "set vs = nodeValidators evm" "\<forall>tx\<in>set (bTxList block). \<not> selectEvm tx"
  shows "TemplateExecuteBlock ce vs fired block = TemplateExecuteBlock ce chainValidators fired block"
  unfolding TemplateExecuteBlock_def templateTxs_node [OF assms] by (rule refl)

lemma selectTx_processor:
  assumes "set vs = set chainValidators" "selectTx vs tx = Some e"
  shows "tx_processor e"
proof -
  obtain v where v: "List.find (\<lambda>v. fst v tx) vs = Some v" "e = snd v" using assms(2) by (auto simp: selectTx_def)
  then have "v \<in> set vs" by (auto simp: find_Some_iff)
  then show ?thesis using assms(1) chainValidators_processors v(2) by blast
qed

lemma routeTx_outcome:
  assumes "set vs = set chainValidators" "goodCtx A c" "vRem v = 0" "ledgerInv A (vLedger v)"
  shows "\<exists>r v'. runsTo (txRep (cEnv c) A) (routeTx vs c) v r v' \<and>
     r \<noteq> Panic \<and> (\<forall>x. r = Ok x \<longrightarrow> x = (None, 0) \<or> (\<exists>rc g. x = (Some rc, g) \<and> rGasUsed rc = g \<and>
       rTxHash rc = txHash (cTx c) \<and> rLogs rc = [] \<and> txSettled A c g v v'))"
proof (cases "selectTx vs (cTx c)")
  case (Some e)
  show ?thesis by (rule tx_processor.routed [OF selectTx_processor [OF assms(1) Some] assms(2-4) Some])
next
  case None
  obtain r v1 where 1: "runsTo (txRep (cEnv c) A) (chargeTx c) v r v1" "r \<noteq> Panic"
    using chargeTx_outcome [OF assms(2,3)] by blast
  show ?thesis
  proof (cases r)
    case (Ok u)
    have "runsTo (txRep (cEnv c) A) (routeTx vs c) v (Err ErrUnsupportTxType) v1"
      unfolding routeTx_def None by (rule runsTo_bind [OF 1(1) [unfolded Ok]]) (simp add: runsTo_raise)
    then show ?thesis by blast
  next
    case (Err e)
    have "runsTo (txRep (cEnv c) A) (routeTx vs c) v (Err e) v1"
      unfolding routeTx_def by (rule runsTo_bind_Err [OF 1(1) [unfolded Err]])
    then show ?thesis by blast
  qed (use 1(2) in simp)
qed

subsection \<open>Blocks\<close>

text \<open>The transactions a block may hold for the accounts of \<open>A\<close>.\<close>

definition goodTx :: "address set \<Rightarrow> Transaction \<Rightarrow> bool" where
  "goodTx A tx \<longleftrightarrow> (\<exists>from\<in>A. txFrom tx = Some from) \<and> txTo tx \<in> A \<and> txAmount tx \<ge> 0"

definition goodBlock :: "Env \<Rightarrow> address set \<Rightarrow> u64 \<Rightarrow> Transaction list \<Rightarrow> bool" where
  "goodBlock env A h txs \<longleftrightarrow> envOK env A \<and> finite A \<and> HoleAddress \<in> A \<and> h \<noteq> 0 \<and> (\<forall>tx\<in>set txs. goodTx A tx)"

text \<open>
  \<open>blockAdvance A txs L bc L' bc'\<close>: what a successful run of \<open>txs\<close> did to the ledger and to the
  counters of the block.
\<close>

definition blockAdvance :: "address set \<Rightarrow> Transaction list \<Rightarrow> Ledger \<Rightarrow> BlockExecuteContext \<Rightarrow> Ledger \<Rightarrow> BlockExecuteContext \<Rightarrow> bool" where
  "blockAdvance A txs L bc L' bc' \<longleftrightarrow> ledgerInv A L' \<and>
     wealth A L' = wealth A L - (bcGasFee bc' - bcGasFee bc) \<and>
     uint (bcGp bc') = uint (bcGp bc) - (bcGasUsed bc' - bcGasUsed bc) \<and>
     (\<forall>b. sNonce (acct L' b) = sNonce (acct L b) + of_nat (count_list (map txFrom txs) (Some b)))"

definition blockStep :: "address set \<Rightarrow> Transaction \<Rightarrow> u64 \<Rightarrow> Ledger \<Rightarrow> BlockExecuteContext \<Rightarrow> Ledger \<Rightarrow> BlockExecuteContext \<Rightarrow> bool" where
  "blockStep A tx g L bc L' bc' \<longleftrightarrow> ledgerInv A L' \<and> wealth A L' = wealth A L - uint g * txGasPrice tx \<and>
     g \<le> bcGp bc \<and> bcGp bc' = bcGp bc - g \<and>
     (\<forall>b. sNonce (acct L' b) = sNonce (acct L b) + (if txFrom tx = Some b then 1 else 0))"

lemma RouteTransaction_outcome:
  assumes vs: "set vs = set chainValidators" and g: "goodBlock (nEnv ce) A h [tx]"
    and L: "ledgerRep (nEnv ce) A (bcStore bc) L" "ledgerInv A L"
  shows "\<exists>r bc'. RouteTransaction ce vs h tx bc = (r, bc') \<and> r \<noteq> Panic \<and>
     bc' = bc\<lparr>bcStore := bcStore bc', bcGp := bcGp bc'\<rparr> \<and>
     (\<forall>x. r = Ok x \<longrightarrow> x = (None, 0) \<or> (\<exists>rc g L'. x = (Some rc, g) \<and> rGasUsed rc = g \<and> rLogs rc = [] \<and>
        ledgerRep (nEnv ce) A (bcStore bc') L' \<and> blockStep A tx g L bc L' bc'))"
proof -
  obtain a where a: "txFrom tx = Some a" "a \<in> A" using g by (auto simp: goodBlock_def goodTx_def)
  let ?c = "\<lparr>cEnv = nEnv ce, cFrom = a, cTx = tx, cHeight = h\<rparr>"
  let ?v = "\<lparr>vLedger = L, vGp = bcGp bc, vRem = 0, vInit = 0\<rparr>"
  let ?s = "\<lparr>tStore = bcStore bc, tGp = bcGp bc, tGasRemained = 0, tInitialGas = 0\<rparr>"
  have c: "goodCtx A ?c" using g a(2) by (simp add: goodBlock_def goodTx_def goodCtx_def)
  obtain r v' where r: "runsTo (txRep (nEnv ce) A) (routeTx vs ?c) ?v r v'" "r \<noteq> Panic"
      "\<And>x. r = Ok x \<Longrightarrow> x = (None, 0) \<or> (\<exists>rc g. x = (Some rc, g) \<and> rGasUsed rc = g \<and> rLogs rc = [] \<and> txSettled A ?c g ?v v')"
    using routeTx_outcome [OF vs c, of ?v] L(2) unfolding TxCtx.simps TxView.simps by blast
  have "txRep (nEnv ce) A ?s ?v" using L(1) by (simp add: txRep_def)
  then obtain s' where s': "routeTx vs ?c ?s = (r, s')" "txRep (nEnv ce) A s' v'"
    using runsTo_det [OF r(1)] by blast
  let ?bc = "bc\<lparr>bcStore := tStore s', bcGp := tGp s'\<rparr>"
  have run: "RouteTransaction ce vs h tx bc = (r, ?bc)" using s'(1) a(1) by (simp add: RouteTransaction_def onTx_def)
  have "\<exists>rc g L'. x = (Some rc, g) \<and> rGasUsed rc = g \<and> rLogs rc = [] \<and>
        ledgerRep (nEnv ce) A (bcStore ?bc) L' \<and> blockStep A tx g L bc L' ?bc" if x: "r = Ok x" "x \<noteq> (None, 0)" for x
  proof -
    obtain rc g where rc: "x = (Some rc, g)" "rGasUsed rc = g" "rLogs rc = []" "txSettled A ?c g ?v v'"
      using r(3) [OF x(1)] x(2) by auto
    have "blockStep A tx g L bc (vLedger v') ?bc"
      using rc(4) s'(2) a(1) by (auto simp: blockStep_def txSettled_def txRep_def)
    then show ?thesis using rc s'(2) by (auto simp: txRep_def)
  qed
  then show ?thesis using run r(2) by (intro exI [of _ r] exI [of _ ?bc]) auto
qed

lemma executeTxs_ok:
  assumes vs: "set vs = set chainValidators"
  shows "\<lbrakk>goodBlock (nEnv ce) A h txs; ledgerRep (nEnv ce) A (bcStore bc) L; ledgerInv A L;
     executeTxs ce vs h i txs bc = (Ok (), bc')\<rbrakk> \<Longrightarrow>
     \<exists>L'. ledgerRep (nEnv ce) A (bcStore bc') L' \<and> blockAdvance A txs L bc L' bc'"
proof (induction txs arbitrary: i bc L)
  case Nil
  then show ?case by (auto simp: blockAdvance_def)
next
  case (Cons tx txs)
  have g: "goodBlock (nEnv ce) A h [tx]" "goodBlock (nEnv ce) A h txs" using Cons.prems(1) by (auto simp: goodBlock_def)
  obtain r bc1 where r: "RouteTransaction ce vs h tx bc = (r, bc1)" "bc1 = bc\<lparr>bcStore := bcStore bc1, bcGp := bcGp bc1\<rparr>"
      "\<And>x. r = Ok x \<Longrightarrow> x = (None, 0) \<or> (\<exists>rc g L'. x = (Some rc, g) \<and> rGasUsed rc = g \<and> rLogs rc = [] \<and>
        ledgerRep (nEnv ce) A (bcStore bc1) L' \<and> blockStep A tx g L bc L' bc1)"
    using RouteTransaction_outcome [OF vs g(1) Cons.prems(2,3)] by blast
  obtain rc gas bc2 where x: "r = Ok (rc, gas)" "storeReceipt i rc (snd (addGas gas tx bc1)) = (Ok (), bc2)"
      "executeTxs ce vs h (i + 1) txs bc2 = (Ok (), bc')"
    using Cons.prems(4) r(1) by (auto simp: bindA_Ok_iff addGas_def)
  have rc: "rc \<noteq> None" using x(2) by (auto simp: storeReceipt_def split: if_splits option.splits)
  then obtain L1 where L1: "ledgerRep (nEnv ce) A (bcStore bc1) L1" "blockStep A tx gas L bc L1 bc1"
    using r(3) [OF x(1)] by auto
  have bc2: "bcStore bc2 = bcStore bc1" "bcGp bc2 = bcGp bc1" "bcGasUsed bc2 = bcGasUsed bc + uint gas"
      "bcGasFee bc2 = bcGasFee bc + uint gas * txGasPrice tx"
    using x(2) arg_cong [OF r(2), of bcGasUsed] arg_cong [OF r(2), of bcGasFee]
    by (auto simp: storeReceipt_def addGas_def split: if_splits option.splits)
  obtain L2 where L2: "ledgerRep (nEnv ce) A (bcStore bc') L2" "blockAdvance A txs L1 bc2 L2 bc'"
    using Cons.IH [OF g(2) _ _ x(3)] L1 bc2(1) by (auto simp: blockStep_def)
  have "uint (bcGp bc1) = uint (bcGp bc) - uint gas" using L1(2) by (simp add: blockStep_def uint_minus_simple_alt)
  then have "blockAdvance A (tx # txs) L bc L2 bc'"
    using L1(2) L2(2) bc2 by (auto simp: blockAdvance_def blockStep_def)
  then show ?case using L2(1) by blast
qed

end
