(* ===== verification/SampleLedger.thy ===== *)
theory SampleLedger
  imports BlockSem "HOL-Library.Countable"
begin

section \<open>A sample environment and ledger\<close>

text \<open>
  The codec, the hash and the database are parameters of the store, and the properties of the
  ledger assume \<open>envOK\<close> of them. Here they are given concrete functions that satisfy it: a codec
  that numbers the values of each stored type, and a digest that separates the keys of the
  three sample addresses. A store with two funded accounts represents the sample ledger.
\<close>

subsection \<open>A codec\<close>

abbreviation nats :: "bytes \<Rightarrow> nat list" where "nats \<equiv> map unat"
abbreviation bytesOf :: "nat list \<Rightarrow> bytes" where "bytesOf \<equiv> map of_nat"

lemma bytesOf_nats [simp]: "bytesOf (nats b) = b"
  by (induction b) simp_all

type_synonym storageCode = "int \<times> int \<times> nat \<times> nat list \<times> nat list \<times> nat list \<times> (nat list \<times> int) list"

definition storageCode :: "Storage \<Rightarrow> storageCode" where
  "storageCode x = (sBalance x, sReputation x, unat (sNonce x), nats (sByteCode x), nats (sCodeHash x),
     nats (sAlias x), map (map_prod nats id) (sBalanceMap x))"

fun codeStorage :: "storageCode \<Rightarrow> Storage" where
  "codeStorage (b, r, n, c, h, a, m) = \<lparr>sBalance = b, sReputation = r, sNonce = of_nat n, sByteCode = bytesOf c,
     sCodeHash = bytesOf h, sAlias = bytesOf a, sBalanceMap = map (map_prod bytesOf id) m\<rparr>"

lemma map_prod_bytes: "map (map_prod bytesOf id) (map (map_prod nats id) m) = m"
  by (induction m) (auto simp: o_def)

lemma codeStorage_storageCode: "codeStorage (storageCode x) = x"
  unfolding storageCode_def codeStorage.simps map_prod_bytes by (simp add: o_def)

type_synonym stakeCode = "(nat list \<times> (nat \<times> int) list) list \<times> (nat \<times> int list) list \<times> nat list"

definition heightCode :: "HeightValue \<Rightarrow> nat \<times> int" where
  "heightCode x = (unat (CreditHeight x), CreditValue x)"
definition codeHeight :: "nat \<times> int \<Rightarrow> HeightValue" where
  "codeHeight x = \<lparr>CreditHeight = of_nat (fst x), CreditValue = snd x\<rparr>"
definition creditCode :: "ReceivedCredit \<Rightarrow> nat list \<times> (nat \<times> int) list" where
  "creditCode x = (nats (rcAddr x), map heightCode (HeightValues x))"
definition codeCredit :: "nat list \<times> (nat \<times> int) list \<Rightarrow> ReceivedCredit" where
  "codeCredit x = \<lparr>rcAddr = bytesOf (fst x), HeightValues = map codeHeight (snd x)\<rparr>"
definition cancelCode :: "CancelCredit \<Rightarrow> nat \<times> int list" where
  "cancelCode x = (unat (CancelCreditHeight x), CancelCreditValue x)"
definition codeCancel :: "nat \<times> int list \<Rightarrow> CancelCredit" where
  "codeCancel x = \<lparr>CancelCreditHeight = of_nat (fst x), CancelCreditValue = snd x\<rparr>"

definition stakeCode :: "StakeStorage \<Rightarrow> stakeCode" where
  "stakeCode x = (map creditCode (RC x), map cancelCode (CC x), nats (CandidateBytes x))"
definition codeStake :: "stakeCode \<Rightarrow> StakeStorage" where
  "codeStake x = \<lparr>RC = map codeCredit (fst x), CC = map codeCancel (fst (snd x)), CandidateBytes = bytesOf (snd (snd x))\<rparr>"

lemma codeHeight_heightCode [simp]: "codeHeight (heightCode x) = x"
  by (simp add: codeHeight_def heightCode_def)

lemma codeCredit_creditCode [simp]: "codeCredit (creditCode x) = x"
  by (simp add: codeCredit_def creditCode_def o_def)

lemma codeCancel_cancelCode [simp]: "codeCancel (cancelCode x) = x"
  by (simp add: codeCancel_def cancelCode_def)

lemma codeStake_stakeCode: "codeStake (stakeCode x) = x"
  by (simp add: codeStake_def stakeCode_def o_def)

definition encWith :: "('a \<Rightarrow> 'b::countable) \<Rightarrow> 'a \<Rightarrow> bytes option" where
  "encWith f x = Some (natBytes (to_nat (f x)))"
definition decWith :: "('b::countable \<Rightarrow> 'a) \<Rightarrow> bytes \<Rightarrow> 'a option" where
  "decWith g b = Some (g (from_nat (beNat b)))"

lemma decWith_encWith: "(\<And>x. g (f x) = x) \<Longrightarrow> \<exists>b. encWith f x = Some b \<and> decWith g b = Some x"
  by (simp add: encWith_def decWith_def)

subsection \<open>A digest and three addresses\<close>

text \<open>The digest keeps the length and the last byte of its input.\<close>

definition sampleKeccak :: "bytes \<Rightarrow> bytes" where
  "sampleKeccak x = of_nat (length x) # (if x = [] then 0 else last x) # replicate 30 0"

definition alice :: address where "alice = replicate 20 1"
definition bob :: address where "bob = replicate 20 2"

definition sampleAddrs :: "address set" where "sampleAddrs = {HoleAddress, alice, bob}"

definition sampleEnv :: Env where
  "sampleEnv = \<lparr>crypto = \<lparr>keccak = sampleKeccak, rlp = \<lambda>_. [], diskNode = \<lambda>_. Ok None\<rparr>,
     encStorage = encWith storageCode, decStorage = decWith codeStorage,
     encStake = encWith stakeCode, decStake = decWith codeStake,
     encAddrs = encWith (map nats), decAddrs = decWith (map bytesOf),
     candUnmarshal = \<lambda>_. None, candMarshal = \<lambda>_. None\<rparr>"

lemma sampleKeys:
  "acctKey sampleEnv HoleAddress = 56 # 48 # replicate 30 0"
  "acctKey sampleEnv alice = 56 # 49 # replicate 30 0"
  "acctKey sampleEnv bob = 56 # 50 # replicate 30 0"
  "stakeKey sampleEnv HoleAddress = 54 # 48 # replicate 30 0"
  "stakeKey sampleEnv alice = 54 # 49 # replicate 30 0"
  "stakeKey sampleEnv bob = 54 # 50 # replicate 30 0"
  unfolding acctKey_def stakeKey_def sampleEnv_def Env.simps Crypto.simps by code_simp+

lemma sampleAddrs_distinct [simp]: "alice \<noteq> bob" "bob \<noteq> alice" "alice \<noteq> HoleAddress" "HoleAddress \<noteq> alice"
    "bob \<noteq> HoleAddress" "HoleAddress \<noteq> bob"
  by (simp_all add: alice_def bob_def HoleAddress_def AddressLength_def)

lemma sampleEnvOK: "envOK sampleEnv sampleAddrs"
proof -
  have "\<exists>b. encStorage sampleEnv x = Some b \<and> decStorage sampleEnv b = Some x" for x
    unfolding sampleEnv_def Env.simps by (rule decWith_encWith) (rule codeStorage_storageCode)
  moreover have "\<exists>b. encStake sampleEnv x = Some b \<and> decStake sampleEnv b = Some x" for x
    unfolding sampleEnv_def Env.simps by (rule decWith_encWith) (rule codeStake_stakeCode)
  moreover have "\<exists>b. encAddrs sampleEnv x = Some b \<and> decAddrs sampleEnv b = Some x" for x
    unfolding sampleEnv_def Env.simps by (rule decWith_encWith) (simp add: o_def)
  moreover have "length (keccak (crypto sampleEnv) x) = HashLength" for x
    by (simp add: sampleEnv_def sampleKeccak_def HashLength_def)
  moreover have l: "\<forall>a\<in>sampleAddrs. length a = AddressLength"
    by (simp add: sampleAddrs_def alice_def bob_def HoleAddress_def AddressLength_def)
  ultimately show ?thesis
    by (simp add: envOK_def) (simp add: sampleAddrs_def sampleKeys)
qed

subsection \<open>A ledger\<close>

text \<open>Alice holds 1000 coins and has staked 500 units with Bob.\<close>

definition aliceStorage :: Storage where
  "aliceStorage = emptyStorage\<lparr>sBalance := 1000 * Coin\<rparr>"

definition bobStake :: StakeStorage where
  "bobStake = emptyStake\<lparr>RC := [\<lparr>rcAddr = alice, HeightValues = [\<lparr>CreditHeight = 1, CreditValue = 500\<rparr>]\<rparr>]\<rparr>"

definition sampleLedger :: Ledger where
  "sampleLedger = \<lparr>lAcct = [alice \<mapsto> aliceStorage], lStake = [bob \<mapsto> bobStake], lCands = [],
     lAlias = Map.empty, lInterval = 100\<rparr>"

definition sampleStore :: StoreDB where
  "sampleStore = \<lparr>sStore = [ChangeInterval \<mapsto> [0, 0, 0, 0, 0, 0, 0, 1]],
     sCache = Some [acctKey sampleEnv alice \<mapsto> DBytes (encStorage sampleEnv aliceStorage),
       stakeKey sampleEnv bob \<mapsto> DBytes (encStake sampleEnv bobStake)],
     sTrie = Some (NilNode, []), sTrieDb = NewDatabase\<rparr>"

lemma sampleStoreRep: "ledgerRep sampleEnv sampleAddrs sampleStore sampleLedger"
proof -
  let ?d = "[acctKey sampleEnv alice \<mapsto> DBytes (encStorage sampleEnv aliceStorage),
       stakeKey sampleEnv bob \<mapsto> DBytes (encStake sampleEnv bobStake)]"
  let ?v = "cacheView (crypto sampleEnv) ?d Map.empty"
  obtain a where a: "encStorage sampleEnv aliceStorage = Some a" "decStorage sampleEnv a = Some aliceStorage"
    using sampleEnvOK unfolding envOK_def by blast
  obtain b where b: "encStake sampleEnv bobStake = Some b" "decStake sampleEnv b = Some bobStake"
    using sampleEnvOK unfolding envOK_def by blast
  have v: "?v k = (if k = stakeKey sampleEnv bob then Some b else if k = acctKey sampleEnv alice then Some a else None)" for k
    by (simp add: cacheView_def a(1) b(1) sampleKeys)
  have keys: "AliasPrefix @ al \<noteq> acctKey sampleEnv alice" "AliasPrefix @ al \<noteq> stakeKey sampleEnv bob"
      "CandidateAddrs \<noteq> acctKey sampleEnv alice" "CandidateAddrs \<noteq> stakeKey sampleEnv bob" for al
    by (simp_all add: sampleKeys AliasPrefix_def CandidateAddrs_def ascii_def)
  have "ledgerCells sampleEnv sampleAddrs ?v sampleLedger"
    unfolding ledgerCells_def v using a(2) b(2) keys
    by (simp add: sampleLedger_def sampleAddrs_def cell_def sampleKeys)
  moreover have "dbrep (crypto sampleEnv) (sStore sampleStore) sampleStore ?v"
    unfolding dbrep_def
    by (intro conjI exI [of _ ?d] exI [of _ "\<lparr>stRoot = NilNode, stDb = NewDatabase, stSecKeys = []\<rparr>"] exI [of _ Map.empty])
      (simp_all add: sampleStore_def secureTrie_def trieMap_def trieOf_def trep.empty)
  moreover have "lInterval sampleLedger = bigEndian64 [0, 0, 0, 0, 0, 0, 0, 1] * 100"
    by (simp add: sampleLedger_def) code_simp
  moreover have "sStore sampleStore ChangeInterval = Some [0, 0, 0, 0, 0, 0, 0, 1]" by (simp add: sampleStore_def)
  ultimately show ?thesis unfolding ledgerRep_def by fastforce
qed

lemma sampleLedgerInv: "ledgerInv sampleAddrs sampleLedger"
  by (simp add: ledgerInv_def sampleLedger_def sampleAddrs_def stake_def bobStake_def emptyStake_def bookOK_def)

end
