(* ===== verification/LedgerProps.thy ===== *)
theory LedgerProps
  imports SampleLedger
begin

section \<open>Properties of execution\<close>

text \<open>
  What a node may rely on when it executes transactions and blocks: transfers move exactly
  their amount and the gas fee, blocks lose exactly the gas fees, the validators may be tried
  in any order, and the errors of the executor.
\<close>

subsection \<open>Transfers\<close>

lemma acct_paid: "acct (paid L a h x) b = (if b = a then (acct L a)\<lparr>sBalance := available L a h + x\<rparr> else acct L b)"
  by (simp add: paid_def)

lemma available_paid [simp]: "available (paid L a h x) b h = available L b h + (if b = a then x else 0)"
  by (simp add: available_def acct_paid) (simp add: paid_def available_def)

lemma available_withNonce [simp]: "available (withNonce L a n) b h = available L b h"
  by (simp add: available_def)

text \<open>
  \<open>chargeable\<close>: the conditions under which a transaction passes the checks before its
  processor runs, with the intrinsic gas \<open>ig\<close>.
\<close>

definition chargeable :: "Ledger \<Rightarrow> u64 \<Rightarrow> u64 \<Rightarrow> Transaction \<Rightarrow> address \<Rightarrow> u64 \<Rightarrow> bool" where
  "chargeable L gp h tx from ig \<longleftrightarrow> txFrom tx = Some from \<and> sNonce (acct L from) = txNonce tx \<and> txGas tx \<le> gp \<and>
     uint (txGas tx) * txGasPrice tx \<le> available L from h \<and> IntrinsicGas tx = Some ig \<and> ig \<le> txGas tx"

abbreviation txCtx :: "ChainEnv \<Rightarrow> address \<Rightarrow> Transaction \<Rightarrow> u64 \<Rightarrow> TxCtx" where
  "txCtx ce from tx h \<equiv> \<lparr>cEnv = nEnv ce, cFrom = from, cTx = tx, cHeight = h\<rparr>"

abbreviation freshView :: "Ledger \<Rightarrow> u64 \<Rightarrow> TxView" where
  "freshView L gp \<equiv> \<lparr>vLedger = L, vGp = gp, vRem = 0, vInit = 0\<rparr>"

definition chargedView :: "Ledger \<Rightarrow> u64 \<Rightarrow> u64 \<Rightarrow> Transaction \<Rightarrow> address \<Rightarrow> u64 \<Rightarrow> TxView" where
  "chargedView L gp h tx from ig = \<lparr>vLedger = paid L from h (- (uint (txGas tx) * txGasPrice tx)), vGp = gp - txGas tx,
     vRem = txGas tx - ig, vInit = txGas tx\<rparr>"

lemma goodBlock_ctx: "\<lbrakk>goodBlock (nEnv ce) A h [tx]; txFrom tx = Some a\<rbrakk> \<Longrightarrow> goodCtx A (txCtx ce a tx h)"
  by (simp add: goodBlock_def goodTx_def goodCtx_def)

lemma charge_runs:
  assumes "goodCtx A (txCtx ce a tx h)" "chargeable L gp h tx a ig"
  shows "runsTo (txRep (nEnv ce) A) (chargeTx (txCtx ce a tx h)) (freshView L gp) (Ok ()) (chargedView L gp h tx a ig)"
proof -
  let ?c = "txCtx ce a tx h" and ?v = "freshView L gp"
  have e: "(charged ?c ?v)\<lparr>vRem := txGas (cTx ?c) - ig\<rparr> = chargedView L gp h tx a ig"
    by (simp add: chargedView_def charged_def)
  have "runsTo (txRep (cEnv ?c) A) (chargeTx ?c) ?v (Ok ()) ((charged ?c ?v)\<lparr>vRem := txGas (cTx ?c) - ig\<rparr>)"
    by (rule chargeTx_ok [OF assms(1)]) (use assms(2) in \<open>simp_all add: chargeable_def\<close>)
  then show ?thesis unfolding e by simp
qed

lemma selectTransfer:
  assumes "set vs = set chainValidators" "txType tx = TransferType"
  shows "selectTx vs tx = Some transferExec"
  unfolding selectTx_order [OF assms(1)] using assms(2) by (simp add: selectTx_def chainValidators_def)

text \<open>A run of the router is a run of \<^verbatim>\<open>RouteTransaction\<close>.\<close>

lemma RouteTransaction_runs:
  assumes "txFrom tx = Some a" "ledgerRep (nEnv ce) A (bcStore bc) L"
    "runsTo (txRep (nEnv ce) A) (routeTx vs (txCtx ce a tx h)) (freshView L (bcGp bc)) r v'"
  shows "\<exists>st. RouteTransaction ce vs h tx bc = (r, bc\<lparr>bcStore := st, bcGp := vGp v'\<rparr>) \<and> ledgerRep (nEnv ce) A st (vLedger v')"
proof -
  let ?s = "\<lparr>tStore = bcStore bc, tGp = bcGp bc, tGasRemained = 0, tInitialGas = 0\<rparr>"
  have "txRep (nEnv ce) A ?s (freshView L (bcGp bc))" using assms(2) by (simp add: txRep_def)
  then obtain s' where "routeTx vs (txCtx ce a tx h) ?s = (r, s')" "txRep (nEnv ce) A s' v'"
    using runsTo_det [OF assms(3)] by blast
  then show ?thesis using assms(1) by (auto simp: RouteTransaction_def onTx_def txRep_def)
qed

definition transferred :: "Ledger \<Rightarrow> u64 \<Rightarrow> Transaction \<Rightarrow> address \<Rightarrow> u64 \<Rightarrow> Ledger" where
  "transferred L h tx from ig =
     (let L1 = paid L from h (- (uint (txGas tx) * txGasPrice tx));
          L2 = paid (paid L1 from h (- txAmount tx)) (txTo tx) h (txAmount tx)
      in paid (withNonce L2 from (txNonce tx + 1)) from h (uint (txGas tx - ig) * txGasPrice tx))"

lemma transfer_runs:
  assumes g: "goodCtx A (txCtx ce a tx h)" and c: "chargeable L gp h tx a ig"
    and sel: "selectTx vs tx = Some transferExec"
    and amt: "txAmount tx \<le> available L a h - uint (txGas tx) * txGasPrice tx"
  shows "\<exists>rc. runsTo (txRep (nEnv ce) A) (routeTx vs (txCtx ce a tx h)) (freshView L gp) (Ok (Some rc, ig))
     \<lparr>vLedger = transferred L h tx a ig, vGp = gp - ig, vRem = txGas tx - ig, vInit = txGas tx\<rparr>"
proof -
  let ?c = "txCtx ce a tx h" and ?rep = "txRep (nEnv ce) A"
  have d: "envOK (cEnv ?c) A" "cFrom ?c \<in> A" "cHeight ?c \<noteq> 0" "txTo tx \<in> A" using g by (simp_all add: goodCtx_def)
  let ?v1 = "chargedView L gp h tx a ig"
  let ?v2 = "?v1\<lparr>vLedger := paid (vLedger ?v1) a h (- txAmount tx)\<rparr>"
  let ?v3 = "?v2\<lparr>vLedger := paid (vLedger ?v2) (txTo tx) h (txAmount tx)\<rparr>"
  let ?v4 = "?v3\<lparr>vLedger := withNonce (vLedger ?v3) a (txNonce tx + 1)\<rparr>"
  have p: "runsTo ?rep (payFrom ?c (txAmount tx)) ?v1 (Ok ()) ?v2"
    using payFrom_runs [OF d(2,1,3), of "txAmount tx" ?v1] amt by (simp add: chargedView_def)
  have q: "runsTo ?rep (payTo ?c (txTo tx) (txAmount tx)) ?v2 (Ok ()) ?v3"
    using payTo_runs [OF d(4,1,3), of "txAmount tx" ?v2] by simp
  have n: "runsTo ?rep (finishTx ?c) ?v3 (Ok emptyResult) ?v4" using finishTx_runs [OF d(1,2), of ?v3] by simp
  have x: "runsTo ?rep (transferExec ?c) ?v1 (Ok emptyResult) ?v4"
    unfolding transferExec_def TxCtx.simps by (rule runsTo_bind [OF p], rule runsTo_bind [OF q], rule n)
  have le: "txGas tx \<le> gp" "ig \<le> txGas tx" using c by (simp_all add: chargeable_def)
  have arith: "vGp ?v4 \<le> - 1 - vRem ?v4" "gp - txGas tx + (txGas tx - ig) = gp - ig"
    using gas_arith(1) [OF le order_refl] by (simp_all add: chargedView_def)
  have used: "vInit ?v4 - vRem ?v4 = ig" by (simp add: chargedView_def)
  obtain rc where rc: "runsTo ?rep (settleTx ?c emptyResult ZeroAddress) ?v4 (Ok (Some rc, ig)) (refunded ?c ?v4)"
    using settleTx_runs [OF g arith(1), of emptyResult ZeroAddress] unfolding used TxCtx.simps by blast
  have v: "refunded ?c ?v4 = \<lparr>vLedger = transferred L h tx a ig, vGp = gp - ig, vRem = txGas tx - ig, vInit = txGas tx\<rparr>"
    using arith(2) by (simp add: refunded_def transferred_def chargedView_def)
  have z: "ContractAddr emptyResult = ZeroAddress" by (simp add: emptyResult_def)
  have s: "selectTx vs (cTx ?c) = Some transferExec" using sel by simp
  have "runsTo ?rep (routeTx vs ?c) (freshView L gp) (Ok (Some rc, ig)) (refunded ?c ?v4)"
    unfolding routeTx_def s option.case
    by (rule runsTo_bind [OF charge_runs [OF g c]], rule runsTo_bind [OF runsTo_try_Ok [OF x]]) (use rc in \<open>simp add: z\<close>)
  then show ?thesis unfolding v by blast
qed

lemma overdrawn_runs:
  assumes g: "goodCtx A (txCtx ce a tx h)" and c: "chargeable L gp h tx a ig"
    and sel: "selectTx vs tx = Some transferExec"
    and amt: "txAmount tx > available L a h - uint (txGas tx) * txGasPrice tx"
  shows "runsTo (txRep (nEnv ce) A) (routeTx vs (txCtx ce a tx h)) (freshView L gp) (Ok (None, 0)) (chargedView L gp h tx a ig)"
proof -
  let ?c = "txCtx ce a tx h" and ?rep = "txRep (nEnv ce) A" and ?v1 = "chargedView L gp h tx a ig"
  have d: "envOK (cEnv ?c) A" "cFrom ?c \<in> A" "cHeight ?c \<noteq> 0" using g by (simp_all add: goodCtx_def)
  have "runsTo ?rep (payFrom ?c (txAmount tx)) ?v1 (Err ErrBalance) ?v1"
    using payFrom_runs [OF d(2,1,3), of "txAmount tx" ?v1] amt by (simp add: chargedView_def)
  then have x: "runsTo ?rep (transferExec ?c) ?v1 (Err ErrBalance) ?v1"
    unfolding transferExec_def TxCtx.simps by (rule runsTo_bind_Err)
  have s: "selectTx vs (cTx ?c) = Some transferExec" using sel by simp
  show ?thesis unfolding routeTx_def s option.case
    by (rule runsTo_bind [OF charge_runs [OF g c]], rule runsTo_bind [OF runsTo_try_Err [OF x]]) (simp add: runsTo_return)
qed

text \<open>
  C6. A transfer that passes the checks and is covered by the sender's balance succeeds with
  exactly its intrinsic gas: the sender loses the amount and the gas fee, the receiver gains
  the amount, each with its due cancelled credits paid in, no other account changes, the
  sender's nonce goes up by one and the block's gas pool goes down by the gas.
\<close>

theorem transfer_settles:
  assumes "set vs = set chainValidators" "goodBlock (nEnv ce) A h [tx]" "ledgerRep (nEnv ce) A (bcStore bc) L"
    "chargeable L (bcGp bc) h tx from ig" "txType tx = TransferType" "txTo tx \<noteq> from"
    "txAmount tx \<le> available L from h - uint (txGas tx) * txGasPrice tx"
  shows "\<exists>rc bc' L'. RouteTransaction ce vs h tx bc = (Ok (Some rc, ig), bc') \<and> ledgerRep (nEnv ce) A (bcStore bc') L' \<and>
     sBalance (acct L' from) = available L from h - txAmount tx - uint ig * txGasPrice tx \<and>
     sBalance (acct L' (txTo tx)) = available L (txTo tx) h + txAmount tx \<and>
     sNonce (acct L' from) = txNonce tx + 1 \<and> (\<forall>b. b \<noteq> from \<longrightarrow> b \<noteq> txTo tx \<longrightarrow> acct L' b = acct L b) \<and>
     bcGp bc' = bcGp bc - ig"
proof -
  have a: "txFrom tx = Some from" "ig \<le> txGas tx" using assms(4) by (simp_all add: chargeable_def)
  obtain rc where rc: "runsTo (txRep (nEnv ce) A) (routeTx vs (txCtx ce from tx h)) (freshView L (bcGp bc)) (Ok (Some rc, ig))
     \<lparr>vLedger = transferred L h tx from ig, vGp = bcGp bc - ig, vRem = txGas tx - ig, vInit = txGas tx\<rparr>"
    using transfer_runs [OF goodBlock_ctx [OF assms(2) a(1)] assms(4) selectTransfer [OF assms(1,5)] assms(7)] by blast
  obtain st where st: "RouteTransaction ce vs h tx bc = (Ok (Some rc, ig), bc\<lparr>bcStore := st, bcGp := bcGp bc - ig\<rparr>)"
      "ledgerRep (nEnv ce) A st (transferred L h tx from ig)"
    using RouteTransaction_runs [OF a(1) assms(3) rc] by auto
  have u: "uint (txGas tx - ig) = uint (txGas tx) - uint ig" using a(2) by (simp add: uint_minus_simple_alt)
  have "sBalance (acct (transferred L h tx from ig) from) = available L from h - txAmount tx - uint ig * txGasPrice tx"
      "sBalance (acct (transferred L h tx from ig) (txTo tx)) = available L (txTo tx) h + txAmount tx"
      "sNonce (acct (transferred L h tx from ig) from) = txNonce tx + 1"
      "\<forall>b. b \<noteq> from \<longrightarrow> b \<noteq> txTo tx \<longrightarrow> acct (transferred L h tx from ig) b = acct L b"
    using assms(6) by (simp_all add: transferred_def acct_paid u left_diff_distrib)
  with st show ?thesis
    by (intro exI [of _ rc] exI [of _ "bc\<lparr>bcStore := st, bcGp := bcGp bc - ig\<rparr>"] exI [of _ "transferred L h tx from ig"]) simp
qed

subsection \<open>A sample block\<close>

text \<open>Alice sends Bob seven units, and then more than there is.\<close>

definition sampleTx :: "int \<Rightarrow> Transaction" where
  "sampleTx x = \<lparr>txNonce = 0, txType = TransferType, txTo = bob, txChainId = 0, txAmount = x, txGasPrice = 2,
     txGasLimit = 60000, txTimestamp = 0, txData = [], txHash = ZeroHash, txFrom = Some alice, txPersistent = []\<rparr>"

definition sampleCE :: ChainEnv where
  "sampleCE = \<lparr>nEnv = sampleEnv, sha256 = \<lambda>_. ZeroHash, headerHash = \<lambda>_. ZeroHash, encReceipt = \<lambda>_. Some [],
     encReceipts = \<lambda>_. Some [], decReceipt = \<lambda>_. None, decReceipts = \<lambda>_. None\<rparr>"

definition sampleBc :: BlockExecuteContext where
  "sampleBc = NewBlockExecuteContext sampleStore 1000000 Map.empty"

definition sampleHeader :: BlockHeader where
  "sampleHeader = \<lparr>hChainId = 0, hVersion = 1, hPreviousHash = ZeroHash, hGasLimit = 1000000, hGasUsed = 21000, hHeight = 7,
     hTimestamp = 9, hStateRoot = [], hTxRoot = [], hReceiptRoot = ZeroHash, hMinerAddr = bob, hBloom = []\<rparr>"

definition sampleBlock :: "int \<Rightarrow> Block" where
  "sampleBlock x = \<lparr>bHeader = sampleHeader, bTxCount = 1, bTxList = [sampleTx x], bProofType = 0, bEvidence = []\<rparr>"

lemma sampleCE_env [simp]: "nEnv sampleCE = sampleEnv"
  by (simp add: sampleCE_def)

lemma sampleGood: "x \<ge> 0 \<Longrightarrow> goodBlock (nEnv sampleCE) sampleAddrs 7 [sampleTx x]"
  using sampleEnvOK by (simp add: goodBlock_def goodTx_def sampleTx_def) (simp add: sampleAddrs_def)

lemma sampleRep: "ledgerRep (nEnv sampleCE) sampleAddrs (bcStore sampleBc) sampleLedger"
  using sampleStoreRep by (simp add: sampleBc_def NewBlockExecuteContext_def)

lemma sampleAvailable: "available sampleLedger alice 7 = 1000 * Coin" "available sampleLedger bob 7 = 0"
  by (simp_all add: available_def due_def acct_def stake_def sampleLedger_def aliceStorage_def emptyStorage_def emptyStake_def
    bobStake_def cancelTotal_def)

lemma sampleTxGas: "txGas (sampleTx x) = 60000" "IntrinsicGas (sampleTx x) = Some 21000"
  by (simp_all add: sampleTx_def txGas_def bigUint64_def IntrinsicGas_def TxGas_def TxType_defs)

lemma sampleTx_simps [simp]:
  "txType (sampleTx x) = TransferType" "txTo (sampleTx x) = bob" "txAmount (sampleTx x) = x" "txGasPrice (sampleTx x) = 2"
  "txFrom (sampleTx x) = Some alice" "txNonce (sampleTx x) = 0"
  by (simp_all add: sampleTx_def)

lemma sampleChargeable: "chargeable sampleLedger (bcGp sampleBc) 7 (sampleTx x) alice 21000"
  by (simp add: chargeable_def sampleTxGas sampleAvailable Coin_def sampleBc_def NewBlockExecuteContext_def)
    (simp add: sampleLedger_def acct_def aliceStorage_def emptyStorage_def)

theorem transfer_settles_witness:
  "\<exists>rc bc' L'. RouteTransaction sampleCE chainValidators 7 (sampleTx 7) sampleBc = (Ok (Some rc, 21000), bc') \<and>
     ledgerRep sampleEnv sampleAddrs (bcStore bc') L' \<and> sBalance (acct L' alice) = 1000 * Coin - 42007 \<and>
     sBalance (acct L' bob) = 7 \<and> bcGp bc' = 979000"
proof -
  have g: "goodBlock (nEnv sampleCE) sampleAddrs 7 [sampleTx 7]" by (rule sampleGood) simp
  have "7 \<le> available sampleLedger alice 7 - uint (txGas (sampleTx 7)) * 2"
    by (simp add: sampleTxGas sampleAvailable Coin_def)
  moreover have "bcGp sampleBc - 21000 = 979000" by (simp add: sampleBc_def NewBlockExecuteContext_def)
  ultimately obtain rc bc' L' where "RouteTransaction sampleCE chainValidators 7 (sampleTx 7) sampleBc = (Ok (Some rc, 21000), bc')"
      "ledgerRep sampleEnv sampleAddrs (bcStore bc') L'" "sBalance (acct L' alice) = 1000 * Coin - 7 - 42000"
      "sBalance (acct L' bob) = 7" "bcGp bc' = 979000"
    using transfer_settles [OF refl g sampleRep sampleChargeable] by (auto simp: sampleAvailable)
  then show ?thesis by (intro exI [of _ rc] exI [of _ bc'] exI [of _ L']) simp
qed

subsection \<open>Blocks\<close>

lemma putAll_frame: "putAll ce bh ps rs bc = (r, bc') \<Longrightarrow> \<exists>db. bc' = bc\<lparr>bcDb := db\<rparr>"
proof (induction ce bh ps rs arbitrary: bc bc' r rule: putAll.induct)
  case (1 ce bh ps)
  then show ?case by (intro exI [of _ "bcDb bc"]) (simp add: returnA_def)
next
  case (2 ce bh ps rs)
  then show ?case by (intro exI [of _ "bcDb bc"]) (simp add: panicA_def)
next
  case (3 ce bh ps x rs)
  let ?x = "x\<lparr>rBlockHash := bh, rPostState := ps\<rparr>"
  show ?case
  proof (cases "encReceipt ce (Some ?x)")
    case None
    then show ?thesis using 3(2) by (intro exI [of _ "bcDb bc"]) (simp add: bindA_def PutReceipt_def Let_def)
  next
    case (Some b)
    let ?bc = "bc\<lparr>bcDb := (bcDb bc)(receiptKey (hashFn ce) (rTxHash ?x) \<mapsto> b)\<rparr>"
    obtain r1 bc1 where 1: "putAll ce bh ps rs ?bc = (r1, bc1)" by fastforce
    then have "bc' = bc1" using 3(2) Some by (cases r1) (auto simp: bindA_def PutReceipt_def returnA_def Let_def)
    then show ?thesis using 3(1) [OF refl 1] by auto
  qed
qed

lemma ExecuteBlock_stages:
  assumes "ExecuteBlock ce vs block bc = (Ok (), bc')"
  obtains bc1 where "executeTxs ce vs (hHeight (bHeader block)) 0 (bTxList block)
      (bc\<lparr>bcReceipts := replicate (unat (bTxCount block)) None, bcLogs := []\<rparr>) = (Ok (), bc1)"
    "bcStore bc' = bcStore bc1" "bcGp bc' = bcGp bc1" "bcGasUsed bc' = bcGasUsed bc1" "bcGasFee bc' = bcGasFee bc1"
proof -
  let ?bc0 = "bc\<lparr>bcReceipts := replicate (unat (bTxCount block)) None, bcLogs := []\<rparr>"
  obtain bc1 where 1: "executeTxs ce vs (hHeight (bHeader block)) 0 (bTxList block) ?bc0 = (Ok (), bc1)"
      "(case DeriveReceiptRoot ce (bcReceipts bc1) of None \<Rightarrow> panicA
        | Some newReceiptRoot \<Rightarrow> if newReceiptRoot \<noteq> hReceiptRoot (bHeader block) then raiseA ErrReceiptRoot
           else bindA (putAll ce (headerHash ce (bHeader block)) newReceiptRoot (bcReceipts bc1)) (\<lambda>rs.
             bindA (\<lambda>bc. (Ok (), bc\<lparr>bcReceipts := map Some rs\<rparr>)) (\<lambda>_.
               PutReceipts ce (headerHash ce (bHeader block)) rs))) bc1 = (Ok (), bc')"
    using assms by (auto simp: ExecuteBlock_def bindA_Ok_iff makeReceipts_def split: if_splits)
  then obtain root rs bc2 where 2: "putAll ce (headerHash ce (bHeader block)) root (bcReceipts bc1) bc1 = (Ok rs, bc2)"
      "PutReceipts ce (headerHash ce (bHeader block)) rs (bc2\<lparr>bcReceipts := map Some rs\<rparr>) = (Ok (), bc')"
    by (auto simp: bindA_Ok_iff panicA_def raiseA_def split: option.splits if_splits)
  obtain db where "bc2 = bc1\<lparr>bcDb := db\<rparr>" using putAll_frame [OF 2(1)] by blast
  then show thesis using that [OF 1(1)] 2(2) by (auto simp: PutReceipts_def split: option.splits)
qed

text \<open>
  C2. Executing a block without contract transactions conserves value, on a node with the six
  processors of the chain and the virtual machine. When \<^verbatim>\<open>ExecuteBlock\<close> returns without an error the accounts
  have lost exactly the gas fees of the block, counted over balances, received credits and
  cancelled credits; the books of credits are well formed again; the gas used has been taken
  from the gas pool without wrap-around; and every nonce has gone up by the number of
  transactions its account sent.
\<close>

theorem ExecuteBlock_conserves:
  assumes "set vs = nodeValidators evm" "\<forall>tx\<in>set (bTxList block). \<not> selectEvm tx"
    "goodBlock (nEnv ce) A (hHeight (bHeader block)) (bTxList block)"
    "ledgerRep (nEnv ce) A (bcStore bc) L" "ledgerInv A L" "ExecuteBlock ce vs block bc = (Ok (), bc')"
  shows "\<exists>L'. ledgerRep (nEnv ce) A (bcStore bc') L' \<and> ledgerInv A L' \<and>
     wealth A L' = wealth A L - (bcGasFee bc' - bcGasFee bc) \<and>
     uint (bcGp bc') = uint (bcGp bc) - (bcGasUsed bc' - bcGasUsed bc) \<and>
     (\<forall>b. sNonce (acct L' b) = sNonce (acct L b) + of_nat (count_list (map txFrom (bTxList block)) (Some b)))"
proof -
  obtain bc1 where 1: "executeTxs ce chainValidators (hHeight (bHeader block)) 0 (bTxList block)
      (bc\<lparr>bcReceipts := replicate (unat (bTxCount block)) None, bcLogs := []\<rparr>) = (Ok (), bc1)"
    "bcStore bc' = bcStore bc1" "bcGp bc' = bcGp bc1" "bcGasUsed bc' = bcGasUsed bc1" "bcGasFee bc' = bcGasFee bc1"
    using ExecuteBlock_stages [OF assms(6) [unfolded ExecuteBlock_node [OF assms(1,2)]]] by blast
  show ?thesis
    using executeTxs_ok [OF refl assms(3) _ assms(5) 1(1)] assms(4) 1(2-) by (auto simp: blockAdvance_def)
qed

lemma sampleRoot: "DeriveReceiptRoot sampleCE [r] = Some ZeroHash"
  by (simp add: DeriveReceiptRoot_def sampleCE_def sampleEnv_def) code_simp

lemma sampleRoute:
  "\<exists>rc st gp. RouteTransaction sampleCE chainValidators 7 (sampleTx 7) sampleBc = (Ok (Some rc, 21000), sampleBc\<lparr>bcStore := st, bcGp := gp\<rparr>)"
proof -
  have g: "goodBlock (nEnv sampleCE) sampleAddrs 7 [sampleTx 7]" by (rule sampleGood) simp
  have "txAmount (sampleTx 7) \<le> available sampleLedger alice 7 - uint (txGas (sampleTx 7)) * txGasPrice (sampleTx 7)"
    by (simp add: sampleTxGas sampleAvailable Coin_def)
  from transfer_runs [OF goodBlock_ctx [OF g] sampleChargeable selectTransfer [OF refl] this]
  obtain rc v' where "runsTo (txRep (nEnv sampleCE) sampleAddrs) (routeTx chainValidators (txCtx sampleCE alice (sampleTx 7) 7))
      (freshView sampleLedger (bcGp sampleBc)) (Ok (Some rc, 21000)) v'" by auto
  from RouteTransaction_runs [OF _ sampleRep this] show ?thesis by auto
qed

lemma RouteTransaction_frame:
  "RouteTransaction ce vs h tx bc = (r, bc') \<Longrightarrow>
     RouteTransaction ce vs h tx (bc\<lparr>bcReceipts := R, bcLogs := G\<rparr>) = (r, bc'\<lparr>bcReceipts := R, bcLogs := G\<rparr>)"
  by (auto simp: RouteTransaction_def onTx_def raiseA_def split: option.splits prod.splits)

lemma sampleBlock_executes: "\<exists>bc'. ExecuteBlock sampleCE chainValidators (sampleBlock 7) sampleBc = (Ok (), bc') \<and> bcGasFee bc' = 42000"
proof -
  obtain rc st gp where
    "RouteTransaction sampleCE chainValidators 7 (sampleTx 7) sampleBc = (Ok (Some rc, 21000), sampleBc\<lparr>bcStore := st, bcGp := gp\<rparr>)"
    using sampleRoute by blast
  note RouteTransaction_frame [OF this, where R = "[None]" and G = "[]"]
  moreover have "encReceipt sampleCE r = Some []" "encReceipts sampleCE rs = Some []" for r rs by (simp_all add: sampleCE_def)
  moreover have "bcGasFee sampleBc = 0" by (simp add: sampleBc_def NewBlockExecuteContext_def)
  ultimately show ?thesis
    by (simp add: ExecuteBlock_def bindA_def makeReceipts_def addGas_def storeReceipt_def sampleBlock_def sampleHeader_def
      sampleRoot PutReceipt_def PutReceipts_def returnA_def Let_def)
qed

text \<open>A node with the chain's processors and one for contract transactions, which fails.\<close>

definition sampleValidators :: validators where
  "sampleValidators = (selectEvm, \<lambda>c. raiseA ErrUnsupportTxType) # chainValidators"

lemma sampleValidators_node: "set sampleValidators = nodeValidators (\<lambda>c. raiseA ErrUnsupportTxType)"
  by (simp add: sampleValidators_def nodeValidators_def)

lemma sampleBlock_plain: "\<forall>tx\<in>set (bTxList (sampleBlock a)). \<not> selectEvm tx"
  by (simp add: sampleBlock_def sampleTx_def selectEvm_def TxType_defs)

theorem ExecuteBlock_conserves_witness:
  "\<exists>bc' L'. ExecuteBlock sampleCE sampleValidators (sampleBlock 7) sampleBc = (Ok (), bc') \<and>
     ledgerRep sampleEnv sampleAddrs (bcStore bc') L' \<and> wealth sampleAddrs L' = wealth sampleAddrs sampleLedger - 42000"
proof -
  obtain bc' where b: "ExecuteBlock sampleCE chainValidators (sampleBlock 7) sampleBc = (Ok (), bc')" "bcGasFee bc' = 42000"
    using sampleBlock_executes by blast
  have g: "goodBlock (nEnv sampleCE) sampleAddrs (hHeight (bHeader (sampleBlock 7))) (bTxList (sampleBlock 7))"
    using sampleGood by (simp add: sampleBlock_def sampleHeader_def)
  have "bcGasFee sampleBc = 0" by (simp add: sampleBc_def NewBlockExecuteContext_def)
  moreover have e: "ExecuteBlock sampleCE sampleValidators (sampleBlock 7) sampleBc = (Ok (), bc')"
    using b(1) by (simp add: ExecuteBlock_node [OF sampleValidators_node sampleBlock_plain])
  ultimately show ?thesis
    using ExecuteBlock_conserves [OF sampleValidators_node sampleBlock_plain g sampleRep sampleLedgerInv e] b e by auto
qed

text \<open>
  C26. A transfer that exceeds what the sender has left after buying gas passes every check
  made before its processor runs. The processor's error is dropped, the transaction has no
  receipt, and reading the receipt's logs panics: a block that starts with such a transfer
  crashes the node that executes it.
\<close>

theorem overdrawn_transfer_panics:
  assumes "set vs = set chainValidators" "goodBlock (nEnv ce) A (hHeight (bHeader block)) [tx]"
    "ledgerRep (nEnv ce) A (bcStore bc) L" "chargeable L (bcGp bc) (hHeight (bHeader block)) tx sender ig"
    "txType tx = TransferType" "txAmount tx > available L sender (hHeight (bHeader block)) - uint (txGas tx) * txGasPrice tx"
    "bTxList block = tx # txs" "0 < bTxCount block"
  shows "fst (ExecuteBlock ce vs block bc) = Panic"
proof -
  let ?h = "hHeight (bHeader block)" and ?bc = "bc\<lparr>bcReceipts := replicate (unat (bTxCount block)) None, bcLogs := []\<rparr>"
  have a: "txFrom tx = Some sender" using assms(4) by (simp add: chargeable_def)
  have s: "ledgerRep (nEnv ce) A (bcStore ?bc) L" "chargeable L (bcGp ?bc) ?h tx sender ig" using assms(3,4) by simp_all
  obtain st gp where "RouteTransaction ce vs ?h tx ?bc = (Ok (None, 0), ?bc\<lparr>bcStore := st, bcGp := gp\<rparr>)"
    using RouteTransaction_runs [OF a s(1) overdrawn_runs [OF goodBlock_ctx [OF assms(2) a] s(2)
        selectTransfer [OF assms(1,5)] assms(6)]] by blast
  moreover have "0 < unat (bTxCount block)" using assms(8) by (simp add: unat_gt_0)
  ultimately show ?thesis using assms(7)
    by (simp add: ExecuteBlock_def bindA_def makeReceipts_def addGas_def storeReceipt_def)
qed

theorem overdrawn_transfer_panics_witness:
  "fst (ExecuteBlock sampleCE chainValidators (sampleBlock (2000 * Coin)) sampleBc) = Panic"
proof -
  have b: "hHeight (bHeader (sampleBlock x)) = 7" "bTxList (sampleBlock x) = [sampleTx x]" "bTxCount (sampleBlock x) = 1" for x
    by (simp_all add: sampleBlock_def sampleHeader_def)
  have "goodBlock (nEnv sampleCE) sampleAddrs 7 [sampleTx (2000 * Coin)]" by (rule sampleGood) (simp add: Coin_def)
  then show ?thesis
    by (intro overdrawn_transfer_panics [OF refl _ sampleRep _ _ _ b(2), where sender = alice and ig = 21000])
      (simp_all add: b sampleChargeable sampleTxGas sampleAvailable Coin_def)
qed

lemma executeTxs_order:
  assumes "set vs = set chainValidators"
  shows "executeTxs ce vs h i txs = executeTxs ce chainValidators h i txs"
proof -
  have r: "RouteTransaction ce vs h tx = RouteTransaction ce chainValidators h tx" for tx
    unfolding RouteTransaction_def routeTx_def selectTx_order [OF assms] by (rule refl)
  show ?thesis by (induction txs arbitrary: i) (simp_all add: r)
qed

text \<open>
  C17. Go iterates over the map of validators in any order; the result of executing a block does
  not depend on it.
\<close>

theorem ExecuteBlock_order:
  assumes "set vs = set chainValidators"
  shows "ExecuteBlock ce vs block bc = ExecuteBlock ce chainValidators block bc"
  unfolding ExecuteBlock_def executeTxs_order [OF assms] by (rule refl)

theorem ExecuteBlock_order_witness:
  "rev chainValidators \<noteq> chainValidators \<and>
     ExecuteBlock sampleCE (rev chainValidators) (sampleBlock 7) sampleBc = ExecuteBlock sampleCE chainValidators (sampleBlock 7) sampleBc"
proof -
  have "fst (hd chainValidators) (sampleTx 7) \<noteq> fst (hd (rev chainValidators)) (sampleTx 7)"
    by (simp add: chainValidators_def TxType_defs)
  then have "rev chainValidators \<noteq> chainValidators" by auto
  then show ?thesis using ExecuteBlock_order [of "rev chainValidators"] unfolding set_rev by blast
qed

subsection \<open>Headers\<close>

lemma span_value: "span = 194444"
  by (simp add: span_def MaxGasLimit_def)

lemma CalcGasLimit_step:
  assumes "18000000 \<le> hGasLimit parent" "hGasLimit parent \<le> 70000000"
  shows "\<bar>CalcGasLimit parent MinGasLimit MaxGasLimit - hGasLimit parent\<bar> \<le> 194444"
proof -
  define p :: u64 where "p = bigUint64 (hGasLimit parent)"
  have p: "uint p = hGasLimit parent" using assms by (simp add: p_def bigUint64_def uint_word_of_int_eq take_bit_int_eq_self)
  have "uint (p - 194444) = uint p - 194444"
    using uint_minus_simple_alt [of "194444" p] assms p by (simp add: word_le_def)
  moreover have "uint (p + 194444) = uint p + 194444" using assms p
    by (simp add: uint_word_ariths)
  ultimately show ?thesis unfolding CalcGasLimit_def Let_def p_def [symmetric] span_value
    using assms by (simp add: MinGasLimit_def MaxGasLimit_def word_less_def p)
qed

lemma CalcGasLimit_range:
  "uint MinGasLimit \<le> CalcGasLimit p MinGasLimit MaxGasLimit \<and> CalcGasLimit p MinGasLimit MaxGasLimit \<le> uint MaxGasLimit"
  by (auto simp: CalcGasLimit_def Let_def MinGasLimit_def MaxGasLimit_def word_less_def)

text \<open>
  C23. The gas limit of a block is between the two protocol bounds whatever the parent says,
  and from a parent within the bounds it moves by at most one step.
\<close>

theorem CalcGasLimit_bounds:
  "uint MinGasLimit \<le> CalcGasLimit parent MinGasLimit MaxGasLimit \<and> CalcGasLimit parent MinGasLimit MaxGasLimit \<le> uint MaxGasLimit \<and>
   (uint MinGasLimit \<le> hGasLimit parent \<and> hGasLimit parent \<le> uint MaxGasLimit \<longrightarrow>
      \<bar>CalcGasLimit parent MinGasLimit MaxGasLimit - hGasLimit parent\<bar> \<le> uint span)"
  using CalcGasLimit_step [of parent] CalcGasLimit_range unfolding span_value
  by (simp add: MinGasLimit_def MaxGasLimit_def)

theorem CalcGasLimit_bounds_witness:
  "\<bar>CalcGasLimit (sampleHeader\<lparr>hGasLimit := 18000000\<rparr>) MinGasLimit MaxGasLimit - 18000000\<bar> \<le> uint span"
  using CalcGasLimit_bounds [of "sampleHeader\<lparr>hGasLimit := 18000000\<rparr>"] by (auto simp: MinGasLimit_def MaxGasLimit_def)

text \<open>The checks a header has passed against its parent.\<close>

abbreviation verifiedAfter :: "ChainEnv \<Rightarrow> u32 \<Rightarrow> BlockHeader \<Rightarrow> BlockHeader \<Rightarrow> bool" where
  "verifiedAfter ce chainId parent header \<equiv> VerifyHeader ce chainId header parent = Ok ()"

lemma VerifyHeader_Ok:
  assumes "VerifyHeader ce chainId header parent = Ok ()"
  shows "hHeight header = hHeight parent + 1" "hTimestamp parent < hTimestamp header"
    "hPreviousHash header = headerHash ce parent" "hChainId header = chainId"
    "hGasLimit header = CalcGasLimit parent MinGasLimit MaxGasLimit"
    "bigUint64 (hGasUsed header) \<le> bigUint64 (hGasLimit header)"
  using assms by (auto simp: VerifyHeader_def algebra_simps split: if_splits)

lemma verified_chain_order:
  assumes "successively (verifiedAfter ce chainId) hs" "i + k < length hs"
  shows "hHeight (hs ! (i + k)) = hHeight (hs ! i) + of_nat k \<and> (k > 0 \<longrightarrow> hTimestamp (hs ! i) < hTimestamp (hs ! (i + k)))"
  using assms(2)
proof (induction k)
  case (Suc k)
  have "verifiedAfter ce chainId (hs ! (i + k)) (hs ! Suc (i + k))"
    using assms(1) Suc.prems by (simp add: successively_conv_nth)
  note v = VerifyHeader_Ok(1,2) [OF this]
  show ?case using Suc v by (cases "k = 0") auto
qed simp

text \<open>
  C15. In a chain in which every header passes \<^verbatim>\<open>VerifyHeader\<close> against the one before it,
  heights count up by one, timestamps strictly increase (so no header occurs twice), and
  from the second header on the gas limit is within the bounds and covers the gas used.
\<close>

theorem verified_chain:
  assumes "successively (verifiedAfter ce chainId) hs" "i < j" "j < length hs"
  shows "hHeight (hs ! j) = hHeight (hs ! i) + of_nat (j - i) \<and> hTimestamp (hs ! i) < hTimestamp (hs ! j) \<and>
     uint MinGasLimit \<le> hGasLimit (hs ! j) \<and> hGasLimit (hs ! j) \<le> uint MaxGasLimit \<and>
     bigUint64 (hGasUsed (hs ! j)) \<le> bigUint64 (hGasLimit (hs ! j))"
proof -
  have "Suc (j - 1) = j" using assms(2) by simp
  then have "verifiedAfter ce chainId (hs ! (j - 1)) (hs ! j)"
    using assms successively_conv_nth [of "verifiedAfter ce chainId" hs] by (metis less_Suc_eq_le)
  note v = VerifyHeader_Ok(5,6) [OF this]
  have "uint MinGasLimit \<le> CalcGasLimit p MinGasLimit MaxGasLimit \<and> CalcGasLimit p MinGasLimit MaxGasLimit \<le> uint MaxGasLimit" for p
    by (rule CalcGasLimit_range)
  then show ?thesis using verified_chain_order [OF assms(1), of i "j - i"] assms(2,3) v by simp
qed

theorem verified_chain_witness:
  "\<exists>hs. length hs = 3 \<and> successively (verifiedAfter sampleCE 0) hs \<and> hHeight (hs ! 2) = hHeight (hs ! 0) + 2 \<and>
     hTimestamp (hs ! 0) < hTimestamp (hs ! 2) \<and> uint MinGasLimit \<le> hGasLimit (hs ! 2)"
proof -
  let ?h = "sampleHeader\<lparr>hHeight := 8, hTimestamp := 10, hGasLimit := 18000000\<rparr>"
  let ?k = "?h\<lparr>hHeight := 9, hTimestamp := 11\<rparr>"
  let ?hs = "[sampleHeader, ?h, ?k]"
  have v: "successively (verifiedAfter sampleCE 0) ?hs"
    by (simp add: VerifyHeader_def sampleHeader_def sampleCE_def NodeVersion_def CalcGasLimit_def MinGasLimit_def MaxGasLimit_def
      span_value bigUint64_def)
  from verified_chain [OF this, of 0 2] v show ?thesis by (intro exI [of _ ?hs]) simp
qed

end
