(* ===== verification/TemplateProps.thy ===== *)
theory TemplateProps
  imports LedgerProps
begin

section \<open>Template and execution agree\<close>

text \<open>
  A leader builds a block with the template of \<^verbatim>\<open>blockmgr/templatevalidator.go\<close>; every node executes it
  with \<^verbatim>\<open>chain/blockexecutor.go\<close>. The two routes are separate code. When the template skips no
  transaction the executor accepts the block and ends in the same state.
\<close>

text \<open>Every built-in processor returns the empty result.\<close>

lemma finishTx_result: "finishTx c s = (Ok etr, s') \<Longrightarrow> etr = emptyResult"
  by (auto simp: finishTx_def bindA_Ok_iff returnA_def)

lemma bindA_result:
  assumes "bindA m f s = (Ok etr, s')" "\<And>x s1 s2. f x s1 = (Ok etr, s2) \<Longrightarrow> P"
  shows P
  using assms by (auto simp: bindA_Ok_iff)

lemma chainValidators_result:
  assumes "v \<in> set chainValidators" "snd v c s = (Ok etr, s')"
  shows "etr = emptyResult"
proof -
  have "transferExec c s = (Ok etr, s') \<or> aliasExec c s = (Ok etr, s') \<or> stakeExec c s = (Ok etr, s') \<or>
      cancelVoteExec c s = (Ok etr, s') \<or> candidateExec c s = (Ok etr, s') \<or> cancelCandidateExec c s = (Ok etr, s')"
    using assms by (auto simp: chainValidators_def)
  then show ?thesis
    by (auto simp: transferExec_def aliasExec_def stakeExec_def cancelVoteExec_def candidateExec_def cancelCandidateExec_def
      Let_def bindA_Ok_iff nonNil_def raiseA_def split: option.splits res.splits dest: finishTx_result)
qed

lemma selectTx_result:
  assumes "set vs = set chainValidators" "selectTx vs tx = Some e" "e c s = (Ok etr, s')"
  shows "etr = emptyResult"
proof -
  obtain v where v: "List.find (\<lambda>v. fst v tx) vs = Some v" "e = snd v" using assms(2) by (auto simp: selectTx_def)
  then have "v \<in> set vs" by (auto simp: find_Some_iff)
  then show ?thesis using assms(1,3) v(2) chainValidators_result by blast
qed

lemma RouteTemplateTransaction_Ok:
  assumes "set vs = set chainValidators" "RouteTemplateTransaction ce vs h tx bc = (Ok x, bc')"
  shows "RouteTransaction ce vs h tx bc = (Ok x, bc') \<and> (\<exists>rc g. x = (Some rc, g))"
proof -
  obtain a where a: "txFrom tx = Some a" using assms(2) by (cases "txFrom tx") (simp_all add: RouteTemplateTransaction_def raiseA_def)
  let ?c = "txCtx ce a tx h"
  let ?s = "\<lparr>tStore = bcStore bc, tGp = bcGp bc, tGasRemained = 0, tInitialGas = 0\<rparr>"
  obtain s' where s': "routeTemplateTx vs ?c ?s = (Ok x, s')" "bc' = bc\<lparr>bcStore := tStore s', bcGp := tGp s'\<rparr>"
    using assms(2) a by (auto simp: RouteTemplateTransaction_def onTx_def split: prod.splits)
  obtain e where e: "selectTx vs tx = Some e"
    using s'(1) by (cases "selectTx vs tx") (auto simp: routeTemplateTx_def bindA_Ok_iff raiseA_def)
  obtain u s1 etr s2 where r: "chargeTx ?c ?s = (Ok u, s1)" "e ?c s1 = (Ok etr, s2)" "settleTx ?c etr ZeroAddress s2 = (Ok x, s')"
    using s'(1) e by (auto simp: routeTemplateTx_def bindA_Ok_iff)
  have "ContractAddr etr = ZeroAddress" using selectTx_result [OF assms(1) e r(2)] by (simp add: emptyResult_def)
  then have "routeTx vs ?c ?s = (Ok x, s')" using r e by (simp add: routeTx_def bindA_def tryA_def)
  moreover have "\<exists>rc g. x = (Some rc, g)"
    using r(3) by (auto simp: settleTx_def bindA_Ok_iff nonNil_def returnA_def split: option.splits)
  ultimately show ?thesis using a s'(2) by (simp add: RouteTransaction_def onTx_def)
qed

lemma RouteTransaction_Some:
  assumes "set vs = set chainValidators" "RouteTransaction ce vs h tx bc = (Ok (Some rc, g), bc')"
  shows "RouteTemplateTransaction ce vs h tx bc = (Ok (Some rc, g), bc')"
proof -
  obtain a where a: "txFrom tx = Some a" using assms(2) by (cases "txFrom tx") (simp_all add: RouteTransaction_def raiseA_def)
  let ?c = "txCtx ce a tx h"
  let ?s = "\<lparr>tStore = bcStore bc, tGp = bcGp bc, tGasRemained = 0, tInitialGas = 0\<rparr>"
  obtain s' where s': "routeTx vs ?c ?s = (Ok (Some rc, g), s')" "bc' = bc\<lparr>bcStore := tStore s', bcGp := tGp s'\<rparr>"
    using assms(2) a by (auto simp: RouteTransaction_def onTx_def split: prod.splits)
  obtain e where e: "selectTx vs tx = Some e"
    using s'(1) by (cases "selectTx vs tx") (auto simp: routeTx_def bindA_Ok_iff raiseA_def)
  obtain u s1 r s2 where c: "chargeTx ?c ?s = (Ok u, s1)" "e ?c s1 = (r, s2)"
    using s'(1) by (cases "chargeTx ?c ?s") (fastforce simp: routeTx_def bindA_Ok_iff)
  then have x: "bindA (tryA (e ?c)) (\<lambda>r. case r of Ok etr \<Rightarrow> settleTx ?c etr (ContractAddr etr) | _ \<Rightarrow> returnA (None, 0)) s1 =
      (Ok (Some rc, g), s')" using s'(1) e by (simp add: routeTx_def bindA_def)
  then obtain etr where r: "r = Ok etr" using c(2) by (cases r) (auto simp: bindA_def tryA_def returnA_def)
  then have "ContractAddr etr = ZeroAddress" using selectTx_result [OF assms(1) e] c(2) by (fastforce simp: emptyResult_def)
  then have "routeTemplateTx vs ?c ?s = (Ok (Some rc, g), s')" using c x e r by (simp add: routeTemplateTx_def bindA_def tryA_def)
  then show ?thesis using a s'(2) by (simp add: RouteTemplateTransaction_def onTx_def)
qed

subsection \<open>The loop\<close>

lemma CopyState_db_same: "onBlockStore CopyState_db bc = (Ok snap, bc1) \<Longrightarrow> bc1 = bc"
  by (auto simp: onBlockStore_def CopyState_db_def split: prod.splits option.splits)

text \<open>One round of the loop ends the loop, takes the transaction, or skips it.\<close>

lemma templateTxs_step:
  assumes "templateTxs ce vs h fired i (t # ts) acc bc = (Ok chosen, bc')"
  obtains (stop) "chosen = acc"
  | (take) receipt g bc1 where "RouteTemplateTransaction ce vs h t bc = (Ok (receipt, g), bc1)"
      "templateTxs ce vs h fired (i + 1) ts (acc @ [(t, receipt)]) (snd (addGas g t bc1)) = (Ok chosen, bc')"
  | (skip) bc1 where "templateTxs ce vs h fired (i + 1) ts acc bc1 = (Ok chosen, bc')"
proof (cases "fired i")
  case True
  then show ?thesis using assms stop by (auto simp: bindA_Ok_iff returnA_def)
next
  case False
  obtain snap where s: "onBlockStore CopyState_db bc = (Ok snap, bc)"
    using assms CopyState_db_same by (auto simp: bindA_Ok_iff)
  obtain r bc1 where r: "RouteTemplateTransaction ce vs h t bc = (r, bc1)" by fastforce
  show ?thesis
  proof (cases r)
    case Panic
    then show ?thesis using assms s r False by (simp add: bindA_def tryA_def panicA_def)
  next
    case (Err e)
    show ?thesis
    proof (cases "e = ErrOutOfGas")
      case True
      then show ?thesis using assms s r False Err stop by (auto simp: bindA_def tryA_def returnA_def split: prod.splits res.splits)
    next
      case ne: False
      then show ?thesis using assms s r False Err skip
        by (auto simp: bindA_def tryA_def panicA_def split: prod.splits res.splits if_splits)
    qed
  next
    case (Ok x)
    then show ?thesis using assms s r False take by (cases x) (auto simp: bindA_def tryA_def addGas_def)
  qed
qed

lemma templateTxs_length:
  "templateTxs ce vs h fired i ts acc bc = (Ok chosen, bc') \<Longrightarrow> length chosen \<le> length acc + length ts"
proof (induction ts arbitrary: i acc bc)
  case Nil
  then show ?case by (simp add: returnA_def)
next
  case (Cons t ts)
  show ?case
  proof (cases rule: templateTxs_step [OF Cons.prems])
    case (2 receipt g bc1)
    show ?thesis using Cons.IH [OF 2(2)] by simp
  next
    case (3 bc1)
    show ?thesis using Cons.IH [OF 3] by simp
  qed simp
qed

lemma templateTxs_executes:
  assumes vs: "set vs = set chainValidators"
  shows "\<lbrakk>templateTxs ce vs h fired i ts acc bc = (Ok chosen, bc'); length chosen = length acc + length ts;
      j + length ts \<le> length R\<rbrakk> \<Longrightarrow>
    \<exists>rcs. length rcs = length ts \<and> chosen = acc @ zip ts (map Some rcs) \<and>
      executeTxs ce vs h j ts (bc\<lparr>bcReceipts := R, bcLogs := G\<rparr>) =
        (Ok (), bc'\<lparr>bcReceipts := take j R @ map Some rcs @ drop (j + length ts) R, bcLogs := G @ concat (map rLogs rcs)\<rparr>)"
proof (induction ts arbitrary: i acc bc j R G)
  case Nil
  then show ?case by (simp add: returnA_def)
next
  case (Cons t ts)
  show ?case
  proof (cases rule: templateTxs_step [OF Cons.prems(1)])
    case (2 receipt g bc1)
    obtain rc where rc: "receipt = Some rc" "RouteTransaction ce vs h t bc = (Ok (Some rc, g), bc1)"
      using RouteTemplateTransaction_Ok [OF vs 2(1)] by auto
    let ?R = "R[j := Some rc]" and ?G = "G @ rLogs rc"
    have l: "length chosen = length (acc @ [(t, receipt)]) + length ts" "j + 1 + length ts \<le> length ?R"
      using Cons.prems(2,3) by simp_all
    obtain rcs where rcs: "length rcs = length ts" "chosen = (acc @ [(t, receipt)]) @ zip ts (map Some rcs)"
        "executeTxs ce vs h (j + 1) ts ((snd (addGas g t bc1))\<lparr>bcReceipts := ?R, bcLogs := ?G\<rparr>) =
          (Ok (), bc'\<lparr>bcReceipts := take (j + 1) ?R @ map Some rcs @ drop (j + 1 + length ts) ?R, bcLogs := ?G @ concat (map rLogs rcs)\<rparr>)"
      using Cons.IH [OF 2(2) l, where G = ?G] by blast
    have "j < length R" using Cons.prems(3) by simp
    then have "take (j + 1) ?R = take j R @ [Some rc]" by (simp add: take_Suc_conv_app_nth)
    then have "executeTxs ce vs h j (t # ts) (bc\<lparr>bcReceipts := R, bcLogs := G\<rparr>) =
        (Ok (), bc'\<lparr>bcReceipts := take j R @ map Some (rc # rcs) @ drop (j + length (t # ts)) R, bcLogs := G @ concat (map rLogs (rc # rcs))\<rparr>)"
      using RouteTransaction_frame [OF rc(2), where R = R and G = G] rcs(3) \<open>j < length R\<close>
      by (simp add: bindA_def addGas_def storeReceipt_def)
    then show ?thesis using rcs(1,2) rc(1) by (intro exI [of _ "rc # rcs"]) simp
  next
    case (3 bc1)
    then show ?thesis using templateTxs_length [OF 3] Cons.prems(2) by simp
  qed (use Cons.prems(2) in simp)
qed

subsection \<open>The block\<close>

lemma putAll_total:
  assumes "\<And>r. encReceipt ce r \<noteq> None"
  shows "\<exists>db. putAll ce bh ps (map Some rcs) bc =
    (Ok (map (\<lambda>r. r\<lparr>rBlockHash := bh, rPostState := ps\<rparr>) rcs), bc\<lparr>bcDb := db\<rparr>)"
proof (induction rcs arbitrary: bc)
  case Nil
  then show ?case by (intro exI [of _ "bcDb bc"]) (simp add: returnA_def)
next
  case (Cons r rcs)
  let ?r = "r\<lparr>rBlockHash := bh, rPostState := ps\<rparr>"
  obtain b where b: "encReceipt ce (Some ?r) = Some b" using assms by blast
  then show ?case using Cons [of "bc\<lparr>bcDb := (bcDb bc)(receiptKey (hashFn ce) (rTxHash r) \<mapsto> b)\<rparr>"]
    by (auto simp: bindA_def PutReceipt_def Let_def returnA_def)
qed

lemma template_executes_chain:
  assumes "set vs = set chainValidators" "TemplateExecuteBlock ce vs fired block bc = (Ok b, bc1)"
    "length (bTxList b) = length (bTxList block)" "length (bTxList block) \<le> 2 ^ 45"
    "\<And>r. encReceipt ce r \<noteq> None" "\<And>rs. encReceipts ce rs \<noteq> None"
  shows "\<exists>bc2. ExecuteBlock ce vs b bc = (Ok (), bc2) \<and> bcStore bc2 = bcStore bc1 \<and> bcGp bc2 = bcGp bc1 \<and>
     bcGasUsed bc2 = bcGasUsed bc1 \<and> bcGasFee bc2 = bcGasFee bc1 \<and> hGasUsed (bHeader b) = bcGasUsed bc2 \<and>
     bTxList b = bTxList block"
proof -
  let ?h = "hHeight (bHeader block)" and ?n = "length (bTxList block)"
  let ?bc0 = "bc\<lparr>bcReceipts := replicate (unat (bTxCount block)) None, bcLogs := []\<rparr>"
  obtain chosen bc' where t: "templateTxs ce vs ?h fired 0 (bTxList block) [] ?bc0 = (Ok chosen, bc')"
      "templateBlock ce block bc' chosen = Some b" "bc1 = bc'\<lparr>bcReceipts := map snd chosen\<rparr>"
    using assms(2) by (auto simp: TemplateExecuteBlock_def bindA_Ok_iff makeReceipts_def split: if_splits option.splits)
  obtain root bl where b: "DeriveReceiptRoot ce (map snd chosen) = Some root"
      "b = block\<lparr>bTxList := map fst chosen, bTxCount := of_nat (length chosen),
        bHeader := (bHeader block)\<lparr>hGasUsed := bcGasUsed bc', hTxRoot := DeriveMerkleRoot ce (map fst chosen),
                   hReceiptRoot := root, hBloom := bl\<rparr>\<rparr>"
    using t(2) by (auto simp: templateBlock_def split: option.splits)
  have n: "length chosen = ?n" using assms(3) b(2) by simp
  obtain rcs where rcs: "length rcs = ?n" "chosen = zip (bTxList block) (map Some rcs)"
      "executeTxs ce vs ?h 0 (bTxList block) (bc\<lparr>bcReceipts := replicate ?n None, bcLogs := []\<rparr>) =
        (Ok (), bc'\<lparr>bcReceipts := map Some rcs, bcLogs := concat (map rLogs rcs)\<rparr>)"
    using templateTxs_executes [OF assms(1) t(1), of 0 "replicate ?n None" "[]"] n by auto
  have u: "unat (of_nat ?n :: u64) = ?n" using assms(4) by (simp add: unsigned_of_nat take_bit_nat_eq_self)
  let ?hash = "headerHash ce (bHeader b)"
  obtain db where p: "putAll ce ?hash root (map Some rcs) (bc'\<lparr>bcReceipts := map Some rcs, bcLogs := concat (map rLogs rcs)\<rparr>) =
      (Ok (map (\<lambda>r. r\<lparr>rBlockHash := ?hash, rPostState := root\<rparr>) rcs),
       bc'\<lparr>bcReceipts := map Some rcs, bcLogs := concat (map rLogs rcs), bcDb := db\<rparr>)"
    using putAll_total [OF assms(5)] by (metis BlockExecuteContext.update_convs(7))
  obtain e where e: "encReceipts ce (map (\<lambda>r. r\<lparr>rBlockHash := ?hash, rPostState := root\<rparr>) rcs) = Some e" using assms(6) by blast
  have "map snd chosen = map Some rcs" "map fst chosen = bTxList block" using rcs(1,2) by simp_all
  then show ?thesis using b rcs(3) p e u n assms(4) t(3)
    by (simp add: ExecuteBlock_def bindA_def makeReceipts_def PutReceipts_def)
qed

text \<open>
  C9. On a node with the six processors of the chain and the virtual machine, a block without contract
  transactions that the template builds without skipping a transaction is accepted by the
  executor from the same state: the receipt root matches, no error occurs, and store, gas
  pool, gas used and gas fee end up as the leader computed them. The hypotheses on the
  codec and on the number of transactions say that receipts can be encoded and that the
  slice of receipts fits the address space.
\<close>

theorem template_executes:
  assumes "set vs = nodeValidators evm" "\<forall>tx\<in>set (bTxList block). \<not> selectEvm tx"
    "TemplateExecuteBlock ce vs fired block bc = (Ok b, bc1)"
    "length (bTxList b) = length (bTxList block)" "length (bTxList block) \<le> 2 ^ 45"
    "\<And>r. encReceipt ce r \<noteq> None" "\<And>rs. encReceipts ce rs \<noteq> None"
  shows "\<exists>bc2. ExecuteBlock ce vs b bc = (Ok (), bc2) \<and> bcStore bc2 = bcStore bc1 \<and> bcGp bc2 = bcGp bc1 \<and>
     bcGasUsed bc2 = bcGasUsed bc1 \<and> bcGasFee bc2 = bcGasFee bc1 \<and> hGasUsed (bHeader b) = bcGasUsed bc2"
proof -
  from assms(3) have "TemplateExecuteBlock ce chainValidators fired block bc = (Ok b, bc1)"
    unfolding TemplateExecuteBlock_node [OF assms(1,2)] .
  from template_executes_chain [OF refl this assms(4-7)]
  obtain bc2 where "ExecuteBlock ce chainValidators b bc = (Ok (), bc2)" "bTxList b = bTxList block" "bcStore bc2 = bcStore bc1"
      "bcGp bc2 = bcGp bc1" "bcGasUsed bc2 = bcGasUsed bc1" "bcGasFee bc2 = bcGasFee bc1" "hGasUsed (bHeader b) = bcGasUsed bc2"
    by blast
  then show ?thesis using ExecuteBlock_node [OF assms(1), of b ce] assms(2) by simp
qed

lemma sampleTemplate:
  "\<exists>b bc1. TemplateExecuteBlock sampleCE chainValidators (\<lambda>_. False) (sampleBlock 7) sampleBc = (Ok b, bc1) \<and> length (bTxList b) = 1"
proof -
  let ?bc = "sampleBc\<lparr>bcReceipts := [None], bcLogs := []\<rparr>"
  obtain rc bc1 where "RouteTransaction sampleCE chainValidators 7 (sampleTx 7) sampleBc = (Ok (Some rc, 21000), bc1)"
    using sampleRoute by blast
  from RouteTransaction_Some [OF refl RouteTransaction_frame [OF this]]
  have r: "RouteTemplateTransaction sampleCE chainValidators 7 (sampleTx 7) ?bc = (Ok (Some rc, 21000), bc1\<lparr>bcReceipts := [None], bcLogs := []\<rparr>)" .
  obtain snap where "onBlockStore CopyState_db ?bc = (Ok snap, ?bc)"
    by (simp add: onBlockStore_def CopyState_db_def sampleBc_def NewBlockExecuteContext_def sampleStore_def)
  moreover obtain bl where "CreateBloom (hashFn sampleCE) [rc] = Some bl" using CreateBloom_total by blast
  ultimately show ?thesis using r
    by (simp add: TemplateExecuteBlock_def bindA_def tryA_def returnA_def makeReceipts_def addGas_def sampleBlock_def sampleHeader_def
      templateBlock_def sampleRoot)
qed

theorem template_executes_witness:
  "\<exists>b bc1 bc2. TemplateExecuteBlock sampleCE sampleValidators (\<lambda>_. False) (sampleBlock 7) sampleBc = (Ok b, bc1) \<and>
     ExecuteBlock sampleCE sampleValidators b sampleBc = (Ok (), bc2) \<and> bcStore bc2 = bcStore bc1 \<and> length (bTxList b) = 1"
proof -
  obtain b bc1 where b: "TemplateExecuteBlock sampleCE sampleValidators (\<lambda>_. False) (sampleBlock 7) sampleBc = (Ok b, bc1)" "length (bTxList b) = 1"
    using sampleTemplate unfolding TemplateExecuteBlock_node [OF sampleValidators_node sampleBlock_plain] by blast
  have "length (bTxList (sampleBlock 7)) = 1" by (simp add: sampleBlock_def)
  moreover have "encReceipt sampleCE r \<noteq> None" "encReceipts sampleCE rs \<noteq> None" for r rs by (simp_all add: sampleCE_def)
  ultimately have "\<exists>bc2. ExecuteBlock sampleCE sampleValidators b sampleBc = (Ok (), bc2) \<and> bcStore bc2 = bcStore bc1"
    using template_executes [OF sampleValidators_node sampleBlock_plain b(1)] b(2) by auto
  then show ?thesis using b by blast
qed

end
