(* ===== verification/EvmNumbers.thy ===== *)
theory EvmNumbers
  imports Bloom "HOL-Library.Log_Nat"
begin

section \<open>Numbers of the virtual machine\<close>

text \<open>
  \<^verbatim>\<open>common/math/big.go\<close>, \<^verbatim>\<open>common/integer.go\<close> and \<^verbatim>\<open>common/size.go\<close>. A \<^verbatim>\<open>big.Int\<close> is an \<open>int\<close>;
  \<^verbatim>\<open>Bits\<close> reads its absolute value as 64-bit words, least significant first. \<^verbatim>\<open>Div\<close> and \<^verbatim>\<open>Mod\<close> are
  Euclidean. The lemmas say that the routines with overflow flags flag exactly the
  overflows, that exponentiation by squaring is exponentiation, and that bytes are read
  and written in big-endian order.
\<close>

subsection \<open>Methods of \<^verbatim>\<open>big.Int\<close>\<close>

definition bigInt64 :: "int \<Rightarrow> int" where
  "bigInt64 x = sint (word_of_int x :: u64)"

definition BitLen :: "int \<Rightarrow> nat" where
  "BitLen x = floorlog 2 (nat \<bar>x\<bar>)"

definition bigBytes :: "int \<Rightarrow> bytes" where
  "bigBytes x = natBytes (nat \<bar>x\<bar>)"

definition bigSetBytes :: "bytes \<Rightarrow> int" where
  "bigSetBytes bs = int (beNat bs)"

definition bigDiv :: "int \<Rightarrow> int \<Rightarrow> int" where
  "bigDiv x y = (if y > 0 then x div y else - (x div (- y)))"

definition bigMod :: "int \<Rightarrow> int \<Rightarrow> int" where
  "bigMod x y = x mod \<bar>y\<bar>"

function natWords :: "nat \<Rightarrow> u64 list" where
  "natWords n = (if n = 0 then [] else of_nat n # natWords (n div 2 ^ 64))"
  by pat_completeness auto
termination by (relation "measure id") auto

declare natWords.simps [simp del]

definition bigBits :: "int \<Rightarrow> u64 list" where
  "bigBits x = natWords (nat \<bar>x\<bar>)"

definition IsUint64 :: "int \<Rightarrow> bool" where
  "IsUint64 x \<longleftrightarrow> 0 \<le> x \<and> BitLen x \<le> 64"

subsection \<open>\<^verbatim>\<open>common/math/big.go\<close>\<close>

definition TT255 :: int where "TT255 = 2 ^ 255"
definition tt256 :: int where "tt256 = 2 ^ 256"

definition BigMax :: "int \<Rightarrow> int \<Rightarrow> int" where
  "BigMax x y = (if x < y then y else x)"

definition BigMin :: "int \<Rightarrow> int \<Rightarrow> int" where
  "BigMin x y = (if x > y then y else x)"

definition U256 :: "int \<Rightarrow> int" where
  "U256 x = x AND (tt256 - 1)"

definition S256 :: "int \<Rightarrow> int" where
  "S256 x = (if x < TT255 then x else x - tt256)"

text \<open>One pass of the inner loop of \<^verbatim>\<open>Exp\<close> per bit of a word of the exponent.\<close>

fun expWord :: "nat \<Rightarrow> u64 \<Rightarrow> int \<times> int \<Rightarrow> int \<times> int" where
  "expWord 0 w (result, base) = (result, base)"
| "expWord (Suc k) w (result, base) =
     expWord k (drop_bit 1 w) (if w AND 1 = 1 then U256 (result * base) else result, U256 (base * base))"

definition Exp :: "int \<Rightarrow> int \<Rightarrow> int" where
  "Exp base exponent = fst (fold (expWord 64) (bigBits exponent) (1, base))"

definition bigEndianByteAt :: "int \<Rightarrow> nat \<Rightarrow> byte" where
  "bigEndianByteAt x n =
     (let words = bigBits x; i = n div 8
      in if length words \<le> i then 0 else ucast (drop_bit (8 * (n mod 8)) (words ! i)))"

definition Byte :: "int \<Rightarrow> nat \<Rightarrow> int \<Rightarrow> byte" where
  "Byte x padlength n = (if int padlength \<le> n then 0 else bigEndianByteAt x (nat (int padlength - 1 - n)))"

fun wordBytes :: "nat \<Rightarrow> u64 \<Rightarrow> bytes" where
  "wordBytes 0 d = []"
| "wordBytes (Suc j) d = ucast d # wordBytes j (drop_bit 8 d)"

text \<open>\<^verbatim>\<open>ReadBits\<close> fills the buffer from its end and leaves the bytes it does not reach.\<close>

definition ReadBits :: "int \<Rightarrow> bytes \<Rightarrow> bytes" where
  "ReadBits x buf =
     (let bs = concat (map (wordBytes 8) (bigBits x))
      in rev (take (length buf) bs @ drop (length bs) (rev buf)))"

subsection \<open>\<^verbatim>\<open>common/integer.go\<close> and \<^verbatim>\<open>common/size.go\<close>\<close>

definition MaxUint64 :: u64 where "MaxUint64 = - 1"

definition SafeAdd :: "u64 \<Rightarrow> u64 \<Rightarrow> u64 \<times> bool" where
  "SafeAdd x y = (x + y, y > MaxUint64 - x)"

definition SafeMul :: "u64 \<Rightarrow> u64 \<Rightarrow> u64 \<times> bool" where
  "SafeMul x y = (if x = 0 \<or> y = 0 then (0, False) else (x * y, y > MaxUint64 div x))"

definition CalcMemSize :: "int \<Rightarrow> int \<Rightarrow> int" where
  "CalcMemSize off l = (if l = 0 then 0 else off + l)"

definition ToWordSize :: "u64 \<Rightarrow> u64" where
  "ToWordSize sz = (if sz > MaxUint64 - 31 then MaxUint64 div 32 + 1 else (sz + 31) div 32)"

definition RightPadBytes :: "bytes \<Rightarrow> int \<Rightarrow> bytes" where
  "RightPadBytes bs l = (if l \<le> int (length bs) then bs else bs @ replicate (nat l - length bs) 0)"

definition LeftPadBytes :: "bytes \<Rightarrow> int \<Rightarrow> bytes" where
  "LeftPadBytes bs l = (if l \<le> int (length bs) then bs else replicate (nat l - length bs) 0 @ bs)"

text \<open>\<^verbatim>\<open>int(size)\<close> of a \<^verbatim>\<open>uint64\<close> reads the word as signed; \<open>None\<close> is the panic of a slice expression.\<close>

definition GetData :: "bytes \<Rightarrow> u64 \<Rightarrow> u64 \<Rightarrow> bytes option" where
  "GetData data start sz =
     (let l = of_nat (length data);
          start' = (if start > l then l else start);
          end1 = start' + sz;
          end' = (if end1 > l then l else end1)
      in map_option (\<lambda>d. RightPadBytes d (sint sz)) (slice data (unat start') (unat end')))"

definition AllZero :: "bytes \<Rightarrow> bool" where
  "AllZero bs \<longleftrightarrow> list_all (\<lambda>b. b = 0) bs"

definition GetDataBig :: "bytes \<Rightarrow> int \<Rightarrow> int \<Rightarrow> bytes option" where
  "GetDataBig data start sz =
     (let dlen = int (length data);
          s = BigMin start dlen;
          e = BigMin (s + sz) dlen
      in map_option (\<lambda>d. RightPadBytes d (sint (bigUint64 sz)))
           (slice data (unat (bigUint64 s)) (unat (bigUint64 e))))"

subsection \<open>Lemmas\<close>

lemma U256_mod: "U256 x = x mod 2 ^ 256"
proof -
  have "tt256 - 1 = mask 256" by (simp add: tt256_def mask_eq_exp_minus_1)
  then show ?thesis unfolding U256_def by (simp only: take_bit_eq_mask [symmetric] take_bit_eq_mod)
qed

text \<open>The values a word of the machine can have.\<close>

definition isWord :: "int \<Rightarrow> bool" where
  "isWord x \<longleftrightarrow> 0 \<le> x \<and> x < 2 ^ 256"

lemma isWord_U256 [simp, intro]: "isWord (U256 x)"
  by (simp add: isWord_def U256_mod)

lemma U256_id: "isWord x \<Longrightarrow> U256 x = x"
  by (simp add: isWord_def U256_mod)

lemma U256_word: "U256 x = uint (word_of_int x :: 256 word)"
  by (simp add: U256_mod uint_word_of_int)

lemma S256_word:
  assumes "isWord x"
  shows "S256 x = sint (word_of_int x :: 256 word)"
proof -
  have s: "sint (word_of_int x :: 256 word) = signed_take_bit 255 x" by (simp add: signed_of_int)
  have "signed_take_bit 255 x = signed_take_bit 255 (x - tt256)"
    by (simp add: signed_take_bit_eq_iff_take_bit_eq take_bit_eq_mod tt256_def)
  moreover have "x < TT255 \<Longrightarrow> signed_take_bit 255 x = x"
    using assms by (simp add: isWord_def TT255_def signed_take_bit_int_eq_self)
  moreover have "\<not> x < TT255 \<Longrightarrow> signed_take_bit 255 (x - tt256) = x - tt256"
    using assms by (simp add: isWord_def TT255_def tt256_def signed_take_bit_int_eq_self)
  ultimately show ?thesis by (simp add: s S256_def)
qed

lemma BitLen_le: "BitLen x \<le> k \<longleftrightarrow> \<bar>x\<bar> < 2 ^ k"
  by (simp add: BitLen_def floorlog_le_iff nat_less_iff)

lemma unat_bigUint64: "0 \<le> x \<Longrightarrow> x < 2 ^ 64 \<Longrightarrow> unat (bigUint64 x) = nat x"
  by (simp add: bigUint64_def unat_eq_nat_uint uint_word_of_int)

lemma bigInt64_small: "0 \<le> x \<Longrightarrow> x < 2 ^ 63 \<Longrightarrow> bigInt64 x = x"
  by (simp add: bigInt64_def signed_of_int signed_take_bit_int_eq_self)

lemma unat_MaxUint64: "unat MaxUint64 = 2 ^ 64 - 1"
  by (simp add: MaxUint64_def unsigned_minus_1_eq_mask mask_eq_exp_minus_1)

lemma u64_bound: "unat (x :: u64) < 2 ^ 64"
  using unsigned_less [of x, where 'a = nat] by simp

lemma SafeAdd_iff: "SafeAdd x y = (z, False) \<longleftrightarrow> z = x + y \<and> unat x + unat y < 2 ^ 64"
proof -
  have "unat (MaxUint64 - x) = 2 ^ 64 - 1 - unat x"
    using unat_MaxUint64 unat_sub [of x MaxUint64] by (simp add: MaxUint64_def)
  then show ?thesis using u64_bound [of x] by (auto simp: SafeAdd_def word_less_nat_alt)
qed

lemma SafeMul_iff: "SafeMul x y = (z, False) \<longleftrightarrow> z = x * y \<and> unat x * unat y < 2 ^ 64"
proof (cases "x = 0 \<or> y = 0")
  case True
  then show ?thesis by (auto simp: SafeMul_def)
next
  case False
  then have x: "unat x > 0" by (simp add: unat_gt_0)
  have "unat y \<le> (2 ^ 64 - 1) div unat x \<longleftrightarrow> unat y * unat x \<le> 2 ^ 64 - 1"
    using x by (simp add: less_eq_div_iff_mult_less_eq)
  moreover have "unat (MaxUint64 div x) = (2 ^ 64 - 1) div unat x"
    using unat_MaxUint64 by (simp add: unat_div)
  ultimately show ?thesis using False by (auto simp: SafeMul_def word_less_nat_alt not_less mult.commute)
qed

lemma ToWordSize_ceil: "unat (ToWordSize sz) = (unat sz + 31) div 32"
proof -
  have b: "unat sz < 2 ^ 64" by (rule u64_bound)
  show ?thesis
  proof (cases "sz > MaxUint64 - 31")
    case True
    then have "unat sz \<ge> 2 ^ 64 - 31" by (simp add: MaxUint64_def word_less_nat_alt)
    then have "(unat sz + 31) div 32 = 2 ^ 59" using b by simp
    moreover have "unat (ToWordSize sz) = 2 ^ 59" using True by (simp add: ToWordSize_def MaxUint64_def)
    ultimately show ?thesis by simp
  next
    case False
    then have "unat sz + 31 < 2 ^ 64" by (simp add: MaxUint64_def word_less_nat_alt)
    then show ?thesis using False by (simp add: ToWordSize_def unat_div unat_add_no_wrap)
  qed
qed

subsubsection \<open>Words of a number\<close>

definition wordsNat :: "u64 list \<Rightarrow> nat" where
  "wordsNat ws = foldr (\<lambda>w a. unat w + 2 ^ 64 * a) ws 0"

lemma wordsNat_simps [simp]:
  "wordsNat [] = 0"
  "wordsNat (w # ws) = unat w + 2 ^ 64 * wordsNat ws"
  by (simp_all add: wordsNat_def)

lemma wordsNat_natWords: "wordsNat (natWords n) = n"
proof (induction n rule: natWords.induct)
  case (1 n)
  then show ?case by (subst natWords.simps) (simp add: unsigned_of_nat take_bit_eq_mod)
qed

lemma wordsNat_bigBits: "wordsNat (bigBits x) = nat \<bar>x\<bar>"
  by (simp add: bigBits_def wordsNat_natWords)

subsubsection \<open>Exponentiation\<close>

abbreviation W256 :: "int \<Rightarrow> 256 word" where "W256 x \<equiv> word_of_int x"

lemma W256_U256 [simp]: "W256 (U256 x) = W256 x"
  by (simp add: U256_word)

lemma and_one_odd: "(w AND 1 = (1 :: u64)) = odd (unat w)"
proof -
  have "odd (unat w) = odd w" using bit_unsigned_iff [where w = w and n = 0 and 'a = nat] by (simp add: bit_0)
  then show ?thesis by (simp add: and_one_eq odd_iff_mod_2_eq_one)
qed

lemma expWord_word:
  "W256 (fst (expWord k w p)) = W256 (fst p) * W256 (snd p) ^ (unat w mod 2 ^ k) \<and>
   W256 (snd (expWord k w p)) = W256 (snd p) ^ (2 ^ k)"
proof (induction k arbitrary: w p)
  case 0
  then show ?case by (cases p) simp
next
  case (Suc k)
  obtain r b where p: "p = (r, b)" by (cases p)
  have w: "unat w mod (2 * 2 ^ k) = 2 * (unat (drop_bit (Suc 0) w) mod 2 ^ k) + unat w mod 2"
    by (simp add: unat_drop_bit_eq drop_bit_Suc mod_mult2_eq unat_div)
  show ?case
    using Suc.IH [of "drop_bit 1 w" "(if w AND 1 = 1 then U256 (r * b) else r, U256 (b * b))"]
    by (cases "odd (unat w)")
      (simp_all add: p w and_one_odd power_add power_mult power2_eq_square odd_iff_mod_2_eq_one
        even_iff_mod_2_eq_zero power_mult_distrib mult.assoc)
qed

lemma exp_fold:
  "W256 (fst (fold (expWord 64) ws p)) = W256 (fst p) * W256 (snd p) ^ wordsNat ws"
proof (induction ws arbitrary: p)
  case (Cons w ws)
  have "unat w mod 2 ^ 64 = unat w" using u64_bound by simp
  then show ?case using Cons.IH [of "expWord 64 w p"] expWord_word [of 64 w p]
    by (simp add: power_add mult.assoc flip: power_mult)
qed simp

lemma expWord_range: "isWord (fst p) \<Longrightarrow> isWord (fst (expWord k w p))"
  by (induction k w p rule: expWord.induct) simp_all

text \<open>Exponentiation by squaring on the words of the exponent is exponentiation modulo \<open>2 ^ 256\<close>.\<close>

lemma Exp_U256: "Exp base exponent = U256 (base ^ nat \<bar>exponent\<bar>)"
proof -
  have r: "isWord (fst (fold (expWord 64) ws p))" if "isWord (fst p)" for ws p
    using that by (induction ws arbitrary: p) (simp_all add: expWord_range)
  have "W256 (Exp base exponent) = W256 (base ^ nat \<bar>exponent\<bar>)"
    using exp_fold [of "bigBits exponent" "(1, base)"] by (simp add: Exp_def wordsNat_bigBits)
  moreover have "U256 (Exp base exponent) = Exp base exponent"
    using r [of "(1, base)" "bigBits exponent"] by (simp add: Exp_def U256_id isWord_def)
  ultimately show ?thesis using U256_word by metis
qed

subsubsection \<open>Bytes of a number\<close>

lemma natWords_nth:
  "i < length (natWords n) \<Longrightarrow> natWords n ! i = of_nat (n div 2 ^ (64 * i))"
  "length (natWords n) \<le> i \<Longrightarrow> n div 2 ^ (64 * i) = 0"
proof (induction n arbitrary: i rule: natWords.induct)
  case (1 n)
  have sh: "n div 2 ^ 64 div 2 ^ (64 * j) = n div 2 ^ (64 * Suc j)" for j
    by (simp only: div_mult2_eq [symmetric] power_add [symmetric] mult_Suc_right)
  {
    case 1
    then show ?case using "1.IH"(1) sh by (subst natWords.simps, subst (asm) natWords.simps) (cases i, auto split: if_splits)
  next
    case 2
    then show ?case using "1.IH"(2) sh by (subst (asm) natWords.simps) (cases i, auto split: if_splits)
  }
qed

lemma bigEndianByteAt_nat: "bigEndianByteAt x n = of_nat (nat \<bar>x\<bar> div 256 ^ n)"
proof -
  let ?m = "nat \<bar>x\<bar>" and ?i = "n div 8"
  have p: "(256 :: nat) ^ n = 2 ^ (64 * ?i) * 2 ^ (8 * (n mod 8))"
  proof -
    have "(256 :: nat) ^ n = (2 ^ 8) ^ n" by simp
    also have "\<dots> = 2 ^ (8 * n)" by (simp only: power_mult)
    also have "8 * n = 64 * ?i + 8 * (n mod 8)" using mult_div_mod_eq [of 8 n] by linarith
    finally show ?thesis by (simp only: power_add)
  qed
  show ?thesis
  proof (cases "length (natWords ?m) \<le> ?i")
    case True
    then have "?m div 256 ^ n = 0" using natWords_nth(2) by (simp add: p div_mult2_eq)
    then show ?thesis using True by (simp add: bigEndianByteAt_def bigBits_def)
  next
    case False
    have "(ucast (drop_bit (8 * (n mod 8)) (of_nat (?m div 2 ^ (64 * ?i)) :: u64)) :: byte) =
        of_nat (?m div 256 ^ n)"
    proof (rule bit_word_eqI)
      fix k assume "k < LENGTH(8)"
      then have "8 * (n mod 8) + k < 64" using mod_less_divisor [of 8 n] by simp
      then show "bit (ucast (drop_bit (8 * (n mod 8)) (of_nat (?m div 2 ^ (64 * ?i)) :: u64)) :: byte) k =
          bit (of_nat (?m div 256 ^ n) :: byte) k"
        by (simp add: bit_simps p div_mult2_eq drop_bit_eq_div [symmetric] del: drop_bit_drop_bit)
    qed
    then show ?thesis using False natWords_nth(1) by (simp add: bigEndianByteAt_def bigBits_def)
  qed
qed

definition leNat :: "bytes \<Rightarrow> nat" where
  "leNat bs = foldr (\<lambda>b a. unat b + 256 * a) bs 0"

lemma leNat_simps [simp]:
  "leNat [] = 0"
  "leNat (b # bs) = unat b + 256 * leNat bs"
  by (simp_all add: leNat_def)

lemma beNat_rev: "beNat (rev bs) = leNat bs"
  by (induction bs) (simp_all add: algebra_simps)

lemma leNat_append: "leNat (as @ bs) = leNat as + 256 ^ length as * leNat bs"
  by (induction as) (simp_all add: algebra_simps)

lemma wordBytes_props: "leNat (wordBytes j d) = unat d mod 256 ^ j \<and> length (wordBytes j d) = j"
proof (induction j arbitrary: d)
  case (Suc j)
  have "unat (ucast d :: byte) = unat d mod 256" by (simp add: unsigned_ucast_eq take_bit_eq_mod)
  moreover have "unat d mod (256 * 256 ^ j) = 256 * (unat d div 256 mod 256 ^ j) + unat d mod 256"
    by (rule mod_mult2_eq)
  moreover have "unat (drop_bit 8 d) = unat d div 256" by (simp add: unat_drop_bit_eq drop_bit_eq_div unat_div)
  ultimately show ?case using Suc by simp
qed simp

lemma leNat_wordBytes: "leNat (concat (map (wordBytes 8) ws)) = wordsNat ws"
proof (induction ws)
  case (Cons w ws)
  have "unat w mod 256 ^ 8 = unat w" using u64_bound by simp
  then show ?case using Cons wordBytes_props [of 8 w] by (simp add: leNat_append)
qed simp

lemma length_wordBytes_concat: "length (concat (map (wordBytes 8) ws)) = 8 * length ws"
  by (induction ws) (simp_all add: wordBytes_props)

lemma length_natWords: "n < 2 ^ (64 * k) \<Longrightarrow> length (natWords n) \<le> k"
proof (induction k arbitrary: n)
  case 0
  then show ?case by (subst natWords.simps) simp
next
  case (Suc k)
  have "n div 2 ^ 64 < 2 ^ (64 * k)"
    using Suc.prems by (simp only: div_less_iff_less_mult mult_Suc_right power_add) (simp add: mult.commute)
  then show ?case using Suc.IH by (subst natWords.simps) simp
qed

text \<open>\<^verbatim>\<open>ReadBits\<close> into a zeroed buffer of 32 bytes writes a word in big-endian order.\<close>

lemma length_ReadBits: "length (ReadBits x buf) = length buf"
  by (simp add: ReadBits_def Let_def min_def)

lemma ReadBits_word:
  assumes "isWord x"
  shows "int (beNat (ReadBits x (replicate 32 0))) = x"
proof -
  let ?bs = "concat (map (wordBytes 8) (bigBits x))"
  have "nat \<bar>x\<bar> < 2 ^ (64 * 4)" using assms by (simp add: isWord_def nat_less_iff)
  then have l: "length ?bs \<le> 32"
    using length_natWords [of "nat \<bar>x\<bar>" 4] by (simp add: length_wordBytes_concat bigBits_def)
  have "leNat (replicate k 0) = 0" for k by (induction k) simp_all
  then have "beNat (ReadBits x (replicate 32 0)) = leNat ?bs"
    using l by (simp add: ReadBits_def Let_def beNat_rev leNat_append flip: rev_append)
  then show ?thesis using assms by (simp add: leNat_wordBytes wordsNat_bigBits isWord_def)
qed

lemma bigSetBytes_word: "length bs \<le> 32 \<Longrightarrow> isWord (bigSetBytes bs)"
proof -
  have b: "beNat bs < 256 ^ length bs"
  proof (induction bs rule: rev_induct)
    case (snoc b bs)
    have "unat b < 256" using unsigned_less [of b, where 'a = nat] by simp
    then show ?case using snoc by simp
  qed simp
  assume "length bs \<le> 32"
  then have "(256 :: nat) ^ length bs \<le> 256 ^ 32" by (rule power_increasing) simp
  then show ?thesis using b by (simp add: isWord_def bigSetBytes_def)
qed

lemma bigBytes_set [simp]: "bigSetBytes (bigBytes x) = \<bar>x\<bar>"
  by (simp add: bigSetBytes_def bigBytes_def)

subsubsection \<open>Reading data with zeros behind its end\<close>

lemma GetDataBig_total:
  assumes "0 \<le> start" "0 \<le> sz" "sz < 2 ^ 63" "length data < 2 ^ 63"
  shows "GetDataBig data start sz =
    Some (let d = take (nat sz) (drop (nat start) data) in d @ replicate (nat sz - length d) 0)"
proof -
  let ?l = "int (length data)" and ?s = "BigMin start (int (length data))"
  let ?e = "BigMin (?s + sz) ?l"
  have u: "unat (bigUint64 y) = nat y" if "0 \<le> y" "y < 2 ^ 63" for y
    using that by (simp add: bigUint64_def unat_eq_nat_uint uint_word_of_int)
  have se: "0 \<le> ?s" "?s \<le> ?e" "?e \<le> ?l" "0 \<le> ?e" using assms by (auto simp: BigMin_def)
  have sz: "sint (bigUint64 sz) = sz"
    using assms by (simp add: bigUint64_def signed_of_int signed_take_bit_int_eq_self)
  have "take (nat ?e - nat ?s) (drop (nat ?s) data) = take (nat sz) (drop (nat start) data)"
    using assms by (auto simp: BigMin_def nat_add_distrib)
  moreover have "length (take (nat sz) (drop (nat start) data)) \<le> nat sz" by simp
  ultimately show ?thesis using se assms
    by (auto simp: GetDataBig_def Let_def slice_def u sz RightPadBytes_def)
qed

end
