(* ===== verification/EvmMachine.thy ===== *)
theory EvmMachine
  imports EvmNumbers Store
begin

section \<open>The virtual machine: its data\<close>

text \<open>
  \<^verbatim>\<open>pkgs/evm/vm\<close>: \<^verbatim>\<open>stack.go\<close>, \<^verbatim>\<open>memory.go\<close>, \<^verbatim>\<open>contract.go\<close>, \<^verbatim>\<open>analysis.go\<close>, \<^verbatim>\<open>opcodes.go\<close>, and the
  records of \<^verbatim>\<open>evm.go\<close>, \<^verbatim>\<open>interpreter.go\<close> and \<^verbatim>\<open>state.go\<close>. The stack is a list with its top
  first. The pool of integers only recycles allocations and is left out. Slices taken from memory
  are values: no modelled code writes to the memory while such a slice is read. The global
  \<^verbatim>\<open>bigZero\<close> is a component of the machine, because \<^verbatim>\<open>StaticCall\<close> hands it to a method that
  writes to it.
\<close>

datatype vmError =
    ErrOutOfGas_vm
  | ErrCodeStoreOutOfGas
  | ErrDepth
  | ErrInsufficientBalance
  | ErrContractAddressCollision
  | errWriteProtection
  | errReturnDataOutOfBounds
  | errExecutionReverted
  | errMaxCodeSizeExceeded
  | errGasUintOverflow
  | ErrCodeNotExists
  | ErrNoAccount
  | ErrContractValue
  | ErrInvalidOpcode byte
  | ErrStackUnderflow nat nat
  | ErrStackLimit nat
  | ErrInvalidJump byte int
  | ErrCoinbase
  | ErrDifficulty
  | errBadPairingInput
  | ErrCurvePoint
  | ErrStore chainError

type_synonym bitvec = bytes

record Contract =
  conCaller :: address
  conAddr :: address
  conChainId :: u32
  conCode :: bytes
  conHash :: hash
  conInput :: bytes
  conGas :: u64
  conValue :: int
  conDests :: "hash \<rightharpoonup> bitvec"
  conTxHash :: "hash option"

record Memory =
  memStore :: bytes
  memLastGas :: u64

record VmState =
  vsDb :: StoreDB
  vsRefund :: u64
  vsLogs :: "Log list"
  vsHeight :: u64

text \<open>The \<^verbatim>\<open>Context\<close>, the \<^verbatim>\<open>EVM\<close> and its one \<^verbatim>\<open>EVMInterpreter\<close>. A nil \<^verbatim>\<open>GetHash\<close> is \<open>None\<close>.\<close>

record EVM =
  evGetHash :: "(u64 \<Rightarrow> hash) option"
  evOrigin :: address
  evGasPrice :: int
  evGasLimit :: u64
  evBlockNumber :: int
  evTime :: int
  evTxHash :: "hash option"
  evState :: VmState
  evDepth :: int
  evCallGasTemp :: u64
  evChainId :: u32
  evReturnData :: bytes
  evReadOnly :: bool
  evBigZero :: int

record Machine =
  mPc :: u64
  mContract :: Contract
  mMem :: Memory
  mStack :: "int list"
  mEvm :: EVM

text \<open>The native functions: curve points are their marshalled form.\<close>

record Natives =
  nSha256 :: "bytes \<Rightarrow> bytes"
  nRipemd160 :: "bytes \<Rightarrow> bytes"
  nEcrecover :: "bytes \<Rightarrow> bytes \<Rightarrow> bytes option"
  nG1 :: "bytes \<Rightarrow> bytes option"
  nG1Add :: "bytes \<Rightarrow> bytes \<Rightarrow> bytes"
  nG1Mul :: "bytes \<Rightarrow> int \<Rightarrow> bytes"
  nG2 :: "bytes \<Rightarrow> bytes option"
  nPairing :: "bytes list \<Rightarrow> bytes list \<Rightarrow> bool"

text \<open>
  What the machine runs in: the store's environment, the natives, the option \<^verbatim>\<open>NoRecursion\<close>, and
  whether the binary codec reads an empty byte code back as a nil slice.
\<close>

record VmEnv =
  veEnv :: Env
  veNatives :: Natives
  veNoRecursion :: bool
  veNilCode :: bool

type_synonym 'a vmAction = "(Machine, vmError, 'a) action"
type_synonym 'a evmAction = "(EVM, vmError, 'a) action"
type_synonym 'a vsAction = "(VmState, vmError, 'a) action"

definition panicA :: "('s, 'e, 'a) action" where
  "panicA s = (Panic, s)"

definition readA :: "('s \<Rightarrow> 'a) \<Rightarrow> ('s, 'e, 'a) action" where
  "readA f s = (Ok (f s), s)"

definition modifyA :: "('s \<Rightarrow> 's) \<Rightarrow> ('s, 'e, unit) action" where
  "modifyA f s = (Ok (), f s)"

definition liftA :: "('e, 'a) res \<Rightarrow> ('s, 'e, 'a) action" where
  "liftA r s = (r, s)"

text \<open>An action on a part of the state.\<close>

definition zoomA :: "('s \<Rightarrow> 't) \<Rightarrow> ('t \<Rightarrow> 's \<Rightarrow> 's) \<Rightarrow> ('t, 'e, 'a) action \<Rightarrow> ('s, 'e, 'a) action" where
  "zoomA sel upd m s = (case m (sel s) of (r, t) \<Rightarrow> (r, upd t s))"

definition onState :: "'a vsAction \<Rightarrow> 'a evmAction" where
  "onState = zoomA evState (\<lambda>t e. e\<lparr>evState := t\<rparr>)"

definition onEvm :: "'a evmAction \<Rightarrow> 'a vmAction" where
  "onEvm = zoomA mEvm (\<lambda>t m. m\<lparr>mEvm := t\<rparr>)"

subsection \<open>The stack\<close>

definition push :: "int \<Rightarrow> unit vmAction" where
  "push d = modifyA (\<lambda>m. m\<lparr>mStack := d # mStack m\<rparr>)"

definition pop :: "int vmAction" where
  "pop m = (case mStack m of [] \<Rightarrow> (Panic, m) | x # xs \<Rightarrow> (Ok x, m\<lparr>mStack := xs\<rparr>))"

definition Back :: "nat \<Rightarrow> int vmAction" where
  "Back n m = (lift_panic (index_at (mStack m) n), m)"

definition peek :: "int vmAction" where
  "peek = Back 0"

text \<open>Writing to the integer that \<^verbatim>\<open>peek\<close> returned.\<close>

definition setTop :: "int \<Rightarrow> unit vmAction" where
  "setTop v = modifyA (\<lambda>m. m\<lparr>mStack := v # tl (mStack m)\<rparr>)"

definition swap :: "nat \<Rightarrow> unit vmAction" where
  "swap n m =
     (case (index_at (mStack m) (n - 1), index_at (mStack m) 0) of
        (Some x, Some y) \<Rightarrow> (Ok (), m\<lparr>mStack := (mStack m)[n - 1 := y, 0 := x]\<rparr>)
      | _ \<Rightarrow> (Panic, m))"

definition dup :: "nat \<Rightarrow> unit vmAction" where
  "dup n = bindA (Back (n - 1)) push"

definition require :: "nat \<Rightarrow> unit vmAction" where
  "require n m = (if length (mStack m) < n then Err (ErrStackUnderflow (length (mStack m)) n) else Ok (), m)"

definition StackLimit :: nat where "StackLimit = 1024"

definition makeStackFunc :: "nat \<Rightarrow> nat \<Rightarrow> unit vmAction" where
  "makeStackFunc pops pushes =
     bindA (require pops) (\<lambda>_ m.
       (if length (mStack m) + pushes > StackLimit + pops then Err (ErrStackLimit (length (mStack m))) else Ok (), m))"

definition makeDupStackFunc :: "nat \<Rightarrow> unit vmAction" where
  "makeDupStackFunc n = makeStackFunc n (n + 1)"

definition makeSwapStackFunc :: "nat \<Rightarrow> unit vmAction" where
  "makeSwapStackFunc n = makeStackFunc n n"

subsection \<open>The memory\<close>

text \<open>\<^verbatim>\<open>copy(dst[off:off+n], src)\<close> within bounds.\<close>

definition copyAt :: "bytes \<Rightarrow> nat \<Rightarrow> nat \<Rightarrow> bytes \<Rightarrow> bytes" where
  "copyAt dst off n src = take off dst @ take n src @ drop (off + min n (length src)) dst"

definition Set_m :: "u64 \<Rightarrow> u64 \<Rightarrow> bytes \<Rightarrow> Memory \<Rightarrow> Memory option" where
  "Set_m offset sz value mem =
     (if sz > 0 then
        if offset + sz > of_nat (length (memStore mem)) \<or> offset > offset + sz then None
        else Some (mem\<lparr>memStore := copyAt (memStore mem) (unat offset) (unat sz) value\<rparr>)
      else Some mem)"

definition Set32 :: "u64 \<Rightarrow> int \<Rightarrow> Memory \<Rightarrow> Memory option" where
  "Set32 offset val mem =
     (if offset + 32 > of_nat (length (memStore mem)) \<or> offset > offset + 32 then None
      else Some (mem\<lparr>memStore := copyAt (memStore mem) (unat offset) 32 (ReadBits val (replicate 32 0))\<rparr>))"

definition Resize :: "u64 \<Rightarrow> Memory \<Rightarrow> Memory" where
  "Resize sz mem =
     (if of_nat (length (memStore mem)) < sz
      then mem\<lparr>memStore := memStore mem @ replicate (unat (sz - of_nat (length (memStore mem)))) 0\<rparr>
      else mem)"

definition GetPtr :: "int \<Rightarrow> int \<Rightarrow> Memory \<Rightarrow> bytes option" where
  "GetPtr offset sz mem =
     (if sz = 0 then Some []
      else if int (length (memStore mem)) > offset then
        if offset < 0 \<or> sz < 0 then None else slice (memStore mem) (nat offset) (nat (offset + sz))
      else Some [])"

definition Get_m :: "int \<Rightarrow> int \<Rightarrow> Memory \<Rightarrow> bytes option" where
  "Get_m offset sz mem =
     (if sz = 0 then Some []
      else if int (length (memStore mem)) > offset then
        if sz < 0 \<or> offset < 0 then None else slice (memStore mem) (nat offset) (nat (offset + sz))
      else Some [])"

definition NewMemory :: Memory where
  "NewMemory = \<lparr>memStore = [], memLastGas = 0\<rparr>"

definition onMem :: "(Memory \<Rightarrow> Memory option) \<Rightarrow> unit vmAction" where
  "onMem f m = (case f (mMem m) of None \<Rightarrow> (Panic, m) | Some mem \<Rightarrow> (Ok (), m\<lparr>mMem := mem\<rparr>))"

definition readMem :: "(Memory \<Rightarrow> bytes option) \<Rightarrow> bytes vmAction" where
  "readMem f m = (lift_panic (f (mMem m)), m)"

subsection \<open>Opcodes\<close>

text \<open>
  The constants of \<^verbatim>\<open>opcodes.go\<close>, with an index for \<^verbatim>\<open>PUSH1\<close> to \<^verbatim>\<open>PUSH32\<close>, \<^verbatim>\<open>DUP1\<close> to \<^verbatim>\<open>DUP16\<close>,
  \<^verbatim>\<open>SWAP1\<close> to \<^verbatim>\<open>SWAP16\<close> and \<^verbatim>\<open>LOG0\<close> to \<^verbatim>\<open>LOG4\<close>; \<open>decodeOp\<close> reads a byte, \<open>None\<close> when it is none of them.
\<close>

datatype (plugins only: ) OpCode =
    STOP | ADD | MUL | SUB | DIV | SDIV | MOD | SMOD | ADDMOD | MULMOD | EXP | SIGNEXTEND
  | LT | GT | SLT | SGT | EQ | ISZERO | AND_op | OR_op | XOR_op | NOT_op | BYTE | SHL | SHR | SAR | SHA3
  | ADDRESS | BALANCE | ORIGIN | CALLER | CALLVALUE | CALLDATALOAD | CALLDATASIZE | CALLDATACOPY
  | CODESIZE | CODECOPY | GASPRICE | EXTCODESIZE | EXTCODECOPY | RETURNDATASIZE | RETURNDATACOPY | EXTCODEHASH
  | BLOCKHASH | COINBASE | TIMESTAMP | NUMBER | DIFFICULTY | GASLIMIT
  | POP | MLOAD | MSTORE | MSTORE8 | SLOAD | SSTORE | JUMP | JUMPI | PC | MSIZE | GAS | JUMPDEST
  | PUSH nat | DUP nat | SWAP nat | LOG nat
  | CREATE | CALL | CALLCODE | RETURN | DELEGATECALL | CREATE2 | STATICCALL | REVERT | SELFDESTRUCT

definition opcodes :: "(nat \<times> OpCode) list" where
  "opcodes =
     enumerate 0x00 [STOP, ADD, MUL, SUB, DIV, SDIV, MOD, SMOD, ADDMOD, MULMOD, EXP, SIGNEXTEND] @
     enumerate 0x10 [LT, GT, SLT, SGT, EQ, ISZERO, AND_op, OR_op, XOR_op, NOT_op, BYTE, SHL, SHR, SAR] @
     [(0x20, SHA3)] @
     enumerate 0x30 [ADDRESS, BALANCE, ORIGIN, CALLER, CALLVALUE, CALLDATALOAD, CALLDATASIZE, CALLDATACOPY,
       CODESIZE, CODECOPY, GASPRICE, EXTCODESIZE, EXTCODECOPY, RETURNDATASIZE, RETURNDATACOPY, EXTCODEHASH] @
     enumerate 0x40 [BLOCKHASH, COINBASE, TIMESTAMP, NUMBER, DIFFICULTY, GASLIMIT] @
     enumerate 0x50 [POP, MLOAD, MSTORE, MSTORE8, SLOAD, SSTORE, JUMP, JUMPI, PC, MSIZE, GAS, JUMPDEST] @
     enumerate 0xf0 [CREATE, CALL, CALLCODE, RETURN, DELEGATECALL, CREATE2] @
     [(0xfa, STATICCALL), (0xfd, REVERT), (0xff, SELFDESTRUCT)]"

definition decodeOp :: "byte \<Rightarrow> OpCode option" where
  "decodeOp b =
     (let n = unat b
      in if 0x60 \<le> n \<and> n \<le> 0x7f then Some (PUSH (n - 0x5f))
         else if 0x80 \<le> n \<and> n \<le> 0x8f then Some (DUP (n - 0x7f))
         else if 0x90 \<le> n \<and> n \<le> 0x9f then Some (SWAP (n - 0x8f))
         else if 0xa0 \<le> n \<and> n \<le> 0xa4 then Some (LOG (n - 0xa0))
         else map_of opcodes n)"

subsection \<open>Contracts\<close>

definition NewContract :: "address \<Rightarrow> hash option \<Rightarrow> u32 \<Rightarrow> u64 \<Rightarrow> int \<Rightarrow> (hash \<rightharpoonup> bitvec) option \<Rightarrow> Contract" where
  "NewContract callerAddr txh chainId gas value jumpdests =
     (case jumpdests of
        None \<Rightarrow> \<lparr>conCaller = callerAddr, conAddr = ZeroAddress, conChainId = chainId, conCode = [], conHash = ZeroHash,
                 conInput = [], conGas = gas, conValue = value, conDests = Map.empty, conTxHash = txh\<rparr>
      | Some d \<Rightarrow> \<lparr>conCaller = callerAddr, conAddr = ZeroAddress, conChainId = 0, conCode = [], conHash = ZeroHash,
                 conInput = [], conGas = gas, conValue = value, conDests = d, conTxHash = txh\<rparr>)"

definition GetByteCodeHash :: "Env \<Rightarrow> bytes \<Rightarrow> hash option" where
  "GetByteCodeHash env byteCode = Bytes2Hash (Some (keccak (crypto env) byteCode))"

definition SetCode :: "Env \<Rightarrow> address \<Rightarrow> bytes \<Rightarrow> Contract \<Rightarrow> Contract option" where
  "SetCode env contractAddr byteCode c =
     map_option (\<lambda>h. c\<lparr>conAddr := contractAddr, conCode := byteCode, conHash := h\<rparr>) (GetByteCodeHash env byteCode)"

definition GetByte :: "Contract \<Rightarrow> u64 \<Rightarrow> byte" where
  "GetByte c n = (if n < of_nat (length (conCode c)) then conCode c ! unat n else 0)"

definition GetOp :: "Contract \<Rightarrow> u64 \<Rightarrow> byte" where
  "GetOp c n = GetByte c n"

text \<open>\<^verbatim>\<open>UseGas\<close>: \<open>None\<close> when it returns false, and then nothing is taken.\<close>

definition UseGas_c :: "u64 \<Rightarrow> Contract \<Rightarrow> Contract option" where
  "UseGas_c gas c = (if conGas c < gas then None else Some (c\<lparr>conGas := conGas c - gas\<rparr>))"

end
