(* ===== verification/EvmJumps.thy ===== *)
theory EvmJumps
  imports EvmMachine
begin

section \<open>Jump destinations\<close>

text \<open>
  \<^verbatim>\<open>analysis.go\<close>: the bitmap of the bytes of a program that are arguments of \<^verbatim>\<open>PUSH\<close> instructions,
  kept per code hash, and the check that a jump goes to a \<^verbatim>\<open>JUMPDEST\<close> that is an
  instruction. The check agrees with the scan of the program from its start.
\<close>

subsection \<open>The bit vector\<close>

text \<open>Writing beyond the vector panics.\<close>

definition orAt :: "bitvec \<Rightarrow> nat \<Rightarrow> byte \<Rightarrow> bitvec option" where
  "orAt bits i b = (if i < length bits then Some (bits[i := bits ! i OR b]) else None)"

definition set_b :: "bitvec \<Rightarrow> nat \<Rightarrow> bitvec option" where
  "set_b bits pos = orAt bits (pos div 8) (drop_bit (pos mod 8) 0x80)"

definition set8 :: "bitvec \<Rightarrow> nat \<Rightarrow> bitvec option" where
  "set8 bits pos =
     Option.bind (orAt bits (pos div 8) (drop_bit (pos mod 8) 0xFF)) (\<lambda>b.
       orAt b (pos div 8 + 1) (NOT (drop_bit (pos mod 8) 0xFF)))"

definition codeSegment :: "bitvec \<Rightarrow> nat \<Rightarrow> bool option" where
  "codeSegment bits pos = map_option (\<lambda>b. b AND drop_bit (pos mod 8) 0x80 = 0) (index_at bits (pos div 8))"

subsection \<open>\<^verbatim>\<open>codeBitmap\<close>\<close>

function setBits8 :: "nat \<Rightarrow> nat \<Rightarrow> bitvec \<Rightarrow> (nat \<times> nat \<times> bitvec) option" where
  "setBits8 numbits pc bits =
     (if numbits \<ge> 8 then Option.bind (set8 bits pc) (setBits8 (numbits - 8) (pc + 8))
      else Some (numbits, pc, bits))"
  by pat_completeness auto
termination by (relation "measure fst") auto

declare setBits8.simps [simp del]

fun setBits :: "nat \<Rightarrow> nat \<Rightarrow> bitvec \<Rightarrow> (nat \<times> bitvec) option" where
  "setBits 0 pc bits = Some (pc, bits)"
| "setBits (Suc numbits) pc bits = Option.bind (set_b bits pc) (setBits numbits (pc + 1))"

definition bitmapStep :: "bytes \<Rightarrow> nat \<Rightarrow> bitvec \<Rightarrow> (nat \<times> bitvec) option" where
  "bitmapStep code pc bits =
     (let op = code ! pc
      in if 0x60 \<le> op \<and> op \<le> 0x7f then
           Option.bind (setBits8 (unat (op - 0x60 + 1)) (pc + 1) bits) (\<lambda>(numbits, pc', b). setBits numbits pc' b)
         else Some (pc + 1, bits))"

partial_function (option) bitmapLoop :: "bytes \<Rightarrow> nat \<Rightarrow> bitvec \<Rightarrow> bitvec option" where
  "bitmapLoop code pc bits =
     (if pc < length code then Option.bind (bitmapStep code pc bits) (\<lambda>(pc', b). bitmapLoop code pc' b)
      else Some bits)"

definition codeBitmap :: "bytes \<Rightarrow> bitvec option" where
  "codeBitmap code = bitmapLoop code 0 (replicate (length code div 8 + 1 + 4) 0)"

text \<open>\<^verbatim>\<open>has\<close> returns the answer and the table with the bitmap it may have computed.\<close>

definition has :: "(hash \<rightharpoonup> bitvec) \<Rightarrow> hash \<Rightarrow> bytes \<Rightarrow> int \<Rightarrow> (bool \<times> (hash \<rightharpoonup> bitvec)) option" where
  "has d codehash code dest =
     (let udest = bigUint64 dest
      in if BitLen dest \<ge> 63 \<or> udest \<ge> of_nat (length code) then Some (False, d)
         else Option.bind (case d codehash of Some m \<Rightarrow> Some (m, d)
                            | None \<Rightarrow> map_option (\<lambda>m. (m, d(codehash \<mapsto> m))) (codeBitmap code)) (\<lambda>(m, d').
              Option.bind (codeSegment m (unat udest)) (\<lambda>seg.
                Some (decodeOp (code ! unat udest) = Some JUMPDEST \<and> seg, d'))))"

subsection \<open>The scan of a program\<close>

definition pushLen :: "byte \<Rightarrow> nat" where
  "pushLen b = (case decodeOp b of Some (PUSH n) \<Rightarrow> n | _ \<Rightarrow> 0)"

text \<open>The positions at which the instructions of a program start.\<close>

inductive boundary :: "bytes \<Rightarrow> nat \<Rightarrow> bool" for code where
  start: "boundary code 0"
| step: "boundary code pc \<Longrightarrow> pc < length code \<Longrightarrow> boundary code (pc + 1 + pushLen (code ! pc))"

text \<open>No instruction starts inside the argument of a \<^verbatim>\<open>PUSH\<close>.\<close>

lemma boundary_order:
  assumes "boundary code b" "boundary code a" "a < b"
  shows "a + 1 + pushLen (code ! a) \<le> b"
  using assms
proof (induction arbitrary: a)
  case (step q)
  have no: "\<not> (q < c \<and> c < q + 1 + pushLen (code ! q))" if "boundary code c" for c
    using that
  proof induction
    case (step r)
    then show ?case using step.hyps \<open>\<And>a. boundary code a \<Longrightarrow> a < q \<Longrightarrow> a + 1 + pushLen (code ! a) \<le> q\<close>
      by (cases r q rule: linorder_cases) fastforce+
  qed simp
  show ?case using step no [of a] by (cases a q rule: linorder_cases) fastforce+
qed simp

subsection \<open>Correctness of the bitmap\<close>

definition marked :: "bitvec \<Rightarrow> nat \<Rightarrow> bool" where
  "marked bits p \<longleftrightarrow> bit (bits ! (p div 8)) (7 - p mod 8)"

lemma bit_mark: "k < 8 \<Longrightarrow> bit (drop_bit k (0x80 :: byte)) n \<longleftrightarrow> n = 7 - k"
proof -
  have "(0x80 :: byte) = 2 ^ 7" by simp
  then have "bit (0x80 :: byte) i \<longleftrightarrow> i = 7" for i unfolding \<open>0x80 = 2 ^ 7\<close> by (subst bit_exp_iff) auto
  moreover assume "k < 8"
  then have "k + n = 7 \<longleftrightarrow> n = 7 - k" by arith
  ultimately show ?thesis by (simp only: bit_drop_bit_eq comp_apply)
qed

lemma bit_mark7: "k < 8 \<Longrightarrow> j < 8 \<Longrightarrow> bit (drop_bit k (0x80 :: byte)) (7 - j) \<longleftrightarrow> j = k"
  by (simp only: bit_mark) arith

lemma codeSegment_marked:
  assumes "p div 8 < length bits"
  shows "codeSegment bits p = Some (\<not> marked bits p)"
proof -
  have "(b AND drop_bit k 0x80 = 0) = (\<not> bit b (7 - k))" if k: "k < 8" for b :: byte and k :: nat
  proof -
    have "7 - k < 8" by simp
    moreover have "(b AND drop_bit k 0x80 = 0) \<longleftrightarrow> (\<forall>n<8. bit b n \<longrightarrow> n \<noteq> 7 - k)"
      unfolding bit_eq_iff [of "b AND drop_bit k 0x80"] bit_and_iff bit_mark [OF k] by simp
    ultimately show ?thesis by blast
  qed
  then show ?thesis using assms by (simp add: codeSegment_def index_at_def marked_def)
qed

lemma marked_orAt:
  assumes "orAt bits i b = Some bits'" "p div 8 < length bits"
  shows "marked bits' p \<longleftrightarrow> marked bits p \<or> (p div 8 = i \<and> bit b (7 - p mod 8))"
  using assms by (auto simp: orAt_def marked_def bit_or_iff nth_list_update split: if_splits)

lemma orAt_length: "orAt bits i b = Some bits' \<Longrightarrow> length bits' = length bits"
  by (auto simp: orAt_def split: if_splits)

lemma marked_set_b:
  assumes "pos div 8 < length bits"
  shows "\<exists>bits'. set_b bits pos = Some bits' \<and> length bits' = length bits \<and>
    (\<forall>p. p div 8 < length bits \<longrightarrow> (marked bits' p \<longleftrightarrow> marked bits p \<or> p = pos))"
proof -
  have b: "bit (drop_bit (pos mod 8) (0x80 :: byte)) (7 - p mod 8) \<longleftrightarrow> p mod 8 = pos mod 8" for p
    by (rule bit_mark7) simp_all
  obtain bits' where o: "orAt bits (pos div 8) (drop_bit (pos mod 8) 0x80) = Some bits'"
    using assms by (simp add: orAt_def)
  have "p = pos \<longleftrightarrow> p div 8 = pos div 8 \<and> p mod 8 = pos mod 8" for p
    by (metis div_mult_mod_eq)
  then show ?thesis using o marked_orAt [OF o] orAt_length [OF o] b by (auto simp: set_b_def)
qed

lemma marked_set8:
  assumes "pos div 8 + 1 < length bits"
  shows "\<exists>bits'. set8 bits pos = Some bits' \<and> length bits' = length bits \<and>
    (\<forall>p. p div 8 < length bits \<longrightarrow> (marked bits' p \<longleftrightarrow> marked bits p \<or> (pos \<le> p \<and> p < pos + 8)))"
proof -
  have ff: "(0xFF :: byte) = - 1" by simp
  have b: "bit (drop_bit (pos mod 8) (0xFF :: byte)) (7 - p mod 8) \<longleftrightarrow> pos mod 8 \<le> p mod 8"
    "bit (NOT (drop_bit (pos mod 8) (0xFF :: byte))) (7 - p mod 8) \<longleftrightarrow> p mod 8 < pos mod 8" for p
    unfolding ff bit_not_iff bit_drop_bit_eq bit_minus_1_iff comp_apply possible_bit_word
    using mod_less_divisor [of 8 p] mod_less_divisor [of 8 pos] by (auto simp del: mod_less_divisor)
  obtain b1 where b1: "orAt bits (pos div 8) (drop_bit (pos mod 8) 0xFF) = Some b1"
    using assms by (simp add: orAt_def)
  obtain b2 where b2: "orAt b1 (pos div 8 + 1) (NOT (drop_bit (pos mod 8) 0xFF)) = Some b2"
    using assms orAt_length [OF b1] by (simp add: orAt_def)
  have ar: "(8 * c + d \<le> 8 * a + b \<and> 8 * a + b < 8 * c + d + 8) \<longleftrightarrow> (a = c \<and> d \<le> b) \<or> (a = c + 1 \<and> b < d)"
    if "b < 8" "d < 8" for a b c d :: nat using that by arith
  have rng: "(pos \<le> p \<and> p < pos + 8) \<longleftrightarrow>
      (p div 8 = pos div 8 \<and> pos mod 8 \<le> p mod 8) \<or> (p div 8 = pos div 8 + 1 \<and> p mod 8 < pos mod 8)" for p
    using ar [of "p mod 8" "pos mod 8" "pos div 8" "p div 8"] by simp
  have "marked b2 p \<longleftrightarrow> marked bits p \<or> (pos \<le> p \<and> p < pos + 8)" if p: "p div 8 < length bits" for p
  proof -
    have "p div 8 < length b1" using p orAt_length [OF b1] by simp
    then show ?thesis unfolding marked_orAt [OF b2 \<open>p div 8 < length b1\<close>] marked_orAt [OF b1 p] b rng by blast
  qed
  moreover have "set8 bits pos = Some b2" unfolding set8_def b1 Option.bind.simps b2 ..
  moreover have "length b2 = length bits" using orAt_length [OF b1] orAt_length [OF b2] by simp
  ultimately show ?thesis by blast
qed

text \<open>What one of the loops does to the vector: it marks the positions from \<open>pc\<close> up to \<open>pc'\<close>.\<close>

definition marks :: "bitvec \<Rightarrow> nat \<Rightarrow> nat \<Rightarrow> bitvec \<Rightarrow> bool" where
  "marks bits pc pc' bits' \<longleftrightarrow> length bits' = length bits \<and>
     (\<forall>p. p div 8 < length bits \<longrightarrow> (marked bits' p \<longleftrightarrow> marked bits p \<or> (pc \<le> p \<and> p < pc')))"

lemma marks_trans: "marks b pc pc' b' \<Longrightarrow> marks b' pc' pc'' b'' \<Longrightarrow> pc \<le> pc' \<Longrightarrow> pc' \<le> pc'' \<Longrightarrow> marks b pc pc'' b''"
  unfolding marks_def by (metis le_less_trans less_le_trans not_le order_trans)

lemma marks_refl: "marks bits pc pc bits"
  by (auto simp: marks_def)

lemma setBits_marks:
  "pc + n \<le> 8 * length bits \<Longrightarrow> \<exists>bits'. setBits n pc bits = Some (pc + n, bits') \<and> marks bits pc (pc + n) bits'"
proof (induction n arbitrary: pc bits)
  case 0
  then show ?case by (simp add: marks_refl)
next
  case (Suc n)
  then have "pc div 8 < length bits" by (simp add: div_less_iff_less_mult)
  moreover have "(pc \<le> p \<and> p < pc + 1) \<longleftrightarrow> p = pc" for p by auto
  ultimately obtain b1 where b1: "set_b bits pc = Some b1" "marks bits pc (pc + 1) b1"
    using marked_set_b [of pc bits] unfolding marks_def by (simp only:) blast
  then have "pc + 1 + n \<le> 8 * length b1" using Suc.prems by (simp add: marks_def)
  then obtain b2 where "setBits n (pc + 1) b1 = Some (pc + 1 + n, b2)" "marks b1 (pc + 1) (pc + 1 + n) b2"
    using Suc.IH by blast
  then show ?case using b1 marks_trans [OF b1(2), of "pc + 1 + n" b2] by simp
qed

lemma setBits8_marks:
  "pc + n < 8 * length bits \<Longrightarrow> \<exists>k pc' bits'. setBits8 n pc bits = Some (k, pc', bits') \<and>
     pc \<le> pc' \<and> pc' + k = pc + n \<and> marks bits pc pc' bits'"
proof (induction n pc bits rule: setBits8.induct)
  case (1 n pc bits)
  show ?case
  proof (cases "n \<ge> 8")
    case True
    then have "pc div 8 + 1 < length bits" using "1.prems" by linarith
    then obtain b1 where b1: "set8 bits pc = Some b1" "marks bits pc (pc + 8) b1"
      using marked_set8 [of pc bits] by (auto simp: marks_def)
    then have "pc + 8 + (n - 8) < 8 * length b1" using "1.prems" True by (simp add: marks_def)
    then obtain k pc' b2 where "setBits8 (n - 8) (pc + 8) b1 = Some (k, pc', b2)"
      "pc + 8 \<le> pc'" "pc' + k = pc + 8 + (n - 8)" "marks b1 (pc + 8) pc' b2"
      using "1.IH" [OF True] b1(1) by blast
    then show ?thesis using True b1 marks_trans [OF b1(2), of pc' b2] by (subst setBits8.simps) simp
  next
    case False
    then show ?thesis by (subst setBits8.simps) (simp add: marks_refl)
  qed
qed

lemma pushLen_range:
  "pushLen op = (if 0x60 \<le> op \<and> op \<le> 0x7f then unat (op - 0x60 + 1) else 0)"
proof (cases "0x60 \<le> op \<and> op \<le> 0x7f")
  case True
  then have r: "0x60 \<le> unat op" "unat op \<le> 0x7f" by (simp_all add: word_le_nat_alt)
  then have "unat (op - 0x60 + 1) = unat op - 0x60 + 1"
    by (simp add: unat_add_no_wrap unat_sub word_le_nat_alt)
  then show ?thesis using True r by (simp add: pushLen_def decodeOp_def Let_def)
next
  case False
  have "map_of opcodes n \<noteq> Some (PUSH k)" for n k
    by (rule notI, drule map_of_SomeD) (simp add: opcodes_def)
  then show ?thesis using False
    by (auto simp: pushLen_def decodeOp_def Let_def word_le_nat_alt split: option.splits OpCode.splits)
qed

text \<open>The vector at the head of the loop: behind \<open>pc\<close> it marks what is not an instruction.\<close>

definition scanned :: "bytes \<Rightarrow> nat \<Rightarrow> bitvec \<Rightarrow> bool" where
  "scanned code pc bits \<longleftrightarrow> boundary code pc \<and> length bits = length code div 8 + 5 \<and>
     (\<forall>p. p div 8 < length bits \<longrightarrow> (marked bits p \<longleftrightarrow> p < pc \<and> \<not> boundary code p))"

lemma bitmapStep_scanned:
  assumes s: "scanned code pc bits" and pc: "pc < length code"
  shows "\<exists>pc' bits'. bitmapStep code pc bits = Some (pc', bits') \<and> pc < pc' \<and> scanned code pc' bits'"
proof -
  let ?n = "pushLen (code ! pc)"
  have "?n \<le> 32"
  proof -
    have "unat (code ! pc - 0x60 + 1) \<le> 32" if "0x60 \<le> code ! pc" "code ! pc \<le> 0x7f"
      using that by (simp add: unat_add_no_wrap unat_sub word_le_nat_alt)
    then show ?thesis by (simp add: pushLen_range)
  qed
  then have fits: "pc + 1 + ?n < 8 * length bits" using s pc by (simp add: scanned_def)
  have "\<exists>bits'. bitmapStep code pc bits = Some (pc + 1 + ?n, bits') \<and> marks bits (pc + 1) (pc + 1 + ?n) bits'"
  proof (cases "0x60 \<le> code ! pc \<and> code ! pc \<le> 0x7f")
    case True
    then have n: "unat (code ! pc - 0x5f) = ?n" by (simp add: pushLen_range)
    obtain k pc1 b1 where b1: "setBits8 ?n (pc + 1) bits = Some (k, pc1, b1)" "pc + 1 \<le> pc1"
      "pc1 + k = pc + 1 + ?n" "marks bits (pc + 1) pc1 b1"
      using setBits8_marks [OF fits] by blast
    then have "pc1 + k \<le> 8 * length b1" using fits by (simp add: marks_def)
    then obtain b2 where "setBits k pc1 b1 = Some (pc1 + k, b2)" "marks b1 pc1 (pc1 + k) b2"
      using setBits_marks by blast
    then show ?thesis using True b1 marks_trans [OF b1(4), of "pc1 + k" b2]
      by (simp add: bitmapStep_def Let_def n)
  next
    case False
    then show ?thesis by (auto simp: bitmapStep_def Let_def pushLen_range marks_refl)
  qed
  then obtain b' where b': "bitmapStep code pc bits = Some (pc + 1 + ?n, b')" "marks bits (pc + 1) (pc + 1 + ?n) b'"
    by blast
  have bd: "boundary code pc" using s by (simp add: scanned_def)
  have "marked b' p \<longleftrightarrow> p < pc + 1 + ?n \<and> \<not> boundary code p" if "p div 8 < length bits" for p
  proof -
    have "marked b' p \<longleftrightarrow> (p < pc \<and> \<not> boundary code p) \<or> (pc + 1 \<le> p \<and> p < pc + 1 + ?n)"
      using that s b'(2) by (simp add: scanned_def marks_def)
    moreover have "\<not> boundary code p" if "pc + 1 \<le> p" "p < pc + 1 + ?n"
      using boundary_order [of code p pc] bd that by fastforce
    moreover have "boundary code p" if "p = pc" using that bd by simp
    ultimately show ?thesis by (metis Suc_eq_plus1 not_less_eq not_le less_trans linorder_neqE_nat less_Suc_eq_le trans_less_add1)
  qed
  moreover have "boundary code (pc + 1 + ?n)" using bd pc by (rule boundary.step)
  ultimately show ?thesis using b' s by (simp add: scanned_def marks_def)
qed

lemma bitmapLoop_scanned:
  "scanned code pc bits \<Longrightarrow> \<exists>bits'. bitmapLoop code pc bits = Some bits' \<and> length bits' = length bits \<and>
     (\<forall>p < length code. marked bits' p \<longleftrightarrow> \<not> boundary code p)"
proof (induction "length code - pc" arbitrary: pc bits rule: less_induct)
  case less
  show ?case
  proof (cases "pc < length code")
    case True
    then obtain pc' b where b: "bitmapStep code pc bits = Some (pc', b)" "pc < pc'" "scanned code pc' b"
      using bitmapStep_scanned [OF less.prems] by blast
    then show ?thesis using less.hyps [of pc' b] True less.prems by (subst bitmapLoop.simps) (simp add: scanned_def)
  next
    case False
    then show ?thesis using less.prems by (subst bitmapLoop.simps) (auto simp: scanned_def)
  qed
qed

lemma codeBitmap_boundary:
  "\<exists>bits. codeBitmap code = Some bits \<and> length bits = length code div 8 + 5 \<and>
     (\<forall>p < length code. marked bits p \<longleftrightarrow> \<not> boundary code p)"
proof -
  have "scanned code 0 (replicate (length code div 8 + 1 + 4) 0)"
    by (auto simp: scanned_def marked_def boundary.start)
  then show ?thesis using bitmapLoop_scanned [of code 0] by (simp add: codeBitmap_def scanned_def)
qed

subsection \<open>The check of a jump\<close>

text \<open>The table of a contract holds the bitmap of its code under its code hash, or nothing.\<close>

definition destsOK :: "(hash \<rightharpoonup> bitvec) \<Rightarrow> hash \<Rightarrow> bytes \<Rightarrow> bool" where
  "destsOK d codehash code \<longleftrightarrow> (\<forall>m. d codehash = Some m \<longrightarrow> codeBitmap code = Some m)"

lemma has_boundary:
  assumes "destsOK d codehash code" "0 \<le> dest" "length code < 2 ^ 62"
  shows "\<exists>d'. has d codehash code dest =
      Some (dest < int (length code) \<and> boundary code (nat dest) \<and> code ! nat dest = 0x5b, d') \<and>
    destsOK d' codehash code"
proof -
  obtain bits where bits: "codeBitmap code = Some bits" "length bits = length code div 8 + 5"
    "\<forall>p < length code. marked bits p \<longleftrightarrow> \<not> boundary code p"
    using codeBitmap_boundary by blast
  have jd: "decodeOp b = Some JUMPDEST \<longleftrightarrow> b = 0x5b" for b
  proof
    assume "decodeOp b = Some JUMPDEST"
    then have "map_of opcodes (unat b) = Some JUMPDEST" by (simp add: decodeOp_def Let_def split: if_splits)
    then have "unat b = 0x5b" using map_of_SomeD [of opcodes "unat b" JUMPDEST] by (simp add: opcodes_def)
    then show "b = 0x5b" by (simp add: word_unat_eq_iff)
  qed (simp add: decodeOp_def opcodes_def)
  have len: "unat (of_nat (length code) :: u64) = length code"
    using assms(3) by (simp add: unsigned_of_nat take_bit_nat_eq_self)
  show ?thesis
  proof (cases "dest < int (length code)")
    case False
    have "BitLen dest \<ge> 63 \<or> bigUint64 dest \<ge> of_nat (length code)"
    proof (cases "dest < 2 ^ 62")
      case True
      then have "unat (bigUint64 dest) = nat dest" using assms(2) by (simp add: unat_bigUint64)
      moreover have "length code \<le> nat dest" using False by linarith
      ultimately show ?thesis using len by (simp add: word_le_nat_alt)
    next
      case False
      then show ?thesis using BitLen_le [of dest 62] assms(2) by simp
    qed
    then show ?thesis using False assms(1) by (simp add: has_def Let_def)
  next
    case True
    have "\<not> BitLen dest \<ge> 63" using BitLen_le [of dest 62] True assms by simp
    moreover have u: "unat (bigUint64 dest) = nat dest" using True assms by (simp add: unat_bigUint64)
    moreover have "\<not> bigUint64 dest \<ge> of_nat (length code)"
      using True u len assms(2) by (simp add: word_le_nat_alt)
    moreover have "(case d codehash of Some m \<Rightarrow> Some (m, d)
        | None \<Rightarrow> map_option (\<lambda>m. (m, d(codehash \<mapsto> m))) (codeBitmap code)) = Some (bits, d(codehash \<mapsto> bits))"
      using assms(1) bits(1) by (auto simp: destsOK_def split: option.splits)
    moreover have "codeSegment bits (nat dest) = Some (boundary code (nat dest))"
    proof -
      have "nat dest < length code" using True assms(2) by simp
      moreover have "nat dest div 8 < length bits" using \<open>nat dest < length code\<close> bits(2) div_le_mono [of "nat dest" "length code" 8] by simp
      ultimately show ?thesis using bits(3) codeSegment_marked by simp
    qed
    ultimately show ?thesis using True bits(1) by (auto simp: has_def Let_def jd destsOK_def)
  qed
qed

text \<open>
  C3. A jump is accepted exactly when its destination is an instruction of the program and that
  instruction is a \<^verbatim>\<open>JUMPDEST\<close>: the bitmap, which marks eight bytes at a time, agrees with the scan of
  the program instruction by instruction. The check never panics and keeps the table correct.
\<close>

theorem has_correct:
  assumes "destsOK d codehash code" "0 \<le> dest" "length code < 2 ^ 62"
  shows "\<exists>d'. has d codehash code dest =
      Some (dest < int (length code) \<and> boundary code (nat dest) \<and> code ! nat dest = 0x5b, d') \<and>
    destsOK d' codehash code"
  using assms by (rule has_boundary)

text \<open>A program with a \<^verbatim>\<open>JUMPDEST\<close> byte inside the argument of a \<^verbatim>\<open>PUSH\<close> and a real one behind it.\<close>

definition jumpCode :: bytes where
  "jumpCode = [0x60, 0x5b, 0x5b, 0x00]"

theorem has_correct_witness:
  "(\<exists>d'. has Map.empty [] jumpCode 2 = Some (True, d')) \<and> (\<exists>d'. has Map.empty [] jumpCode 1 = Some (False, d'))"
proof -
  have p: "pushLen 0x60 = 1" by (simp add: pushLen_range)
  have b2: "boundary jumpCode 2"
    using boundary.step [OF boundary.start, of jumpCode] by (simp add: jumpCode_def p numeral_2_eq_2)
  have "\<not> boundary jumpCode 1"
    using boundary_order [of jumpCode 1 0] by (auto simp: jumpCode_def p boundary.start)
  moreover have "destsOK Map.empty [] jumpCode" by (simp add: destsOK_def)
  ultimately show ?thesis
    using has_correct [of Map.empty "[]" jumpCode 2] has_correct [of Map.empty "[]" jumpCode 1] b2
    by (simp add: jumpCode_def) blast
qed

end
