(* ===== verification/EvmState.thy ===== *)
theory EvmState
  imports EvmJumps
begin

section \<open>The state and the gas of the virtual machine\<close>

text \<open>
  \<^verbatim>\<open>pkgs/evm/vm/state.go\<close>, \<^verbatim>\<open>gas.go\<close>, \<^verbatim>\<open>gas_table.go\<close> and \<^verbatim>\<open>memory_table.go\<close>. The state is the store of the
  chain beside a refund counter and the logs. A gas function may write to the memory's
  \<^verbatim>\<open>lastGasCost\<close>, to \<^verbatim>\<open>CallGasTemp\<close> and to the refund counter, and so is an action on the machine.
\<close>

subsection \<open>\<^verbatim>\<open>state.go\<close>\<close>

definition onDb :: "'a storeAction \<Rightarrow> 'a vsAction" where
  "onDb m s =
     (case m (vsDb s) of
        (Ok a, d) \<Rightarrow> (Ok a, s\<lparr>vsDb := d\<rparr>)
      | (Err e, d) \<Rightarrow> (Err (ErrStore e), s\<lparr>vsDb := d\<rparr>)
      | (Panic, d) \<Rightarrow> (Panic, s\<lparr>vsDb := d\<rparr>))"

definition NewState :: "StoreDB \<Rightarrow> u64 \<Rightarrow> VmState" where
  "NewState database height = \<lparr>vsDb = database, vsRefund = 0, vsLogs = [], vsHeight = height\<rparr>"

text \<open>The store's \<^verbatim>\<open>Empty\<close> never returns: the stack of the process overflows, which ends it.\<close>

definition Empty_v :: "address \<Rightarrow> bool vsAction" where
  "Empty_v addr = liftA (lift_panic (Empty_st addr))"

definition HasSuicided :: "address \<Rightarrow> bool vsAction" where
  "HasSuicided addr = Empty_v addr"

definition CreateContractAccount :: "Env \<Rightarrow> address \<Rightarrow> bytes \<Rightarrow> unit vsAction" where
  "CreateContractAccount env addr byteCode = onDb (PutByteCode env addr byteCode)"

definition GetBalance_v :: "Env \<Rightarrow> address \<Rightarrow> int option vsAction" where
  "GetBalance_v env addr s = onDb (GetBalance env addr (vsHeight s)) s"

text \<open>\<^verbatim>\<open>new(big.Int).Sub(balance, amount)\<close> panics on a nil balance.\<close>

definition SubBalance_v :: "Env \<Rightarrow> address \<Rightarrow> int \<Rightarrow> unit vsAction" where
  "SubBalance_v env addr amount =
     bindA (GetBalance_v env addr) (\<lambda>b.
       case b of
         None \<Rightarrow> panicA
       | Some balance \<Rightarrow> (\<lambda>s. onDb (PutBalance env addr (vsHeight s) (balance - amount)) s))"

text \<open>
  \<^verbatim>\<open>AddBalance\<close> of the store adds the credit it pays out to the caller's amount before it adds
  the amount to the account: the result has what the caller's integer holds afterwards, also when an error is returned.
\<close>

definition AddBalance_m :: "Env \<Rightarrow> address \<Rightarrow> u64 \<Rightarrow> int \<Rightarrow> (int \<times> chainError option) storeAction" where
  "AddBalance_m env addr height amount =
     bindA (tryA GetChangeInterval) (\<lambda>r1.
       case r1 of
         Ok ci \<Rightarrow>
           bindA (tryA (CancelCreditToBalance env addr height ci)) (\<lambda>r2.
             case r2 of
               Ok voteCredit \<Rightarrow>
                 bindA (tryA (AddBalance_a env addr (amount + voteCredit))) (\<lambda>r3.
                   returnA (amount + voteCredit, case r3 of Err e \<Rightarrow> Some e | _ \<Rightarrow> None))
             | Err e \<Rightarrow> returnA (amount, Some e)
             | Panic \<Rightarrow> panicA)
       | Err e \<Rightarrow> returnA (amount, Some e)
       | Panic \<Rightarrow> panicA)"

definition AddBalance_v :: "Env \<Rightarrow> address \<Rightarrow> int \<Rightarrow> (int \<times> chainError option) vsAction" where
  "AddBalance_v env addr amount s = onDb (AddBalance_m env addr (vsHeight s) amount) s"

definition SetNonce_v :: "Env \<Rightarrow> address \<Rightarrow> u64 \<Rightarrow> unit vsAction" where
  "SetNonce_v env addr nonce = onDb (PutNonce env addr nonce)"

definition GetNonce_v :: "Env \<Rightarrow> address \<Rightarrow> u64 vsAction" where
  "GetNonce_v env addr = onDb (GetNonce env addr)"

definition Suicide_v :: "Env \<Rightarrow> address \<Rightarrow> unit vsAction" where
  "Suicide_v env addr = onDb (DeleteStorage env addr)"

definition GetByteCode_v :: "VmEnv \<Rightarrow> address \<Rightarrow> bytes option vsAction" where
  "GetByteCode_v ve addr =
     bindA (onDb (lookupStorage (veEnv ve) addr)) (\<lambda>st.
       returnA (case st of
          None \<Rightarrow> None
        | Some x \<Rightarrow> if sByteCode x = [] \<and> veNilCode ve then None else Some (sByteCode x)))"

text \<open>The length of a nil slice is 0 and ranging over it does nothing.\<close>

definition sliceOf :: "bytes option \<Rightarrow> bytes" where
  "sliceOf x = (case x of None \<Rightarrow> [] | Some b \<Rightarrow> b)"

definition GetCodeSize :: "VmEnv \<Rightarrow> address \<Rightarrow> nat vsAction" where
  "GetCodeSize ve addr = bindA (GetByteCode_v ve addr) (\<lambda>c. returnA (length (sliceOf c)))"

definition GetCodeHash_v :: "Env \<Rightarrow> address \<Rightarrow> hash vsAction" where
  "GetCodeHash_v env addr = onDb (GetCodeHash env addr)"

definition SetByteCode :: "Env \<Rightarrow> address \<Rightarrow> bytes \<Rightarrow> unit vsAction" where
  "SetByteCode env addr byteCode = onDb (PutByteCode env addr byteCode)"

definition GetLogs :: "hash \<Rightarrow> VmState \<Rightarrow> Log list" where
  "GetLogs h s = filter (\<lambda>log. logTxHash log = h) (vsLogs s)"

definition AddLog :: "address \<Rightarrow> hash \<Rightarrow> bytes \<Rightarrow> hash list \<Rightarrow> u64 \<Rightarrow> unit vsAction" where
  "AddLog contractAddr h data topics blockNumber =
     modifyA (\<lambda>s. s\<lparr>vsLogs := vsLogs s @ [\<lparr>logTxType = 0, logAddress = contractAddr, logTopics = topics,
       logData = data, logTxHash = h, logHeight = blockNumber\<rparr>]\<rparr>)"

definition AddRefund :: "u64 \<Rightarrow> unit vsAction" where
  "AddRefund gas = modifyA (\<lambda>s. s\<lparr>vsRefund := vsRefund s + gas\<rparr>)"

definition SubRefund :: "u64 \<Rightarrow> unit vsAction" where
  "SubRefund gas s = (if gas > vsRefund s then (Panic, s) else (Ok (), s\<lparr>vsRefund := vsRefund s - gas\<rparr>))"

text \<open>\<^verbatim>\<open>Load\<close> drops the error of the store.\<close>

definition Load :: "Env \<Rightarrow> int \<Rightarrow> bytes option vsAction" where
  "Load env x =
     bindA (tryA (onDb (Get_db (crypto env) (bigBytes x)))) (\<lambda>r.
       returnA (case r of Ok v \<Rightarrow> v | _ \<Rightarrow> None))"

definition Store_v :: "Env \<Rightarrow> int \<Rightarrow> int \<Rightarrow> unit vsAction" where
  "Store_v env x y = onDb (Put_db (crypto env) (bigBytes x) (bigBytes y))"

definition Exist :: "VmEnv \<Rightarrow> address \<Rightarrow> bool vsAction" where
  "Exist ve addr = bindA (GetByteCode_v ve addr) (\<lambda>c. returnA (length (sliceOf c) > 0))"

definition BigToAddress :: "int \<Rightarrow> address" where
  "BigToAddress b = BytesToAddress (bigBytes b)"

subsection \<open>The sizes of \<^verbatim>\<open>memory_table.go\<close>\<close>

definition memorySpan :: "nat \<Rightarrow> nat \<Rightarrow> int vmAction" where
  "memorySpan i j = bindA (Back i) (\<lambda>off. bindA (Back j) (\<lambda>l. returnA (CalcMemSize off l)))"

definition memorySha3 :: "int vmAction" where "memorySha3 = memorySpan 0 1"
definition memoryCallDataCopy :: "int vmAction" where "memoryCallDataCopy = memorySpan 0 2"
definition memoryReturnDataCopy :: "int vmAction" where "memoryReturnDataCopy = memorySpan 0 2"
definition memoryCodeCopy :: "int vmAction" where "memoryCodeCopy = memorySpan 0 2"
definition memoryExtCodeCopy :: "int vmAction" where "memoryExtCodeCopy = memorySpan 1 3"
definition memoryMLoad :: "int vmAction" where
  "memoryMLoad = bindA (Back 0) (\<lambda>off. returnA (CalcMemSize off 32))"
definition memoryMStore8 :: "int vmAction" where
  "memoryMStore8 = bindA (Back 0) (\<lambda>off. returnA (CalcMemSize off 1))"
definition memoryMStore :: "int vmAction" where
  "memoryMStore = bindA (Back 0) (\<lambda>off. returnA (CalcMemSize off 32))"
definition memoryCreate :: "int vmAction" where "memoryCreate = memorySpan 1 2"
definition memoryCreate2 :: "int vmAction" where "memoryCreate2 = memorySpan 1 2"
definition memoryCall :: "int vmAction" where
  "memoryCall = bindA (memorySpan 5 6) (\<lambda>x. bindA (memorySpan 3 4) (\<lambda>y. returnA (BigMax x y)))"
definition memoryDelegateCall :: "int vmAction" where
  "memoryDelegateCall = bindA (memorySpan 4 5) (\<lambda>x. bindA (memorySpan 2 3) (\<lambda>y. returnA (BigMax x y)))"
definition memoryStaticCall :: "int vmAction" where
  "memoryStaticCall = bindA (memorySpan 4 5) (\<lambda>x. bindA (memorySpan 2 3) (\<lambda>y. returnA (BigMax x y)))"
definition memoryReturn :: "int vmAction" where "memoryReturn = memorySpan 0 1"
definition memoryRevert :: "int vmAction" where "memoryRevert = memorySpan 0 1"
definition memoryLog :: "int vmAction" where "memoryLog = memorySpan 0 1"

end
