(* ===== verification/EvmGas.thy ===== *)
theory EvmGas
  imports EvmState
begin

section \<open>Gas\<close>

text \<open>\<^verbatim>\<open>pkgs/evm/vm/gas.go\<close>, \<^verbatim>\<open>gas_table.go\<close> and the prices of \<^verbatim>\<open>params/chain_params.go\<close>.\<close>

definition GasQuickStep :: u64 where "GasQuickStep = 2000"
definition GasFastestStep :: u64 where "GasFastestStep = 3000"
definition GasFastStep :: u64 where "GasFastStep = 5000"
definition GasMidStep :: u64 where "GasMidStep = 8000"
definition GasSlowStep :: u64 where "GasSlowStep = 1000"
definition GasExtStep :: u64 where "GasExtStep = 2000"
definition ExtcodeSize :: u64 where "ExtcodeSize = 7000"
definition ExtcodeCopy :: u64 where "ExtcodeCopy = 7000"
definition ExtcodeHash :: u64 where "ExtcodeHash = 4000"
definition BalanceGas :: u64 where "BalanceGas = 4000"
definition SLoad :: u64 where "SLoad = 2000"
definition Calls :: u64 where "Calls = 7000"
definition Suicide :: u64 where "Suicide = 5000"
definition ExpByte :: u64 where "ExpByte = 5000"
definition CreateBySuicide :: u64 where "CreateBySuicide = 2500"

definition CallValueTransferGas :: u64 where "CallValueTransferGas = 9000"
definition CallNewAccountGas :: u64 where "CallNewAccountGas = 25000"
definition QuadCoeffDiv :: u64 where "QuadCoeffDiv = 512"
definition LogDataGas :: u64 where "LogDataGas = 8"
definition CallStipend :: u64 where "CallStipend = 2300"
definition Sha3Gas :: u64 where "Sha3Gas = 30"
definition Sha3WordGas :: u64 where "Sha3WordGas = 6"
definition SstoreSetGas :: u64 where "SstoreSetGas = 20000"
definition SstoreResetGas :: u64 where "SstoreResetGas = 5000"
definition SstoreClearGas :: u64 where "SstoreClearGas = 5000"
definition SstoreRefundGas :: u64 where "SstoreRefundGas = 15000"
definition JumpdestGas :: u64 where "JumpdestGas = 1"
definition CreateDataGas :: u64 where "CreateDataGas = 200"
definition CallCreateDepth :: int where "CallCreateDepth = 1024"
definition LogGas :: u64 where "LogGas = 375"
definition CopyGas :: u64 where "CopyGas = 3"
definition LogTopicGas :: u64 where "LogTopicGas = 375"
definition CreateGas :: u64 where "CreateGas = 32000"
definition Create2Gas :: u64 where "Create2Gas = 32000"
definition SuicideRefundGas :: u64 where "SuicideRefundGas = 24000"
definition MemoryGas :: u64 where "MemoryGas = 3"
definition MaxCodeSize :: nat where "MaxCodeSize = 24576"

lemmas gas_defs = GasQuickStep_def GasFastestStep_def GasFastStep_def GasMidStep_def GasSlowStep_def GasExtStep_def
  ExtcodeSize_def ExtcodeCopy_def ExtcodeHash_def BalanceGas_def SLoad_def Calls_def Suicide_def ExpByte_def
  CreateBySuicide_def CallValueTransferGas_def CallNewAccountGas_def LogDataGas_def CallStipend_def Sha3Gas_def
  Sha3WordGas_def SstoreSetGas_def SstoreResetGas_def SstoreClearGas_def SstoreRefundGas_def JumpdestGas_def
  LogGas_def CopyGas_def LogTopicGas_def CreateGas_def Create2Gas_def SuicideRefundGas_def

type_synonym gasFunc = "u64 \<Rightarrow> u64 vmAction"

definition bigUint64_o :: "int \<Rightarrow> u64 \<times> bool" where
  "bigUint64_o v = (bigUint64 v, BitLen v > 64)"

text \<open>The three checks of the gas functions that return \<^verbatim>\<open>errGasUintOverflow\<close>.\<close>

definition noOverflow :: "u64 \<times> bool \<Rightarrow> u64 vmAction" where
  "noOverflow p = (if snd p then raiseA errGasUintOverflow else returnA (fst p))"

definition callGas :: "u64 \<Rightarrow> u64 \<Rightarrow> int \<Rightarrow> u64" where
  "callGas availableGas base callCost =
     (let available = availableGas - base;
          gas = available - available div 64
      in if BitLen callCost > 64 \<or> gas < bigUint64 callCost then gas else bigUint64 callCost)"

definition memoryGasCost :: "u64 \<Rightarrow> Memory \<Rightarrow> (vmError, u64) res \<times> Memory" where
  "memoryGasCost newMemSize mem =
     (if newMemSize = 0 then (Ok 0, mem)
      else if newMemSize > 0xffffffffe0 then (Err errGasUintOverflow, mem)
      else let newMemSizeWords = ToWordSize newMemSize;
               newMemSize' = newMemSizeWords * 32
           in if newMemSize' > of_nat (length (memStore mem)) then
                let square = newMemSizeWords * newMemSizeWords;
                    linCoef = newMemSizeWords * MemoryGas;
                    quadCoef = square div QuadCoeffDiv;
                    newTotalFee = linCoef + quadCoef
                in (Ok (newTotalFee - memLastGas mem), mem\<lparr>memLastGas := newTotalFee\<rparr>)
              else (Ok 0, mem))"

definition memoryGas :: gasFunc where
  "memoryGas memorySize = zoomA mMem (\<lambda>mem m. m\<lparr>mMem := mem\<rparr>) (memoryGasCost memorySize)"

definition constGasFunc :: "u64 \<Rightarrow> gasFunc" where
  "constGasFunc gas memorySize = returnA gas"

text \<open>The memory's price, a base price, and a price for each word of the length at a place of the stack.\<close>

definition copyGas :: "u64 \<Rightarrow> nat \<Rightarrow> u64 \<Rightarrow> gasFunc" where
  "copyGas base i perWord memorySize =
     bindA (memoryGas memorySize) (\<lambda>gas.
     bindA (noOverflow (SafeAdd gas base)) (\<lambda>gas1.
     bindA (Back i) (\<lambda>v.
     bindA (noOverflow (bigUint64_o v)) (\<lambda>words.
     bindA (noOverflow (SafeMul (ToWordSize words) perWord)) (\<lambda>w.
       noOverflow (SafeAdd gas1 w))))))"

definition gasCallDataCopy :: gasFunc where "gasCallDataCopy = copyGas GasFastestStep 2 CopyGas"
definition gasReturnDataCopy :: gasFunc where "gasReturnDataCopy = copyGas GasFastestStep 2 CopyGas"
definition gasCodeCopy :: gasFunc where "gasCodeCopy = copyGas GasFastestStep 2 CopyGas"
definition gasExtCodeCopy :: gasFunc where "gasExtCodeCopy = copyGas ExtcodeCopy 3 CopyGas"
definition gasSha3 :: gasFunc where "gasSha3 = copyGas Sha3Gas 1 Sha3WordGas"

text \<open>The slot that \<^verbatim>\<open>gasSStore\<close> looks up is the operand itself; \<^verbatim>\<open>opSstore\<close> writes to a hash of it.\<close>

definition gasSStore :: "Env \<Rightarrow> gasFunc" where
  "gasSStore env memorySize =
     bindA (Back 1) (\<lambda>y.
     bindA (Back 0) (\<lambda>x.
     bindA (onEvm (onState (Load env x))) (\<lambda>val.
       if val = None \<and> y \<noteq> 0 then returnA SstoreSetGas
       else if val \<noteq> None \<and> y = 0 then
         bindA (onEvm (onState (AddRefund SstoreRefundGas))) (\<lambda>_. returnA SstoreClearGas)
       else returnA SstoreResetGas)))"

definition makeGasLog :: "nat \<Rightarrow> gasFunc" where
  "makeGasLog n memorySize =
     bindA (Back 1) (\<lambda>v.
     bindA (noOverflow (bigUint64_o v)) (\<lambda>requestedSize.
     bindA (memoryGas memorySize) (\<lambda>gas.
     bindA (noOverflow (SafeAdd gas LogGas)) (\<lambda>gas1.
     bindA (noOverflow (SafeAdd gas1 (of_nat n * LogTopicGas))) (\<lambda>gas2.
     bindA (noOverflow (SafeMul requestedSize LogDataGas)) (\<lambda>memorySizeGas.
       noOverflow (SafeAdd gas2 memorySizeGas)))))))"

definition memoryPlus :: "u64 \<Rightarrow> gasFunc" where
  "memoryPlus k memorySize = bindA (memoryGas memorySize) (\<lambda>gas. noOverflow (SafeAdd gas k))"

definition gasMLoad :: gasFunc where "gasMLoad = memoryPlus GasFastestStep"
definition gasMStore8 :: gasFunc where "gasMStore8 = memoryPlus GasFastestStep"
definition gasMStore :: gasFunc where "gasMStore = memoryPlus GasFastestStep"
definition gasCreate :: gasFunc where "gasCreate = memoryPlus CreateGas"
definition gasCreate2 :: gasFunc where "gasCreate2 = memoryPlus Create2Gas"
definition gasReturn :: gasFunc where "gasReturn = memoryGas"
definition gasRevert :: gasFunc where "gasRevert = memoryGas"

definition gasExtCodeHash :: gasFunc where "gasExtCodeHash = constGasFunc ExtcodeHash"
definition gasBalance :: gasFunc where "gasBalance = constGasFunc BalanceGas"
definition gasExtCodeSize :: gasFunc where "gasExtCodeSize = constGasFunc ExtcodeSize"
definition gasSLoad :: gasFunc where "gasSLoad = constGasFunc SLoad"
definition gasPush :: gasFunc where "gasPush = constGasFunc GasFastestStep"
definition gasSwap :: gasFunc where "gasSwap = constGasFunc GasFastestStep"
definition gasDup :: gasFunc where "gasDup = constGasFunc GasFastestStep"

definition gasExp :: gasFunc where
  "gasExp memorySize =
     bindA (Back 1) (\<lambda>e.
       let expByteLen = of_nat ((BitLen e + 7) div 8) in noOverflow (SafeAdd (expByteLen * ExpByte) GasSlowStep))"

text \<open>The end of the gas functions of calls: the gas of the callee is kept in \<^verbatim>\<open>CallGasTemp\<close>.\<close>

definition withCallGas :: "u64 \<Rightarrow> u64 vmAction" where
  "withCallGas gas =
     bindA (Back 0) (\<lambda>requested.
     bindA (readA (\<lambda>m. callGas (conGas (mContract m)) gas requested)) (\<lambda>temp.
     bindA (modifyA (\<lambda>m. m\<lparr>mEvm := (mEvm m)\<lparr>evCallGasTemp := temp\<rparr>\<rparr>)) (\<lambda>_.
       noOverflow (SafeAdd gas temp))))"

definition gasCall :: gasFunc where
  "gasCall memorySize =
     bindA (Back 2) (\<lambda>value.
     bindA (Back 1) (\<lambda>a.
     bindA (memoryGas memorySize) (\<lambda>memGas.
     bindA (noOverflow (SafeAdd (Calls + (if addrIsEmpty (BigToAddress a) then CallNewAccountGas else 0)
         + (if value \<noteq> 0 then CallValueTransferGas else 0)) memGas)) withCallGas)))"

definition gasCallCode :: gasFunc where
  "gasCallCode memorySize =
     bindA (Back 2) (\<lambda>value.
     bindA (memoryGas memorySize) (\<lambda>memGas.
     bindA (noOverflow (SafeAdd (Calls + (if value \<noteq> 0 then CallValueTransferGas else 0)) memGas)) withCallGas))"

definition gasDelegateCall :: gasFunc where
  "gasDelegateCall memorySize = bindA (memoryPlus Calls memorySize) withCallGas"

definition gasStaticCall :: gasFunc where
  "gasStaticCall memorySize = bindA (memoryPlus Calls memorySize) withCallGas"

text \<open>A nil balance makes \<^verbatim>\<open>Sign\<close> panic.\<close>

definition gasSuicide :: "Env \<Rightarrow> gasFunc" where
  "gasSuicide env memorySize =
     bindA (Back 0) (\<lambda>a.
     bindA (onEvm (onState (Empty_v (BigToAddress a)))) (\<lambda>e.
     bindA (if e then
              bindA (readA (\<lambda>m. conAddr (mContract m))) (\<lambda>self.
              bindA (onEvm (onState (GetBalance_v env self))) (\<lambda>b.
                case b of None \<Rightarrow> panicA | Some balance \<Rightarrow> returnA (balance \<noteq> 0)))
            else returnA False) (\<lambda>creates.
     bindA (readA (\<lambda>m. conAddr (mContract m))) (\<lambda>self.
     bindA (onEvm (onState (HasSuicided self))) (\<lambda>dead.
     bindA (if dead then returnA () else onEvm (onState (AddRefund SuicideRefundGas))) (\<lambda>_.
       returnA (if creates then Suicide + CreateBySuicide else Suicide)))))))"

end
