(* ===== verification/EvmPrecompiled.thy ===== *)
theory EvmPrecompiled
  imports EvmGas
begin

section \<open>Precompiled contracts\<close>

text \<open>
  \<^verbatim>\<open>pkgs/evm/vm/precompiler.go\<close>. The curve operations and the hash functions are the natives; a
  required gas or a run that slices out of range panics (\<open>None\<close> and \<open>Panic\<close>).
\<close>

record PrecompiledContract =
  RequiredGas :: "bytes \<Rightarrow> u64 option"
  RunPre :: "bytes \<Rightarrow> (vmError, bytes) res"

text \<open>\<^verbatim>\<open>secp256k1N\<close> is the order of the curve.\<close>

definition secp256k1N :: int where
  "secp256k1N = 0xfffffffffffffffffffffffffffffffebaaedce6af48a03bbfd25e8cd0364141"

definition ValidateSignatureValues :: "byte \<Rightarrow> int \<Rightarrow> int \<Rightarrow> bool \<Rightarrow> bool" where
  "ValidateSignatureValues v r s homestead =
     (if r < 1 \<or> s < 1 then False
      else if homestead \<and> s > secp256k1N div 2 then False
      else r < secp256k1N \<and> s < secp256k1N \<and> (v = 0 \<or> v = 1))"

definition ecrecover :: "Env \<Rightarrow> Natives \<Rightarrow> PrecompiledContract" where
  "ecrecover env n = \<lparr>RequiredGas = (\<lambda>input. Some 3000), RunPre = (\<lambda>input0.
     let input = RightPadBytes input0 128;
         r = bigSetBytes (take 32 (drop 64 input));
         s = bigSetBytes (take 32 (drop 96 input));
         v = input ! 63 - 27
     in if \<not> AllZero (take 31 (drop 32 input)) \<or> \<not> ValidateSignatureValues v r s False then Ok []
        else (case nEcrecover n (take 32 input) (take 64 (drop 64 input) @ [v]) of
                None \<Rightarrow> Ok []
              | Some pubKey \<Rightarrow>
                  (case pubKey of
                     [] \<Rightarrow> Panic
                   | _ # key \<Rightarrow> Ok (LeftPadBytes (drop 12 (keccak (crypto env) key)) 32))))\<rparr>"

definition perWord :: "bytes \<Rightarrow> u64 \<Rightarrow> u64 \<Rightarrow> u64" where
  "perWord input word base = of_nat ((length input + 31) div 32) * word + base"

definition sha256hash :: "Natives \<Rightarrow> PrecompiledContract" where
  "sha256hash n = \<lparr>RequiredGas = (\<lambda>input. Some (perWord input 12 60)), RunPre = (\<lambda>input. Ok (nSha256 n input))\<rparr>"

definition ripemd160hash :: "Natives \<Rightarrow> PrecompiledContract" where
  "ripemd160hash n = \<lparr>RequiredGas = (\<lambda>input. Some (perWord input 120 600)),
     RunPre = (\<lambda>input. Ok (LeftPadBytes (nRipemd160 n input) 32))\<rparr>"

definition dataCopy :: PrecompiledContract where
  "dataCopy = \<lparr>RequiredGas = (\<lambda>input. Some (perWord input 3 15)), RunPre = (\<lambda>input. Ok input)\<rparr>"

definition GetBig :: "bytes \<Rightarrow> u64 \<Rightarrow> u64 \<Rightarrow> int option" where
  "GetBig input start sz = map_option bigSetBytes (GetData input start sz)"

definition modExpComplexity :: "int \<Rightarrow> int" where
  "modExpComplexity x =
     (if x \<le> 64 then x * x
      else if x \<le> 1024 then bigDiv (x * x) 4 + (96 * x - 3072)
      else bigDiv (x * x) 16 + (480 * x - 199680))"

definition modExpGas :: "bytes \<Rightarrow> u64 option" where
  "modExpGas input0 =
     Option.bind (GetBig input0 0 32) (\<lambda>baseLen.
     Option.bind (GetBig input0 32 32) (\<lambda>expLen.
     Option.bind (GetBig input0 64 32) (\<lambda>modLen.
       let input = drop 96 input0
       in Option.bind (if int (length input) \<le> baseLen then Some 0
                       else if expLen > 32 then GetBig input (bigUint64 baseLen) 32
                       else GetBig input (bigUint64 baseLen) (bigUint64 expLen)) (\<lambda>expHead.
            let msb = BitLen expHead - 1;
                adjExpLen = (if expLen > 32 then 8 * (expLen - 32) else 0) + int msb;
                gas = bigDiv (modExpComplexity (BigMax modLen baseLen) * BigMax adjExpLen 1) 20
            in Some (if BitLen gas > 64 then MaxUint64 else bigUint64 gas)))))"

definition modExpRun :: "bytes \<Rightarrow> (vmError, bytes) res" where
  "modExpRun input0 = lift_panic (
     Option.bind (GetBig input0 0 32) (\<lambda>b0.
     Option.bind (GetBig input0 32 32) (\<lambda>e0.
     Option.bind (GetBig input0 64 32) (\<lambda>m0.
       let baseLen = bigUint64 b0; expLen = bigUint64 e0; modLen = bigUint64 m0; input = drop 96 input0
       in if baseLen = 0 \<and> modLen = 0 then Some []
          else
            Option.bind (GetBig input 0 baseLen) (\<lambda>base.
            Option.bind (GetBig input baseLen expLen) (\<lambda>ex.
            Option.bind (GetBig input (baseLen + expLen) modLen) (\<lambda>md.
              if BitLen md = 0 then Some (LeftPadBytes [] (sint modLen))
              else Some (LeftPadBytes (bigBytes (bigMod (base ^ nat ex) md)) (sint modLen)))))))))"

definition bigModExp :: PrecompiledContract where
  "bigModExp = \<lparr>RequiredGas = modExpGas, RunPre = modExpRun\<rparr>"

definition newCurvePoint :: "Natives \<Rightarrow> bytes option \<Rightarrow> (vmError, bytes) res" where
  "newCurvePoint n blob =
     andThen (lift_panic blob) (\<lambda>b. case nG1 n b of None \<Rightarrow> Err ErrCurvePoint | Some p \<Rightarrow> Ok p)"

definition newTwistPoint :: "Natives \<Rightarrow> bytes option \<Rightarrow> (vmError, bytes) res" where
  "newTwistPoint n blob =
     andThen (lift_panic blob) (\<lambda>b. case nG2 n b of None \<Rightarrow> Err ErrCurvePoint | Some p \<Rightarrow> Ok p)"

definition bn256Add :: "Natives \<Rightarrow> PrecompiledContract" where
  "bn256Add n = \<lparr>RequiredGas = (\<lambda>input. Some 500), RunPre = (\<lambda>input.
     andThen (newCurvePoint n (GetData input 0 64)) (\<lambda>x.
     andThen (newCurvePoint n (GetData input 64 64)) (\<lambda>y. Ok (nG1Add n x y))))\<rparr>"

definition bn256ScalarMul :: "Natives \<Rightarrow> PrecompiledContract" where
  "bn256ScalarMul n = \<lparr>RequiredGas = (\<lambda>input. Some 40000), RunPre = (\<lambda>input.
     andThen (newCurvePoint n (GetData input 0 64)) (\<lambda>p.
     andThen (lift_panic (GetBig input 64 32)) (\<lambda>k. Ok (nG1Mul n p k))))\<rparr>"

text \<open>The loop over the 192 bytes of each pair of points.\<close>

fun pairingPoints :: "Natives \<Rightarrow> nat \<Rightarrow> bytes \<Rightarrow> bytes list \<Rightarrow> bytes list \<Rightarrow> (vmError, bytes list \<times> bytes list) res" where
  "pairingPoints n 0 input cs ts = Ok (cs, ts)"
| "pairingPoints n (Suc k) input cs ts =
     andThen (newCurvePoint n (slice input 0 64)) (\<lambda>c.
     andThen (newTwistPoint n (slice input 64 192)) (\<lambda>t.
       pairingPoints n k (drop 192 input) (cs @ [c]) (ts @ [t])))"

definition bn256Pairing :: "Natives \<Rightarrow> PrecompiledContract" where
  "bn256Pairing n = \<lparr>RequiredGas = (\<lambda>input. Some (100000 + of_nat (length input div 192) * 80000)),
     RunPre = (\<lambda>input.
       if length input mod 192 > 0 then Err errBadPairingInput
       else andThen (pairingPoints n (length input div 192) input [] []) (\<lambda>(cs, ts).
              Ok (if nPairing n cs ts then replicate 31 0 @ [1] else replicate 32 0)))\<rparr>"

definition PrecompiledContracts :: "VmEnv \<Rightarrow> address \<rightharpoonup> PrecompiledContract" where
  "PrecompiledContracts ve =
     (let n = veNatives ve in map_of
        [(BytesToAddress [1], ecrecover (veEnv ve) n), (BytesToAddress [2], sha256hash n),
         (BytesToAddress [3], ripemd160hash n), (BytesToAddress [4], dataCopy),
         (BytesToAddress [5], bigModExp), (BytesToAddress [6], bn256Add n),
         (BytesToAddress [7], bn256ScalarMul n), (BytesToAddress [8], bn256Pairing n)])"

text \<open>The result is the returned data and error, and the contract whose gas was used; \<open>Panic\<close> on a panic.\<close>

definition RunPrecompiledContract :: "PrecompiledContract \<Rightarrow> bytes \<Rightarrow> Contract \<Rightarrow>
    (vmError, (bytes \<times> vmError option) \<times> Contract) res" where
  "RunPrecompiledContract p input contract =
     andThen (lift_panic (RequiredGas p input)) (\<lambda>gas.
       case UseGas_c gas contract of
         None \<Rightarrow> Ok (([], Some ErrOutOfGas_vm), contract)
       | Some c \<Rightarrow>
           (case RunPre p input of
              Panic \<Rightarrow> Panic
            | Err e \<Rightarrow> Ok (([], Some e), c)
            | Ok ret \<Rightarrow> Ok ((ret, None), c)))"

end
