(* ===== verification/EvmCalls.thy ===== *)
theory EvmCalls
  imports EvmPrecompiled
begin

section \<open>Calls and creations\<close>

text \<open>
  \<^verbatim>\<open>pkgs/evm/vm/evm.go\<close> and the transfer functions of \<^verbatim>\<open>pkgs/evm/vm.go\<close>. A call runs the interpreter, which
  may make calls: the functions here take the interpreter's \<^verbatim>\<open>Run\<close> as a parameter. It
  gets the machine's state and the contract, and returns the data and the error of the
  run, or nothing when the run does not end.
\<close>

type_synonym ('s, 'e, 'a) paction = "'s \<Rightarrow> (('e, 'a) res \<times> 's) option"

definition bindP :: "('s, 'e, 'a) paction \<Rightarrow> ('a \<Rightarrow> ('s, 'e, 'b) paction) \<Rightarrow> ('s, 'e, 'b) paction" where
  "bindP m f s =
     Option.bind (m s) (\<lambda>(r, s').
       case r of Ok a \<Rightarrow> f a s' | Err e \<Rightarrow> Some (Err e, s') | Panic \<Rightarrow> Some (Panic, s'))"

definition liftP :: "('s, 'e, 'a) action \<Rightarrow> ('s, 'e, 'a) paction" where
  "liftP m s = Some (m s)"

type_synonym runOut = "bytes \<times> vmError option"
type_synonym runner = "bytes \<Rightarrow> bool \<Rightarrow> (EVM \<times> Contract, vmError, runOut) paction"
type_synonym 'a callAction = "(EVM, vmError, 'a) paction"

subsection \<open>Transfers\<close>

definition CanTransfer :: "Env \<Rightarrow> address \<Rightarrow> int \<Rightarrow> bool vsAction" where
  "CanTransfer env addr amount =
     bindA (GetBalance_v env addr) (\<lambda>b. case b of None \<Rightarrow> panicA | Some balance \<Rightarrow> returnA (balance \<ge> amount))"

text \<open>\<^verbatim>\<open>Transfer\<close> drops both errors; the result is the value its integer has afterwards.\<close>

definition Transfer :: "Env \<Rightarrow> address \<Rightarrow> address \<Rightarrow> int \<Rightarrow> int vsAction" where
  "Transfer env sender to amount =
     bindA (tryA (SubBalance_v env sender amount)) (\<lambda>_.
     bindA (AddBalance_v env to amount) (\<lambda>p. returnA (fst p)))"

subsection \<open>Running a contract\<close>

definition runContract :: "VmEnv \<Rightarrow> runner \<Rightarrow> runner" where
  "runContract ve interp input readOnly =
     (\<lambda>(evm, contract).
        case (if addrIsEmpty (conAddr contract) then None else PrecompiledContracts ve (conAddr contract)) of
          Some p \<Rightarrow>
            Some (case RunPrecompiledContract p input contract of
                Ok (out, c) \<Rightarrow> (Ok out, (evm, c))
              | Err e \<Rightarrow> (Err e, (evm, contract))
              | Panic \<Rightarrow> (Panic, (evm, contract)))
        | None \<Rightarrow> interp input readOnly (evm, contract))"

text \<open>
  A contract is made, its code set, and run on the machine's state; the result is the
  data, the error and the contract afterwards.
\<close>

definition inContract :: "VmEnv \<Rightarrow> runner \<Rightarrow> Contract option \<Rightarrow> bytes \<Rightarrow> bool \<Rightarrow> (runOut \<times> Contract) callAction" where
  "inContract ve interp con input readOnly evm =
     (case con of
        None \<Rightarrow> Some (Panic, evm)
      | Some c \<Rightarrow>
          Option.bind (runContract ve interp input readOnly (evm, c)) (\<lambda>(r, evm', c').
            Some (case r of Ok out \<Rightarrow> Ok (out, c') | Err e \<Rightarrow> Err e | Panic \<Rightarrow> Panic, evm')))"

text \<open>The end of the call functions: an error other than a revert takes the rest of the gas.\<close>

definition gasAfter :: "vmError option \<Rightarrow> Contract \<Rightarrow> u64" where
  "gasAfter err c = (if err = None \<or> err = Some errExecutionReverted then conGas c else 0)"

definition onStateP :: "'a vsAction \<Rightarrow> 'a callAction" where
  "onStateP m = liftP (onState m)"

definition readP :: "(EVM \<Rightarrow> 'a) \<Rightarrow> 'a callAction" where
  "readP f = liftP (readA f)"

definition returnP :: "'a \<Rightarrow> ('s, 'e, 'a) paction" where
  "returnP a = liftP (returnA a)"

subsection \<open>Calls\<close>

definition Call :: "VmEnv \<Rightarrow> runner \<Rightarrow> address \<Rightarrow> address \<Rightarrow> u32 \<Rightarrow> bytes \<Rightarrow> u64 \<Rightarrow> int \<Rightarrow>
    (bytes \<times> u64 \<times> vmError option) callAction" where
  "Call ve interp caller addr chainId input gas value =
     bindP (readP evDepth) (\<lambda>depth.
       if veNoRecursion ve \<and> depth > 0 then returnP ([], gas, None)
       else if depth > CallCreateDepth then returnP ([], gas, Some ErrDepth)
       else bindP (onStateP (CanTransfer (veEnv ve) caller value)) (\<lambda>can.
         if \<not> can then returnP ([], gas, Some ErrInsufficientBalance)
         else bindP (onStateP (Exist ve addr)) (\<lambda>exists.
           if \<not> exists then
             if PrecompiledContracts ve addr = None \<and> value = 0 then returnP ([], gas, None)
             else returnP ([], 0, Some ErrNoAccount)
           else
             bindP (onStateP (Transfer (veEnv ve) caller addr value)) (\<lambda>value'.
             bindP (readP evTxHash) (\<lambda>txh.
             bindP (onStateP (GetByteCode_v ve addr)) (\<lambda>code.
             bindP (inContract ve interp
                 (SetCode (veEnv ve) addr (sliceOf code) (NewContract caller txh chainId gas value' None)) input False)
               (\<lambda>((ret, err), c). returnP (ret, gasAfter err c, err))))))))"

definition CallCode :: "VmEnv \<Rightarrow> runner \<Rightarrow> address \<Rightarrow> address \<Rightarrow> bytes \<Rightarrow> u64 \<Rightarrow> int \<Rightarrow>
    (bytes \<times> u64 \<times> vmError option) callAction" where
  "CallCode ve interp caller addr input gas value =
     bindP (readP evDepth) (\<lambda>depth.
       if veNoRecursion ve \<and> depth > 0 then returnP ([], gas, None)
       else if depth > CallCreateDepth then returnP ([], gas, Some ErrDepth)
       else bindP (onStateP (CanTransfer (veEnv ve) caller value)) (\<lambda>can.
         if \<not> can then returnP ([], gas, Some ErrInsufficientBalance)
         else
           bindP (readP evTxHash) (\<lambda>txh.
           bindP (readP evChainId) (\<lambda>chainId.
           bindP (onStateP (GetByteCode_v ve addr)) (\<lambda>code.
           bindP (inContract ve interp
               (SetCode (veEnv ve) addr (sliceOf code) (NewContract caller txh chainId gas value None)) input False)
             (\<lambda>((ret, err), c). returnP (ret, gasAfter err c, err)))))))"

text \<open>
  \<^verbatim>\<open>DelegateCall\<close> returns the gas of the calling contract. The table of jump destinations is
  shared with the callee, so the result also has the table afterwards.
\<close>

definition DelegateCall :: "VmEnv \<Rightarrow> runner \<Rightarrow> Contract \<Rightarrow> address \<Rightarrow> bytes \<Rightarrow> u64 \<Rightarrow>
    ((bytes \<times> u64 \<times> vmError option) \<times> (hash \<rightharpoonup> bitvec)) callAction" where
  "DelegateCall ve interp con contractAddr input gas =
     bindP (readP evDepth) (\<lambda>depth.
       if veNoRecursion ve \<and> depth > 0 then returnP (([], gas, None), conDests con)
       else if depth > CallCreateDepth then returnP (([], gas, Some ErrDepth), conDests con)
       else bindP (onStateP (GetByteCode_v ve contractAddr)) (\<lambda>byteCode.
         case byteCode of
           None \<Rightarrow> returnP (([], gas, Some ErrCodeNotExists), conDests con)
         | Some code \<Rightarrow>
             bindP (readP evTxHash) (\<lambda>txh.
             bindP (inContract ve interp
                 (SetCode (veEnv ve) contractAddr code
                   (NewContract (conCaller con) txh (conChainId con) gas 0 (Some (conDests con)))) input False)
               (\<lambda>((ret, err), c). returnP ((ret, conGas con, err), conDests c)))))"

text \<open>\<^verbatim>\<open>StaticCall\<close> runs the code of the caller, and hands the global \<^verbatim>\<open>bigZero\<close> to \<^verbatim>\<open>AddBalance\<close>.\<close>

definition StaticCall :: "VmEnv \<Rightarrow> runner \<Rightarrow> address \<Rightarrow> address \<Rightarrow> bytes \<Rightarrow> u64 \<Rightarrow>
    (bytes \<times> u64 \<times> vmError option) callAction" where
  "StaticCall ve interp caller addr input gas =
     bindP (readP evDepth) (\<lambda>depth.
       if veNoRecursion ve \<and> depth > 0 then returnP ([], gas, None)
       else if depth > CallCreateDepth then returnP ([], gas, Some ErrDepth)
       else bindP (onStateP (GetByteCode_v ve caller)) (\<lambda>byteCode.
         case byteCode of
           None \<Rightarrow> returnP ([], gas, Some ErrCodeNotExists)
         | Some code \<Rightarrow>
             bindP (readP evTxHash) (\<lambda>txh.
             bindP (readP evChainId) (\<lambda>chainId.
             bindP (readP evBigZero) (\<lambda>zero.
             bindP (onStateP (AddBalance_v (veEnv ve) addr zero)) (\<lambda>p.
             bindP (liftP (modifyA (\<lambda>e. e\<lparr>evBigZero := fst p\<rparr>))) (\<lambda>_.
             bindP (inContract ve interp
                 (SetCode (veEnv ve) addr code (NewContract caller txh chainId gas 0 None)) input True)
               (\<lambda>((ret, err), c). returnP (ret, gasAfter err c, err)))))))))"

subsection \<open>Creations\<close>

definition emptyCodeHash :: "Env \<Rightarrow> hash" where
  "emptyCodeHash env = keccak (crypto env) []"

text \<open>
  The end of \<^verbatim>\<open>CreateContractCode\<close>. Its last condition, \<^verbatim>\<open>err != nil || err != ErrCodeStoreOutOfGas\<close>,
  holds of every error and of nil, so that only a revert leaves gas.
\<close>

definition storeCode :: "Env \<Rightarrow> address \<Rightarrow> (runOut \<times> Contract) \<Rightarrow> (bytes \<times> address \<times> u64 \<times> vmError option) vsAction" where
  "storeCode env address oc =
     (case oc of ((ret, err), c) \<Rightarrow>
        let maxCodeSizeExceeded = length ret > MaxCodeSize
        in bindA (if err = None \<and> \<not> maxCodeSizeExceeded then
                    (case UseGas_c (of_nat (length ret) * CreateDataGas) c of
                       Some c1 \<Rightarrow> bindA (tryA (SetByteCode env address ret)) (\<lambda>_. returnA (None, c1))
                     | None \<Rightarrow> returnA (Some ErrCodeStoreOutOfGas, c))
                  else returnA (err, c)) (\<lambda>(err1, c1).
             let c2 = (if maxCodeSizeExceeded \<or> (err1 \<noteq> None \<or> err1 \<noteq> Some ErrCodeStoreOutOfGas) then
                         if err1 \<noteq> Some errExecutionReverted then c1\<lparr>conGas := 0\<rparr> else c1
                       else c1);
                 err2 = (if maxCodeSizeExceeded \<and> err1 = None then Some errMaxCodeSizeExceeded else err1)
             in returnA (ret, address, conGas c2, err2)))"

definition CreateContractCode :: "VmEnv \<Rightarrow> runner \<Rightarrow> address \<Rightarrow> bytes \<Rightarrow> u64 \<Rightarrow> int \<Rightarrow> address \<Rightarrow>
    (bytes \<times> address \<times> u64 \<times> vmError option) callAction" where
  "CreateContractCode ve interp caller code gas value address =
     (let env = veEnv ve in
      bindP (readP evDepth) (\<lambda>depth.
        if depth > CallCreateDepth then returnP ([], ZeroAddress, gas, Some ErrDepth)
        else bindP (onStateP (CanTransfer env caller value)) (\<lambda>can.
          if \<not> can then returnP ([], ZeroAddress, gas, Some ErrInsufficientBalance)
          else
            bindP (onStateP (GetNonce_v env caller)) (\<lambda>nonce.
            bindP (onStateP (tryA (SetNonce_v env caller (nonce + 1)))) (\<lambda>_.
            bindP (onStateP (GetCodeHash_v env address)) (\<lambda>contractHash.
            bindP (onStateP (GetNonce_v env address)) (\<lambda>addrNonce.
              if addrNonce \<noteq> 0 \<or> (contractHash \<noteq> ZeroHash \<and> contractHash \<noteq> emptyCodeHash env) then
                returnP ([], ZeroAddress, 0, Some ErrContractAddressCollision)
              else
                bindP (onStateP (tryA (CreateContractAccount env address code))) (\<lambda>_.
                bindP (onStateP (Transfer env caller address value)) (\<lambda>value'.
                bindP (readP evTxHash) (\<lambda>txh.
                bindP (readP evChainId) (\<lambda>chainId.
                  if veNoRecursion ve \<and> depth > 0 then returnP ([], address, gas, None)
                  else
                    bindP (inContract ve interp
                        (SetCode env address code (NewContract caller txh chainId gas value' None)) [] False)
                      (\<lambda>oc. onStateP (storeCode env address oc)))))))))))))"

definition Create :: "VmEnv \<Rightarrow> runner \<Rightarrow> address \<Rightarrow> bytes \<Rightarrow> u64 \<Rightarrow> int \<Rightarrow>
    (bytes \<times> address \<times> u64 \<times> vmError option) callAction" where
  "Create ve interp caller code gas value =
     bindP (onStateP (GetNonce_v (veEnv ve) caller)) (\<lambda>nonce.
       CreateContractCode ve interp caller code gas value (CreateAddress (keccak (crypto (veEnv ve))) caller nonce))"

end
