(* ===== verification/EvmOps.thy ===== *)
theory EvmOps
  imports EvmCalls
begin

section \<open>Instructions\<close>

text \<open>
  \<^verbatim>\<open>pkgs/evm/vm/instructions.go\<close>, in its order. An instruction acts on the machine and returns the data that
  the interpreter may keep as return data; nil is the empty list.
\<close>

definition done_op :: "bytes vmAction" where
  "done_op = returnA []"

text \<open>\<^verbatim>\<open>x, y := stack.pop(), stack.peek()\<close> and a write to \<^verbatim>\<open>y\<close>; \<^verbatim>\<open>x, y := stack.pop(), stack.pop()\<close> and a push.\<close>

definition popPeek :: "(int \<Rightarrow> int \<Rightarrow> int) \<Rightarrow> bytes vmAction" where
  "popPeek f = bindA pop (\<lambda>x. bindA peek (\<lambda>y. bindA (setTop (f x y)) (\<lambda>_. done_op)))"

definition popPop :: "(int \<Rightarrow> int \<Rightarrow> int) \<Rightarrow> bytes vmAction" where
  "popPop f = bindA pop (\<lambda>x. bindA pop (\<lambda>y. bindA (push (f x y)) (\<lambda>_. done_op)))"

definition onTop :: "(int \<Rightarrow> int) \<Rightarrow> bytes vmAction" where
  "onTop f = bindA peek (\<lambda>x. bindA (setTop (f x)) (\<lambda>_. done_op))"

definition pushVal :: "(Machine \<Rightarrow> int) \<Rightarrow> bytes vmAction" where
  "pushVal f = bindA (readA f) (\<lambda>v. bindA (push v) (\<lambda>_. done_op))"

subsection \<open>Arithmetic\<close>

definition opAdd :: "bytes vmAction" where "opAdd = popPeek (\<lambda>x y. U256 (x + y))"
definition opSub :: "bytes vmAction" where "opSub = popPeek (\<lambda>x y. U256 (x - y))"
definition opMul :: "bytes vmAction" where "opMul = popPop (\<lambda>x y. U256 (x * y))"

definition opDiv :: "bytes vmAction" where
  "opDiv = popPeek (\<lambda>x y. if y \<noteq> 0 then U256 (bigDiv x y) else 0)"

definition opSdiv :: "bytes vmAction" where
  "opSdiv = popPop (\<lambda>x0 y0.
     let x = S256 x0; y = S256 y0
     in if y = 0 \<or> x = 0 then 0
        else if sgn x \<noteq> sgn y then U256 (- bigDiv \<bar>x\<bar> \<bar>y\<bar>)
        else U256 (bigDiv \<bar>x\<bar> \<bar>y\<bar>))"

definition opMod :: "bytes vmAction" where
  "opMod = popPop (\<lambda>x y. if y = 0 then 0 else U256 (bigMod x y))"

definition opSmod :: "bytes vmAction" where
  "opSmod = popPop (\<lambda>x0 y0.
     let x = S256 x0; y = S256 y0
     in if y = 0 then 0
        else if x < 0 then U256 (- bigMod \<bar>x\<bar> \<bar>y\<bar>)
        else U256 (bigMod \<bar>x\<bar> \<bar>y\<bar>))"

definition opExp :: "bytes vmAction" where
  "opExp = popPop (\<lambda>base exponent.
     if exponent < 1 then 1
     else if base = 0 then 0
     else if exponent = 1 then base
     else Exp base exponent)"

definition opSignExtend :: "bytes vmAction" where
  "opSignExtend =
     bindA pop (\<lambda>back.
       if back < 31 then
         let bt = unat (bigUint64 back * 8 + 7); mask = push_bit bt 1 - 1
         in bindA pop (\<lambda>num.
            bindA (push (U256 (if bit num bt then num OR NOT mask else num AND mask))) (\<lambda>_. done_op))
       else done_op)"

definition opNot :: "bytes vmAction" where "opNot = onTop (\<lambda>x. U256 (NOT x))"

definition boolWord :: "bool \<Rightarrow> int" where
  "boolWord b = (if b then 1 else 0)"

definition opLt :: "bytes vmAction" where "opLt = popPeek (\<lambda>x y. boolWord (x < y))"
definition opGt :: "bytes vmAction" where "opGt = popPeek (\<lambda>x y. boolWord (x > y))"

definition opSlt :: "bytes vmAction" where
  "opSlt = popPeek (\<lambda>x y.
     if x \<ge> TT255 \<and> y < TT255 then 1
     else if x < TT255 \<and> y \<ge> TT255 then 0
     else boolWord (x < y))"

definition opSgt :: "bytes vmAction" where
  "opSgt = popPeek (\<lambda>x y.
     if x \<ge> TT255 \<and> y < TT255 then 0
     else if x < TT255 \<and> y \<ge> TT255 then 1
     else boolWord (x > y))"

definition opEq :: "bytes vmAction" where "opEq = popPeek (\<lambda>x y. boolWord (x = y))"
definition opIszero :: "bytes vmAction" where "opIszero = onTop (\<lambda>x. if x > 0 then 0 else 1)"
definition opAnd :: "bytes vmAction" where "opAnd = popPop (\<lambda>x y. x AND y)"
definition opOr :: "bytes vmAction" where "opOr = popPeek (\<lambda>x y. x OR y)"
definition opXor :: "bytes vmAction" where "opXor = popPeek (\<lambda>x y. x XOR y)"

definition opByte :: "bytes vmAction" where
  "opByte = popPeek (\<lambda>th val. if th < 32 then uint (Byte val 32 (bigInt64 th)) else 0)"

text \<open>The comparison is with the global \<^verbatim>\<open>bigZero\<close>.\<close>

definition modOp :: "(int \<Rightarrow> int \<Rightarrow> int) \<Rightarrow> bytes vmAction" where
  "modOp f =
     bindA pop (\<lambda>x. bindA pop (\<lambda>y. bindA pop (\<lambda>z.
     bindA (readA (\<lambda>m. evBigZero (mEvm m))) (\<lambda>bigZero.
     bindA (push (if z > bigZero then U256 (bigMod (f x y) z) else 0)) (\<lambda>_. done_op)))))"

definition opAddmod :: "bytes vmAction" where "opAddmod = modOp (\<lambda>x y. x + y)"
definition opMulmod :: "bytes vmAction" where "opMulmod = modOp (\<lambda>x y. x * y)"

definition opSHL :: "bytes vmAction" where
  "opSHL = popPeek (\<lambda>s v.
     let shift = U256 s; value = U256 v
     in if shift \<ge> 256 then 0 else U256 (push_bit (unat (bigUint64 shift)) value))"

definition opSHR :: "bytes vmAction" where
  "opSHR = popPeek (\<lambda>s v.
     let shift = U256 s; value = U256 v
     in if shift \<ge> 256 then 0 else U256 (drop_bit (unat (bigUint64 shift)) value))"

definition opSAR :: "bytes vmAction" where
  "opSAR = popPop (\<lambda>s v.
     let shift = U256 s; value = S256 v
     in if shift \<ge> 256 then U256 (if value \<ge> 0 then 0 else - 1)
        else U256 (drop_bit (unat (bigUint64 shift)) value))"

subsection \<open>Context\<close>

definition opSha3 :: "Env \<Rightarrow> bytes vmAction" where
  "opSha3 env =
     bindA pop (\<lambda>offset. bindA pop (\<lambda>sz.
     bindA (readMem (GetPtr (bigInt64 offset) (bigInt64 sz))) (\<lambda>data.
     bindA (push (bigSetBytes (keccak (crypto env) data))) (\<lambda>_. done_op))))"

definition opAddress :: "bytes vmAction" where "opAddress = pushVal (\<lambda>m. bigSetBytes (conAddr (mContract m)))"

definition opBalance :: "Env \<Rightarrow> bytes vmAction" where
  "opBalance env =
     bindA peek (\<lambda>slot.
     bindA (onEvm (onState (GetBalance_v env (BigToAddress slot)))) (\<lambda>b.
       case b of None \<Rightarrow> panicA | Some balance \<Rightarrow> bindA (setTop balance) (\<lambda>_. done_op)))"

definition opOrigin :: "bytes vmAction" where "opOrigin = pushVal (\<lambda>m. bigSetBytes (evOrigin (mEvm m)))"
definition opCaller :: "bytes vmAction" where "opCaller = pushVal (\<lambda>m. bigSetBytes (conCaller (mContract m)))"
definition opCallValue :: "bytes vmAction" where "opCallValue = pushVal (\<lambda>m. conValue (mContract m))"

definition opCallDataLoad :: "bytes vmAction" where
  "opCallDataLoad =
     bindA pop (\<lambda>start.
     bindA (readA (\<lambda>m. conInput (mContract m))) (\<lambda>input.
     bindA (liftA (lift_panic (GetDataBig input start 32))) (\<lambda>data.
     bindA (push (bigSetBytes data)) (\<lambda>_. done_op))))"

definition opCallDataSize :: "bytes vmAction" where
  "opCallDataSize = pushVal (\<lambda>m. int (length (conInput (mContract m))))"

text \<open>The end of the copying instructions.\<close>

definition copyToMem :: "int \<Rightarrow> int \<Rightarrow> bytes option \<Rightarrow> bytes vmAction" where
  "copyToMem memOffset len data =
     bindA (liftA (lift_panic data)) (\<lambda>d.
     bindA (onMem (Set_m (bigUint64 memOffset) (bigUint64 len) d)) (\<lambda>_. done_op))"

definition opCallDataCopy :: "bytes vmAction" where
  "opCallDataCopy =
     bindA pop (\<lambda>memOffset. bindA pop (\<lambda>dataOffset. bindA pop (\<lambda>len.
     bindA (readA (\<lambda>m. conInput (mContract m))) (\<lambda>input.
       copyToMem memOffset len (GetDataBig input dataOffset len)))))"

definition opReturnDataSize :: "bytes vmAction" where
  "opReturnDataSize = pushVal (\<lambda>m. int (length (evReturnData (mEvm m))))"

definition opReturnDataCopy :: "bytes vmAction" where
  "opReturnDataCopy =
     bindA pop (\<lambda>memOffset. bindA pop (\<lambda>dataOffset. bindA pop (\<lambda>len.
     bindA (readA (\<lambda>m. evReturnData (mEvm m))) (\<lambda>data.
       let e = dataOffset + len
       in if \<not> IsUint64 e \<or> of_nat (length data) < bigUint64 e then raiseA errReturnDataOutOfBounds
          else copyToMem memOffset len (slice data (unat (bigUint64 dataOffset)) (unat (bigUint64 e)))))))"

definition opExtCodeSize :: "VmEnv \<Rightarrow> bytes vmAction" where
  "opExtCodeSize ve =
     bindA peek (\<lambda>slot.
     bindA (onEvm (onState (GetCodeSize ve (BigToAddress slot)))) (\<lambda>l.
     bindA (setTop (int l)) (\<lambda>_. done_op)))"

definition opCodeSize :: "bytes vmAction" where
  "opCodeSize = pushVal (\<lambda>m. int (length (conCode (mContract m))))"

definition opCodeCopy :: "bytes vmAction" where
  "opCodeCopy =
     bindA pop (\<lambda>memOffset. bindA pop (\<lambda>codeOffset. bindA pop (\<lambda>len.
     bindA (readA (\<lambda>m. conCode (mContract m))) (\<lambda>code.
       copyToMem memOffset len (GetDataBig code codeOffset len)))))"

definition opExtCodeCopy :: "VmEnv \<Rightarrow> bytes vmAction" where
  "opExtCodeCopy ve =
     bindA pop (\<lambda>a. bindA pop (\<lambda>memOffset. bindA pop (\<lambda>codeOffset. bindA pop (\<lambda>len.
     bindA (onEvm (onState (GetByteCode_v ve (BigToAddress a)))) (\<lambda>code.
       copyToMem memOffset len (GetDataBig (sliceOf code) codeOffset len))))))"

definition opExtCodeHash :: "Env \<Rightarrow> bytes vmAction" where
  "opExtCodeHash env =
     bindA peek (\<lambda>slot.
     bindA (onEvm (onState (GetCodeHash_v env (BigToAddress slot)))) (\<lambda>h.
     bindA (setTop (bigSetBytes h)) (\<lambda>_. done_op)))"

definition opGasprice :: "bytes vmAction" where "opGasprice = pushVal (\<lambda>m. evGasPrice (mEvm m))"

definition opBlockhash :: "bytes vmAction" where
  "opBlockhash =
     bindA pop (\<lambda>num.
     bindA (readA mEvm) (\<lambda>evm.
       if num > evBlockNumber evm - 257 \<and> num < evBlockNumber evm then
         (case evGetHash evm of
            None \<Rightarrow> panicA
          | Some getHash \<Rightarrow> bindA (push (bigSetBytes (getHash (bigUint64 num)))) (\<lambda>_. done_op))
       else bindA (push 0) (\<lambda>_. done_op)))"

definition opCoinbase :: "bytes vmAction" where "opCoinbase = raiseA ErrCoinbase"
definition opTimestamp :: "bytes vmAction" where "opTimestamp = pushVal (\<lambda>m. U256 (evTime (mEvm m)))"
definition opNumber :: "bytes vmAction" where "opNumber = pushVal (\<lambda>m. U256 (evBlockNumber (mEvm m)))"
definition opDifficulty :: "bytes vmAction" where "opDifficulty = raiseA ErrDifficulty"
definition opGasLimit :: "bytes vmAction" where "opGasLimit = pushVal (\<lambda>m. U256 (uint (evGasLimit (mEvm m))))"

subsection \<open>Stack, memory, storage and flow\<close>

definition opPop :: "bytes vmAction" where "opPop = bindA pop (\<lambda>_. done_op)"

definition opMload :: "bytes vmAction" where
  "opMload =
     bindA peek (\<lambda>v.
     bindA (readMem (GetPtr (bigInt64 v) 32)) (\<lambda>data.
     bindA (setTop (bigSetBytes data)) (\<lambda>_. done_op)))"

definition opMstore :: "bytes vmAction" where
  "opMstore = bindA pop (\<lambda>mStart. bindA pop (\<lambda>val. bindA (onMem (Set32 (bigUint64 mStart) val)) (\<lambda>_. done_op)))"

definition opMstore8 :: "bytes vmAction" where
  "opMstore8 =
     bindA pop (\<lambda>offset. bindA pop (\<lambda>val.
     bindA (onMem (\<lambda>mem.
         let off = bigInt64 offset
         in if off < 0 \<or> int (length (memStore mem)) \<le> off then None
            else Some (mem\<lparr>memStore := (memStore mem)[nat off := word_of_int (bigInt64 val)]\<rparr>))) (\<lambda>_. done_op)))"

text \<open>The slot of a contract's storage: the hash of the contract's address and the operand.\<close>

definition storageSlot :: "VmEnv \<Rightarrow> address \<Rightarrow> int \<Rightarrow> int" where
  "storageSlot ve addr loc = bigSetBytes (nSha256 (veNatives ve) (addr @ bigBytes loc))"

definition opSload :: "VmEnv \<Rightarrow> bytes vmAction" where
  "opSload ve =
     bindA peek (\<lambda>loc.
     bindA (readA (\<lambda>m. conAddr (mContract m))) (\<lambda>self.
     bindA (onEvm (onState (Load (veEnv ve) (storageSlot ve self loc)))) (\<lambda>b.
     bindA (setTop (bigSetBytes (sliceOf b))) (\<lambda>_. done_op))))"

definition opSstore :: "VmEnv \<Rightarrow> bytes vmAction" where
  "opSstore ve =
     bindA pop (\<lambda>loc. bindA pop (\<lambda>val.
     bindA (readA (\<lambda>m. conAddr (mContract m))) (\<lambda>self.
     bindA (tryA (onEvm (onState (Store_v (veEnv ve) (storageSlot ve self loc) val)))) (\<lambda>_. done_op))))"

text \<open>The check of a destination; a bad one gives the error of the jump instructions.\<close>

definition checkJump :: "int \<Rightarrow> unit vmAction" where
  "checkJump pos m =
     (let c = mContract m
      in case has (conDests c) (conHash c) (conCode c) pos of
           None \<Rightarrow> (Panic, m)
         | Some (ok, d) \<Rightarrow>
             (if ok then Ok () else Err (ErrInvalidJump (GetOp c (bigUint64 pos)) pos),
              m\<lparr>mContract := c\<lparr>conDests := d\<rparr>\<rparr>))"

definition setPc :: "(u64 \<Rightarrow> u64) \<Rightarrow> unit vmAction" where
  "setPc f = modifyA (\<lambda>m. m\<lparr>mPc := f (mPc m)\<rparr>)"

definition opJump :: "bytes vmAction" where
  "opJump =
     bindA pop (\<lambda>pos. bindA (checkJump pos) (\<lambda>_. bindA (setPc (\<lambda>_. bigUint64 pos)) (\<lambda>_. done_op)))"

definition opJumpi :: "bytes vmAction" where
  "opJumpi =
     bindA pop (\<lambda>pos. bindA pop (\<lambda>cond.
       if cond \<noteq> 0 then bindA (checkJump pos) (\<lambda>_. bindA (setPc (\<lambda>_. bigUint64 pos)) (\<lambda>_. done_op))
       else bindA (setPc (\<lambda>pc. pc + 1)) (\<lambda>_. done_op)))"

definition opJumpdest :: "bytes vmAction" where "opJumpdest = done_op"
definition opPc :: "bytes vmAction" where "opPc = pushVal (\<lambda>m. uint (mPc m))"
definition opMsize :: "bytes vmAction" where "opMsize = pushVal (\<lambda>m. int (length (memStore (mMem m))))"
definition opGas :: "bytes vmAction" where "opGas = pushVal (\<lambda>m. uint (conGas (mContract m)))"

subsection \<open>Calls, creations and the end of a run\<close>

type_synonym 'a vmPaction = "(Machine, vmError, 'a) paction"

definition onEvmP :: "'a callAction \<Rightarrow> 'a vmPaction" where
  "onEvmP a m = Option.bind (a (mEvm m)) (\<lambda>(r, e). Some (r, m\<lparr>mEvm := e\<rparr>))"

definition addGas_c :: "u64 \<Rightarrow> unit vmAction" where
  "addGas_c g = modifyA (\<lambda>m. m\<lparr>mContract := (mContract m)\<lparr>conGas := conGas (mContract m) + g\<rparr>\<rparr>)"

definition opCreate :: "VmEnv \<Rightarrow> runner \<Rightarrow> bytes vmPaction" where
  "opCreate ve interp =
     bindP (liftP pop) (\<lambda>value. bindP (liftP pop) (\<lambda>offset. bindP (liftP pop) (\<lambda>sz.
     bindP (liftP (readA mContract)) (\<lambda>c.
     bindP (liftP (modifyA (\<lambda>m. m\<lparr>mContract := (mContract m)\<lparr>conGas := 0\<rparr>\<rparr>))) (\<lambda>_.
     bindP (onEvmP (Create ve interp (conCaller c) (conCode c) (conGas c) value)) (\<lambda>(ret, addr, returnGas, suberr).
     bindP (liftP (push (if suberr \<noteq> None \<and> suberr \<noteq> Some ErrCodeStoreOutOfGas then 0 else bigSetBytes addr))) (\<lambda>_.
     bindP (liftP (addGas_c returnGas)) (\<lambda>_.
       returnP (if suberr = Some errExecutionReverted then ret else [])))))))))"

definition opCreate2 :: "VmEnv \<Rightarrow> runner \<Rightarrow> bytes vmPaction" where
  "opCreate2 ve interp = opCreate ve interp"

text \<open>What the four call instructions do with the result of the call.\<close>

definition callResult :: "int \<Rightarrow> int \<Rightarrow> bytes \<times> u64 \<times> vmError option \<Rightarrow> bytes vmAction" where
  "callResult retOffset retSize out =
     (case out of (ret, returnGas, err) \<Rightarrow>
        bindA (push (if err = None then 1 else 0)) (\<lambda>_.
        bindA (if err = None \<or> err = Some errExecutionReverted
               then onMem (Set_m (bigUint64 retOffset) (bigUint64 retSize) ret) else returnA ()) (\<lambda>_.
        bindA (addGas_c returnGas) (\<lambda>_. returnA ret))))"

definition callArgs :: "int \<Rightarrow> int \<Rightarrow> bytes vmAction" where
  "callArgs inOffset inSize = readMem (GetPtr (bigInt64 inOffset) (bigInt64 inSize))"

text \<open>\<^verbatim>\<open>opCall\<close> calls the contract that is running, not the address on the stack.\<close>

definition opCall :: "VmEnv \<Rightarrow> runner \<Rightarrow> bytes vmPaction" where
  "opCall ve interp =
     bindP (liftP pop) (\<lambda>_.
     bindP (liftP (readA (\<lambda>m. evCallGasTemp (mEvm m)))) (\<lambda>gas.
     bindP (liftP pop) (\<lambda>addr. bindP (liftP pop) (\<lambda>v. bindP (liftP pop) (\<lambda>inOffset. bindP (liftP pop) (\<lambda>inSize.
     bindP (liftP pop) (\<lambda>retOffset. bindP (liftP pop) (\<lambda>retSize.
       let value = U256 v
       in bindP (liftP (callArgs inOffset inSize)) (\<lambda>args.
          bindP (liftP (readA mContract)) (\<lambda>c.
          bindP (onEvmP (Call ve interp (conCaller c) (conAddr c) (conChainId c) args
              (if value \<noteq> 0 then gas + CallStipend else gas) value)) (\<lambda>out.
            liftP (callResult retOffset retSize out))))))))))))"

definition opCallCode :: "VmEnv \<Rightarrow> runner \<Rightarrow> bytes vmPaction" where
  "opCallCode ve interp =
     bindP (liftP pop) (\<lambda>_.
     bindP (liftP (readA (\<lambda>m. evCallGasTemp (mEvm m)))) (\<lambda>gas.
     bindP (liftP pop) (\<lambda>addr. bindP (liftP pop) (\<lambda>v. bindP (liftP pop) (\<lambda>inOffset. bindP (liftP pop) (\<lambda>inSize.
     bindP (liftP pop) (\<lambda>retOffset. bindP (liftP pop) (\<lambda>retSize.
       let value = U256 v
       in bindP (liftP (callArgs inOffset inSize)) (\<lambda>args.
          bindP (liftP (readA mContract)) (\<lambda>c.
          bindP (onEvmP (CallCode ve interp (conCaller c) (BigToAddress addr) args
              (if value \<noteq> 0 then gas + CallStipend else gas) value)) (\<lambda>out.
            liftP (callResult retOffset retSize out))))))))))))"

definition opDelegateCall :: "VmEnv \<Rightarrow> runner \<Rightarrow> bytes vmPaction" where
  "opDelegateCall ve interp =
     bindP (liftP pop) (\<lambda>_.
     bindP (liftP (readA (\<lambda>m. evCallGasTemp (mEvm m)))) (\<lambda>gas.
     bindP (liftP pop) (\<lambda>addr. bindP (liftP pop) (\<lambda>inOffset. bindP (liftP pop) (\<lambda>inSize.
     bindP (liftP pop) (\<lambda>retOffset. bindP (liftP pop) (\<lambda>retSize.
     bindP (liftP (callArgs inOffset inSize)) (\<lambda>args.
     bindP (liftP (readA mContract)) (\<lambda>c.
     bindP (onEvmP (DelegateCall ve interp c (BigToAddress addr) args gas)) (\<lambda>(out, dests).
     bindP (liftP (modifyA (\<lambda>m. m\<lparr>mContract := (mContract m)\<lparr>conDests := dests\<rparr>\<rparr>))) (\<lambda>_.
       liftP (callResult retOffset retSize out))))))))))))"

definition opStaticCall :: "VmEnv \<Rightarrow> runner \<Rightarrow> bytes vmPaction" where
  "opStaticCall ve interp =
     bindP (liftP pop) (\<lambda>_.
     bindP (liftP (readA (\<lambda>m. evCallGasTemp (mEvm m)))) (\<lambda>gas.
     bindP (liftP pop) (\<lambda>addr. bindP (liftP pop) (\<lambda>inOffset. bindP (liftP pop) (\<lambda>inSize.
     bindP (liftP pop) (\<lambda>retOffset. bindP (liftP pop) (\<lambda>retSize.
     bindP (liftP (callArgs inOffset inSize)) (\<lambda>args.
     bindP (liftP (readA mContract)) (\<lambda>c.
     bindP (onEvmP (StaticCall ve interp (conCaller c) (BigToAddress addr) args gas)) (\<lambda>out.
       liftP (callResult retOffset retSize out)))))))))))"

definition returnMem :: "bytes vmAction" where
  "returnMem = bindA pop (\<lambda>offset. bindA pop (\<lambda>sz. readMem (GetPtr (bigInt64 offset) (bigInt64 sz))))"

definition opReturn :: "bytes vmAction" where "opReturn = returnMem"
definition opRevert :: "bytes vmAction" where "opRevert = returnMem"
definition opStop :: "bytes vmAction" where "opStop = done_op"

text \<open>
  The balance is read before the heir is popped. It is nil when the store cannot read its change
  interval, and then \<^verbatim>\<open>AddBalance\<close> returns before it looks at the amount.
\<close>

definition opSuicide :: "VmEnv \<Rightarrow> bytes vmAction" where
  "opSuicide ve =
     (let env = veEnv ve in
      bindA (readA (\<lambda>m. conAddr (mContract m))) (\<lambda>self.
      bindA (onEvm (onState (GetBalance_v env self))) (\<lambda>b.
      bindA pop (\<lambda>a.
      bindA (onEvm (onState (AddBalance_v env (BigToAddress a) (case b of None \<Rightarrow> 0 | Some balance \<Rightarrow> balance)))) (\<lambda>_.
      bindA (onEvm (onState (HasSuicided self))) (\<lambda>dead.
      bindA (if dead then returnA (Ok ()) else tryA (onEvm (onState (Suicide_v env self)))) (\<lambda>_. done_op)))))))"

text \<open>\<^verbatim>\<open>Big2Hash\<close> panics on more than 32 bytes, \<^verbatim>\<open>*contract.TxHash\<close> on a nil pointer.\<close>

fun popTopics :: "nat \<Rightarrow> hash list vmAction" where
  "popTopics 0 = returnA []"
| "popTopics (Suc n) =
     bindA pop (\<lambda>t.
     bindA (liftA (lift_panic (Bytes2Hash (Some (bigBytes t))))) (\<lambda>h.
     bindA (popTopics n) (\<lambda>hs. returnA (h # hs))))"

definition makeLog :: "nat \<Rightarrow> bytes vmAction" where
  "makeLog n =
     bindA pop (\<lambda>mStart. bindA pop (\<lambda>mSize.
     bindA (popTopics n) (\<lambda>topics.
     bindA (readMem (Get_m (bigInt64 mStart) (bigInt64 mSize))) (\<lambda>d.
     bindA (readA mContract) (\<lambda>c.
     bindA (readA (\<lambda>m. bigUint64 (evBlockNumber (mEvm m)))) (\<lambda>height.
       case conTxHash c of
         None \<Rightarrow> panicA
       | Some h \<Rightarrow> bindA (onEvm (onState (AddLog (conCaller c) h d topics height))) (\<lambda>_. done_op)))))))"

definition makePush :: "nat \<Rightarrow> nat \<Rightarrow> bytes vmAction" where
  "makePush sz pushByteSize =
     bindA (readA (\<lambda>m. (conCode (mContract m), mPc m))) (\<lambda>(code, pc).
       let codeLen = int (length code);
           startMin = (if sint (pc + 1) < codeLen then sint (pc + 1) else codeLen);
           endMin = (if startMin + int pushByteSize < codeLen then startMin + int pushByteSize else codeLen)
       in bindA (if startMin < 0 then panicA else liftA (lift_panic (slice code (nat startMin) (nat endMin)))) (\<lambda>d.
          bindA (push (bigSetBytes (RightPadBytes d (int pushByteSize)))) (\<lambda>_.
          bindA (setPc (\<lambda>p. p + of_nat sz)) (\<lambda>_. done_op))))"

definition makeDup :: "nat \<Rightarrow> bytes vmAction" where
  "makeDup n = bindA (dup n) (\<lambda>_. done_op)"

definition makeSwap :: "nat \<Rightarrow> bytes vmAction" where
  "makeSwap n = bindA (swap (n + 1)) (\<lambda>_. done_op)"

end
