(* ===== verification/EvmRun.thy ===== *)
theory EvmRun
  imports EvmOps
begin

section \<open>The instruction set and the interpreter\<close>

text \<open>
  \<^verbatim>\<open>pkgs/evm/vm/jump_table.go\<close> and \<^verbatim>\<open>interpreter.go\<close>. An entry of the table is \<open>None\<close> when its operation is not valid.
  The tracer only observes, and nothing in the repository calls \<^verbatim>\<open>Cancel\<close>, so the loop runs until
  an instruction ends it.
\<close>

record operation =
  execute :: "runner \<Rightarrow> bytes vmPaction"
  gasCost :: gasFunc
  validateStack :: "unit vmAction"
  memorySize :: "int vmAction option"
  halts :: bool
  jumps :: bool
  writes :: bool
  reverts :: bool
  returns :: bool

definition plain :: "bytes vmAction \<Rightarrow> gasFunc \<Rightarrow> unit vmAction \<Rightarrow> operation" where
  "plain f gas stack = \<lparr>execute = (\<lambda>_. liftP f), gasCost = gas, validateStack = stack, memorySize = None,
     halts = False, jumps = False, writes = False, reverts = False, returns = False\<rparr>"

definition calling :: "(runner \<Rightarrow> bytes vmPaction) \<Rightarrow> gasFunc \<Rightarrow> unit vmAction \<Rightarrow> int vmAction \<Rightarrow> operation" where
  "calling f gas stack mem = \<lparr>execute = f, gasCost = gas, validateStack = stack, memorySize = Some mem,
     halts = False, jumps = False, writes = False, reverts = False, returns = True\<rparr>"

subsection \<open>The table\<close>

fun newFrontierInstructionSet :: "VmEnv \<Rightarrow> OpCode \<Rightarrow> operation option" where
  "newFrontierInstructionSet ve STOP = Some ((plain opStop (constGasFunc 0) (makeStackFunc 0 0))\<lparr>halts := True\<rparr>)"
| "newFrontierInstructionSet ve ADD = Some (plain opAdd (constGasFunc GasFastestStep) (makeStackFunc 2 1))"
| "newFrontierInstructionSet ve MUL = Some (plain opMul (constGasFunc GasFastStep) (makeStackFunc 2 1))"
| "newFrontierInstructionSet ve SUB = Some (plain opSub (constGasFunc GasFastestStep) (makeStackFunc 2 1))"
| "newFrontierInstructionSet ve DIV = Some (plain opDiv (constGasFunc GasFastStep) (makeStackFunc 2 1))"
| "newFrontierInstructionSet ve SDIV = Some (plain opSdiv (constGasFunc GasFastStep) (makeStackFunc 2 1))"
| "newFrontierInstructionSet ve MOD = Some (plain opMod (constGasFunc GasFastStep) (makeStackFunc 2 1))"
| "newFrontierInstructionSet ve SMOD = Some (plain opSmod (constGasFunc GasFastStep) (makeStackFunc 2 1))"
| "newFrontierInstructionSet ve ADDMOD = Some (plain opAddmod (constGasFunc GasMidStep) (makeStackFunc 3 1))"
| "newFrontierInstructionSet ve MULMOD = Some (plain opMulmod (constGasFunc GasMidStep) (makeStackFunc 3 1))"
| "newFrontierInstructionSet ve EXP = Some (plain opExp gasExp (makeStackFunc 2 1))"
| "newFrontierInstructionSet ve SIGNEXTEND = Some (plain opSignExtend (constGasFunc GasFastStep) (makeStackFunc 2 1))"
| "newFrontierInstructionSet ve LT = Some (plain opLt (constGasFunc GasFastestStep) (makeStackFunc 2 1))"
| "newFrontierInstructionSet ve GT = Some (plain opGt (constGasFunc GasFastestStep) (makeStackFunc 2 1))"
| "newFrontierInstructionSet ve SLT = Some (plain opSlt (constGasFunc GasFastestStep) (makeStackFunc 2 1))"
| "newFrontierInstructionSet ve SGT = Some (plain opSgt (constGasFunc GasFastestStep) (makeStackFunc 2 1))"
| "newFrontierInstructionSet ve EQ = Some (plain opEq (constGasFunc GasFastestStep) (makeStackFunc 2 1))"
| "newFrontierInstructionSet ve ISZERO = Some (plain opIszero (constGasFunc GasFastestStep) (makeStackFunc 1 1))"
| "newFrontierInstructionSet ve AND_op = Some (plain opAnd (constGasFunc GasFastestStep) (makeStackFunc 2 1))"
| "newFrontierInstructionSet ve XOR_op = Some (plain opXor (constGasFunc GasFastestStep) (makeStackFunc 2 1))"
| "newFrontierInstructionSet ve OR_op = Some (plain opOr (constGasFunc GasFastestStep) (makeStackFunc 2 1))"
| "newFrontierInstructionSet ve NOT_op = Some (plain opNot (constGasFunc GasFastestStep) (makeStackFunc 1 1))"
| "newFrontierInstructionSet ve BYTE = Some (plain opByte (constGasFunc GasFastestStep) (makeStackFunc 2 1))"
| "newFrontierInstructionSet ve SHA3 = Some ((plain (opSha3 (veEnv ve)) gasSha3 (makeStackFunc 2 1))\<lparr>memorySize := Some memorySha3\<rparr>)"
| "newFrontierInstructionSet ve ADDRESS = Some (plain opAddress (constGasFunc GasQuickStep) (makeStackFunc 0 1))"
| "newFrontierInstructionSet ve BALANCE = Some (plain (opBalance (veEnv ve)) gasBalance (makeStackFunc 1 1))"
| "newFrontierInstructionSet ve ORIGIN = Some (plain opOrigin (constGasFunc GasQuickStep) (makeStackFunc 0 1))"
| "newFrontierInstructionSet ve CALLER = Some (plain opCaller (constGasFunc GasQuickStep) (makeStackFunc 0 1))"
| "newFrontierInstructionSet ve CALLVALUE = Some (plain opCallValue (constGasFunc GasQuickStep) (makeStackFunc 0 1))"
| "newFrontierInstructionSet ve CALLDATALOAD = Some (plain opCallDataLoad (constGasFunc GasFastestStep) (makeStackFunc 1 1))"
| "newFrontierInstructionSet ve CALLDATASIZE = Some (plain opCallDataSize (constGasFunc GasQuickStep) (makeStackFunc 0 1))"
| "newFrontierInstructionSet ve CALLDATACOPY = Some ((plain opCallDataCopy gasCallDataCopy (makeStackFunc 3 0))\<lparr>memorySize := Some memoryCallDataCopy\<rparr>)"
| "newFrontierInstructionSet ve CODESIZE = Some (plain opCodeSize (constGasFunc GasQuickStep) (makeStackFunc 0 1))"
| "newFrontierInstructionSet ve CODECOPY = Some ((plain opCodeCopy gasCodeCopy (makeStackFunc 3 0))\<lparr>memorySize := Some memoryCodeCopy\<rparr>)"
| "newFrontierInstructionSet ve GASPRICE = Some (plain opGasprice (constGasFunc GasQuickStep) (makeStackFunc 0 1))"
| "newFrontierInstructionSet ve EXTCODESIZE = Some (plain (opExtCodeSize ve) gasExtCodeSize (makeStackFunc 1 1))"
| "newFrontierInstructionSet ve EXTCODECOPY = Some ((plain (opExtCodeCopy ve) gasExtCodeCopy (makeStackFunc 4 0))\<lparr>memorySize := Some memoryExtCodeCopy\<rparr>)"
| "newFrontierInstructionSet ve BLOCKHASH = Some (plain opBlockhash (constGasFunc GasExtStep) (makeStackFunc 1 1))"
| "newFrontierInstructionSet ve COINBASE = Some (plain opCoinbase (constGasFunc GasQuickStep) (makeStackFunc 0 1))"
| "newFrontierInstructionSet ve TIMESTAMP = Some (plain opTimestamp (constGasFunc GasQuickStep) (makeStackFunc 0 1))"
| "newFrontierInstructionSet ve NUMBER = Some (plain opNumber (constGasFunc GasQuickStep) (makeStackFunc 0 1))"
| "newFrontierInstructionSet ve DIFFICULTY = Some (plain opDifficulty (constGasFunc GasQuickStep) (makeStackFunc 0 1))"
| "newFrontierInstructionSet ve GASLIMIT = Some (plain opGasLimit (constGasFunc GasQuickStep) (makeStackFunc 0 1))"
| "newFrontierInstructionSet ve POP = Some (plain opPop (constGasFunc GasQuickStep) (makeStackFunc 1 0))"
| "newFrontierInstructionSet ve MLOAD = Some ((plain opMload gasMLoad (makeStackFunc 1 1))\<lparr>memorySize := Some memoryMLoad\<rparr>)"
| "newFrontierInstructionSet ve MSTORE = Some ((plain opMstore gasMStore (makeStackFunc 2 0))\<lparr>memorySize := Some memoryMStore\<rparr>)"
| "newFrontierInstructionSet ve MSTORE8 = Some ((plain opMstore8 gasMStore8 (makeStackFunc 2 0))\<lparr>memorySize := Some memoryMStore8\<rparr>)"
| "newFrontierInstructionSet ve SLOAD = Some (plain (opSload ve) gasSLoad (makeStackFunc 1 1))"
| "newFrontierInstructionSet ve SSTORE = Some ((plain (opSstore ve) (gasSStore (veEnv ve)) (makeStackFunc 2 0))\<lparr>writes := True\<rparr>)"
| "newFrontierInstructionSet ve JUMP = Some ((plain opJump (constGasFunc GasMidStep) (makeStackFunc 1 0))\<lparr>jumps := True\<rparr>)"
| "newFrontierInstructionSet ve JUMPI = Some ((plain opJumpi (constGasFunc GasSlowStep) (makeStackFunc 2 0))\<lparr>jumps := True\<rparr>)"
| "newFrontierInstructionSet ve PC = Some (plain opPc (constGasFunc GasQuickStep) (makeStackFunc 0 1))"
| "newFrontierInstructionSet ve MSIZE = Some (plain opMsize (constGasFunc GasQuickStep) (makeStackFunc 0 1))"
| "newFrontierInstructionSet ve GAS = Some (plain opGas (constGasFunc GasQuickStep) (makeStackFunc 0 1))"
| "newFrontierInstructionSet ve JUMPDEST = Some (plain opJumpdest (constGasFunc JumpdestGas) (makeStackFunc 0 0))"
| "newFrontierInstructionSet ve (PUSH n) = Some (plain (makePush n n) gasPush (makeStackFunc 0 1))"
| "newFrontierInstructionSet ve (DUP n) = Some (plain (makeDup n) gasDup (makeDupStackFunc n))"
| "newFrontierInstructionSet ve (SWAP n) = Some (plain (makeSwap n) gasSwap (makeSwapStackFunc (n + 1)))"
| "newFrontierInstructionSet ve (LOG n) = Some ((plain (makeLog n) (makeGasLog n) (makeStackFunc (n + 2) 0))\<lparr>memorySize := Some memoryLog, writes := True\<rparr>)"
| "newFrontierInstructionSet ve CREATE = Some ((calling (opCreate ve) gasCreate (makeStackFunc 3 1) memoryCreate)\<lparr>writes := True\<rparr>)"
| "newFrontierInstructionSet ve CALL = Some (calling (opCall ve) gasCall (makeStackFunc 7 1) memoryCall)"
| "newFrontierInstructionSet ve CALLCODE = Some (calling (opCallCode ve) gasCallCode (makeStackFunc 7 1) memoryCall)"
| "newFrontierInstructionSet ve RETURN = Some ((plain opReturn gasReturn (makeStackFunc 2 0))\<lparr>memorySize := Some memoryReturn, halts := True\<rparr>)"
| "newFrontierInstructionSet ve SELFDESTRUCT = Some ((plain (opSuicide ve) (gasSuicide (veEnv ve)) (makeStackFunc 1 0))\<lparr>halts := True, writes := True\<rparr>)"
| "newFrontierInstructionSet ve _ = None"

definition newHomesteadInstructionSet :: "VmEnv \<Rightarrow> OpCode \<Rightarrow> operation option" where
  "newHomesteadInstructionSet ve = (newFrontierInstructionSet ve)(
     DELEGATECALL \<mapsto> calling (opDelegateCall ve) gasDelegateCall (makeStackFunc 6 1) memoryDelegateCall)"

definition newByzantiumInstructionSet :: "VmEnv \<Rightarrow> OpCode \<Rightarrow> operation option" where
  "newByzantiumInstructionSet ve = (newHomesteadInstructionSet ve)(
     STATICCALL \<mapsto> calling (opStaticCall ve) gasStaticCall (makeStackFunc 6 1) memoryStaticCall,
     RETURNDATASIZE \<mapsto> plain opReturnDataSize (constGasFunc GasQuickStep) (makeStackFunc 0 1),
     RETURNDATACOPY \<mapsto> (plain opReturnDataCopy gasReturnDataCopy (makeStackFunc 3 0))\<lparr>memorySize := Some memoryReturnDataCopy\<rparr>,
     REVERT \<mapsto> (plain opRevert gasRevert (makeStackFunc 2 0))\<lparr>memorySize := Some memoryRevert, reverts := True, returns := True\<rparr>)"

definition newConstantinopleInstructionSet :: "VmEnv \<Rightarrow> OpCode \<Rightarrow> operation option" where
  "newConstantinopleInstructionSet ve = (newByzantiumInstructionSet ve)(
     SHL \<mapsto> plain opSHL (constGasFunc GasFastestStep) (makeStackFunc 2 1),
     SHR \<mapsto> plain opSHR (constGasFunc GasFastestStep) (makeStackFunc 2 1),
     SAR \<mapsto> plain opSAR (constGasFunc GasFastestStep) (makeStackFunc 2 1),
     EXTCODEHASH \<mapsto> plain (opExtCodeHash (veEnv ve)) gasExtCodeHash (makeStackFunc 1 1),
     CREATE2 \<mapsto> (calling (opCreate2 ve) gasCreate2 (makeStackFunc 4 1) memoryCreate2)\<lparr>writes := True\<rparr>)"

definition JumpTable :: "VmEnv \<Rightarrow> byte \<Rightarrow> (OpCode \<times> operation) option" where
  "JumpTable ve b =
     Option.bind (decodeOp b) (\<lambda>op. map_option (\<lambda>oper. (op, oper)) (newConstantinopleInstructionSet ve op))"

subsection \<open>One turn of the loop\<close>

text \<open>\<open>Err\<close> is a \<^verbatim>\<open>return nil, err\<close>; the turn ends the run or goes on.\<close>

datatype stepOut = Stop runOut | Continue

definition enforceRestrictions :: "OpCode \<Rightarrow> operation \<Rightarrow> unit vmAction" where
  "enforceRestrictions op oper =
     bindA (readA (\<lambda>m. evReadOnly (mEvm m))) (\<lambda>ro.
       if ro then
         if writes oper then raiseA errWriteProtection
         else if op = CALL then
           bindA (Back 2) (\<lambda>v. if BitLen v > 0 then raiseA errWriteProtection else returnA ())
         else returnA ()
       else returnA ())"

definition requiredMemory :: "operation \<Rightarrow> u64 vmAction" where
  "requiredMemory oper =
     (case memorySize oper of
        None \<Rightarrow> returnA 0
      | Some f \<Rightarrow>
          bindA f (\<lambda>v.
          bindA (noOverflow (bigUint64_o v)) (\<lambda>memSize.
            noOverflow (SafeMul (ToWordSize memSize) 32))))"

definition useGas :: "u64 \<Rightarrow> unit vmAction" where
  "useGas cost m =
     (case UseGas_c cost (mContract m) of
        None \<Rightarrow> (Err ErrOutOfGas_vm, m)
      | Some c \<Rightarrow> (Ok (), m\<lparr>mContract := c\<rparr>))"

definition chargeGas :: "operation \<Rightarrow> u64 \<Rightarrow> unit vmAction" where
  "chargeGas oper sz =
     bindA (tryA (gasCost oper sz)) (\<lambda>r. case r of Ok cost \<Rightarrow> useGas cost | _ \<Rightarrow> raiseA ErrOutOfGas_vm)"

definition resizeMem :: "u64 \<Rightarrow> unit vmAction" where
  "resizeMem sz = (if sz > 0 then modifyA (\<lambda>m. m\<lparr>mMem := Resize sz (mMem m)\<rparr>) else returnA ())"

definition keepReturnData :: "operation \<Rightarrow> bytes \<Rightarrow> Machine \<Rightarrow> Machine" where
  "keepReturnData oper res m = (if returns oper then m\<lparr>mEvm := (mEvm m)\<lparr>evReturnData := res\<rparr>\<rparr> else m)"

definition executeOp :: "operation \<Rightarrow> runner \<Rightarrow> stepOut vmPaction" where
  "executeOp oper interp m =
     Option.bind (execute oper interp m) (\<lambda>(r, m').
       Some (case r of
          Panic \<Rightarrow> (Panic, m')
        | Err e \<Rightarrow> (Err e, keepReturnData oper [] m')
        | Ok res \<Rightarrow>
            let m1 = keepReturnData oper res m'
            in if reverts oper then (Ok (Stop (res, Some errExecutionReverted)), m1)
               else if halts oper then (Ok (Stop (res, None)), m1)
               else if \<not> jumps oper then (Ok Continue, m1\<lparr>mPc := mPc m1 + 1\<rparr>)
               else (Ok Continue, m1)))"

definition interpStep :: "VmEnv \<Rightarrow> runner \<Rightarrow> stepOut vmPaction" where
  "interpStep ve interp =
     bindP (liftP (readA (\<lambda>m. GetOp (mContract m) (mPc m)))) (\<lambda>b.
       case JumpTable ve b of
         None \<Rightarrow> liftP (raiseA (ErrInvalidOpcode b))
       | Some (op, oper) \<Rightarrow>
           bindP (liftP (validateStack oper)) (\<lambda>_.
           bindP (liftP (enforceRestrictions op oper)) (\<lambda>_.
           bindP (liftP (requiredMemory oper)) (\<lambda>sz.
           bindP (liftP (chargeGas oper sz)) (\<lambda>_.
           bindP (liftP (resizeMem sz)) (\<lambda>_.
             executeOp oper interp))))))"

subsection \<open>The loop and \<^verbatim>\<open>Run\<close>\<close>

partial_function (option) interpLoop :: "stepOut vmPaction \<Rightarrow> runOut vmPaction" where
  "interpLoop step m =
     Option.bind (step m) (\<lambda>(r, m').
       case r of
         Ok out \<Rightarrow> (case out of Stop res \<Rightarrow> Some (Ok res, m') | Continue \<Rightarrow> interpLoop step m')
       | Err e \<Rightarrow> Some (Ok ([], Some e), m')
       | Panic \<Rightarrow> Some (Panic, m'))"

text \<open>\<^verbatim>\<open>Run\<close> with the runner of the calls the contract makes; the deferred functions restore depth and mode.\<close>

definition RunWith :: "VmEnv \<Rightarrow> runner \<Rightarrow> runner" where
  "RunWith ve interp input readOnly =
     (\<lambda>(evm, contract).
        if bigUint64 (conValue contract) \<noteq> 0 then Some (Ok ([], Some ErrContractValue), (evm, contract))
        else
          let setRO = (readOnly \<and> \<not> evReadOnly evm);
              evm1 = evm\<lparr>evDepth := evDepth evm + 1, evReadOnly := evReadOnly evm \<or> readOnly, evReturnData := []\<rparr>;
              leave = (\<lambda>e. e\<lparr>evDepth := evDepth e - 1, evReadOnly := (if setRO then False else evReadOnly e)\<rparr>)
          in if conCode contract = [] then Some (Ok ([], None), (leave evm1, contract))
             else
               Option.bind (interpLoop (interpStep ve interp)
                   \<lparr>mPc = 0, mContract = contract\<lparr>conInput := input\<rparr>, mMem = NewMemory, mStack = [], mEvm = evm1\<rparr>)
                 (\<lambda>(r, m). Some (r, (leave (mEvm m), mContract m))))"

text \<open>
  Contracts call contracts: the nesting of runs is a budget, which the limit on the depth of
  calls keeps from running out (the lemma below).
\<close>

fun RunN :: "nat \<Rightarrow> VmEnv \<Rightarrow> runner" where
  "RunN 0 ve = (\<lambda>_ _ _. None)"
| "RunN (Suc n) ve = RunWith ve (RunN n ve)"

definition runBudget :: nat where "runBudget = 1025"

definition Run :: "VmEnv \<Rightarrow> runner" where
  "Run ve = RunN runBudget ve"

end
