(* ===== verification/EvmTx.thy ===== *)
theory EvmTx
  imports EvmRun TxExec
begin

section \<open>Contract transactions\<close>

text \<open>
  \<^verbatim>\<open>pkgs/evm/vm.go\<close>, \<^verbatim>\<open>runtime.go\<close> and \<^verbatim>\<open>txs.go\<close>. The processor of contract transactions runs the machine on the store
  of its block. The global \<^verbatim>\<open>bigZero\<close> outlives the transaction: it is an argument and a result. The
  result is \<open>None\<close> when the machine does not halt.
\<close>

definition NewEVM :: "BlockHeader \<Rightarrow> Transaction \<Rightarrow> address \<Rightarrow> VmState \<Rightarrow> int \<Rightarrow> EVM" where
  "NewEVM header tx sender state zero =
     \<lparr>evGetHash = None, evOrigin = sender, evGasPrice = txGasPrice tx, evGasLimit = bigUint64 (hGasLimit header),
      evBlockNumber = sint (hHeight header), evTime = sint (hTimestamp header), evTxHash = Some (txHash tx),
      evState = state, evDepth = 0, evCallGasTemp = 0, evChainId = 0, evReturnData = [], evReadOnly = False,
      evBigZero = zero\<rparr>"

definition contractCreation :: "Transaction \<Rightarrow> bool" where
  "contractCreation tx \<longleftrightarrow> addrIsEmpty (txTo tx) \<and> txType tx = CreateContractType"

text \<open>\<^verbatim>\<open>Eval\<close> returns data, gas, contract address, failure flag and error; its gas is what the call left over.\<close>

definition Eval :: "VmEnv \<Rightarrow> Transaction \<Rightarrow> address \<Rightarrow> u64 \<Rightarrow> int \<Rightarrow>
    (bytes \<times> u64 \<times> address \<times> bool \<times> vmError option) callAction" where
  "Eval ve tx sender gas value =
     bindP (if contractCreation tx then
              bindP (Create ve (Run ve) sender (txData tx) gas value) (\<lambda>(ret, addr, g, err). returnP (ret, g, addr, err))
            else
              bindP (onStateP (GetNonce_v (veEnv ve) sender)) (\<lambda>nonce.
              bindP (onStateP (tryA (SetNonce_v (veEnv ve) sender (nonce + 1)))) (\<lambda>_.
              bindP (readP evChainId) (\<lambda>chainId.
              bindP (Call ve (Run ve) sender (txTo tx) chainId (txData tx) gas value) (\<lambda>(ret, g, err).
                returnP (ret, g, ZeroAddress, err))))))
       (\<lambda>(ret, g, addr, vmerr).
          if vmerr = Some ErrInsufficientBalance then returnP ([], 0, ZeroAddress, False, vmerr)
          else returnP (ret, g, addr, vmerr \<noteq> None, None))"

text \<open>The call of the RPC interface, on a store that is dropped afterwards.\<close>

definition Call_service :: "VmEnv \<Rightarrow> BlockHeader \<Rightarrow> Transaction \<Rightarrow> int \<Rightarrow> StoreDB \<Rightarrow> (vmError, bytes) res option" where
  "Call_service ve header tx zero db =
     (case txFrom tx of
        None \<Rightarrow> Some (Err (ErrStore ErrRecoverSender))
      | Some sender \<Rightarrow>
          Option.bind (Call ve (Run ve) sender (txTo tx) 0 (txData tx) (txGas tx) (txAmount tx)
              (NewEVM header tx sender (NewState db (hHeight header)) zero)) (\<lambda>(r, evm).
            Some (andThen r (\<lambda>(ret, g, err). case err of None \<Rightarrow> Ok ret | Some e \<Rightarrow> Err e))))"

text \<open>
  \<^verbatim>\<open>ExecuteTransaction\<close>: it charges the gas that \<^verbatim>\<open>Eval\<close> returned, refunds at most half of the gas
  used, and hands an error of the machine on as the error of the transaction.
\<close>

definition settleEvm :: "Transaction \<Rightarrow> VmState \<Rightarrow> bytes \<times> u64 \<times> address \<times> bool \<times> vmError option \<Rightarrow>
    ExecuteTransactionResult txAction" where
  "settleEvm tx state out =
     (case out of (ret, gas, addr, failed, err) \<Rightarrow>
        bindA (tryA (UseGas gas)) (\<lambda>_.
        bindA (readTx txGasUsed) (\<lambda>used.
        bindA (RefundGas (if used div 2 > vsRefund state then vsRefund state else used div 2)) (\<lambda>_.
          case err of
            Some e \<Rightarrow> raiseA (ErrMsg ''vm'')
          | None \<Rightarrow>
              returnA \<lparr>TxResult = ret, ContractTxExecuteFail = failed,
                ContractTxLog = map (\<lambda>log. log\<lparr>logTxType := txType tx\<rparr>) (GetLogs (txHash tx) state),
                ContractAddr = addr\<rparr>))))"

definition ExecuteTransaction :: "VmEnv \<Rightarrow> BlockHeader \<Rightarrow> Transaction \<Rightarrow> int \<Rightarrow> TxState \<Rightarrow>
    ((chainError, ExecuteTransactionResult) res \<times> TxState \<times> int) option" where
  "ExecuteTransaction ve header tx zero s =
     (case txFrom tx of
        None \<Rightarrow>
          (case settleEvm tx (NewState (tStore s) (hHeight header)) ([], 0, ZeroAddress, False, Some (ErrStore ErrRecoverSender)) s of
             (r, s') \<Rightarrow> Some (r, s', zero))
      | Some sender \<Rightarrow>
          Option.bind (Eval ve tx sender (tGasRemained s) (txAmount tx)
              (NewEVM header tx sender (NewState (tStore s) (hHeight header)) zero)) (\<lambda>(r, evm).
            let s1 = s\<lparr>tStore := vsDb (evState evm)\<rparr>
            in Some (case r of
                 Ok out \<Rightarrow> (case settleEvm tx (evState evm) out s1 of (r', s') \<Rightarrow> (r', s', evBigZero evm))
               | _ \<Rightarrow> (Panic, s1, evBigZero evm))))"

end
