(* ===== verification/EvmSample.thy ===== *)
theory EvmSample
  imports EvmTx LedgerProps
begin

section \<open>A sample machine\<close>

text \<open>
  The sample transaction of Alice starts a machine on the sample store; the theorems on the
  machine are applied to it. The digest functions and curves of the precompiled contracts are
  small total functions.
\<close>

definition sampleNatives :: Natives where
  "sampleNatives = \<lparr>nSha256 = sampleKeccak, nRipemd160 = sampleKeccak, nEcrecover = \<lambda>_ _. None, nG1 = \<lambda>_. None,
     nG1Add = \<lambda>_ _. [], nG1Mul = \<lambda>_ _. [], nG2 = \<lambda>_. None, nPairing = \<lambda>_ _. False\<rparr>"

definition sampleVe :: VmEnv where
  "sampleVe = \<lparr>veEnv = sampleEnv, veNatives = sampleNatives, veNoRecursion = False, veNilCode = False\<rparr>"

definition sampleEvm :: EVM where
  "sampleEvm = NewEVM sampleHeader (sampleTx 0) alice (NewState sampleStore 7) 0"

text \<open>Bob's contract with the given code and gas.\<close>

definition sampleContract :: "bytes \<Rightarrow> u64 \<Rightarrow> Contract" where
  "sampleContract code gas = (NewContract alice (Some ZeroHash) 0 gas 0 None)\<lparr>conAddr := bob, conCode := code\<rparr>"

definition sampleMachine :: "bytes \<Rightarrow> u64 \<Rightarrow> int list \<Rightarrow> Machine" where
  "sampleMachine code gas s =
     \<lparr>mPc = 0, mContract = sampleContract code gas, mMem = NewMemory, mStack = s, mEvm = sampleEvm\<rparr>"

end
