(* ===== verification/EvmArith.thy ===== *)
theory EvmArith
  imports EvmSample "HOL-Library.Signed_Division"
begin

section \<open>Arithmetic instructions\<close>

text \<open>On words of 256 bits the instructions compute the operations of the type \<open>256 word\<close>.\<close>

lemma popPeek_run:
  assumes "mStack m = x # y # s"
  shows "popPeek f m = (Ok [], m\<lparr>mStack := f x y # s\<rparr>)"
  using assms by (simp add: popPeek_def bindA_def pop_def peek_def Back_def index_at_def setTop_def modifyA_def done_op_def)

lemma popPop_run:
  assumes "mStack m = x # y # s"
  shows "popPop f m = (Ok [], m\<lparr>mStack := f x y # s\<rparr>)"
  using assms by (simp add: popPop_def bindA_def pop_def push_def modifyA_def done_op_def)

lemma onTop_run:
  assumes "mStack m = x # s"
  shows "onTop f m = (Ok [], m\<lparr>mStack := f x # s\<rparr>)"
  using assms by (simp add: onTop_def bindA_def peek_def Back_def index_at_def setTop_def modifyA_def done_op_def)

lemma isWord_uint [simp]: "isWord (uint (a :: 256 word))"
  using unsigned_less [of a, where 'a = int] by (simp add: isWord_def)

lemma sign_uint: "S256 (uint (a :: 256 word)) = sint a"
  by (simp add: S256_word)

text \<open>Signed division truncates, and the signed remainder has the sign of the dividend.\<close>

lemma sdiv_value:
  fixes a b :: "256 word"
  shows "(let x = S256 (uint a); y = S256 (uint b)
     in if y = 0 \<or> x = 0 then 0
        else if sgn x \<noteq> sgn y then U256 (- bigDiv \<bar>x\<bar> \<bar>y\<bar>)
        else U256 (bigDiv \<bar>x\<bar> \<bar>y\<bar>)) = uint (W256 (sint a sdiv sint b))"
  by (auto simp: Let_def sign_uint bigDiv_def signed_divide_int_def U256_word sgn_if abs_if)

lemma smod_value:
  fixes a b :: "256 word"
  assumes "b \<noteq> 0"
  shows "(let x = S256 (uint a); y = S256 (uint b)
     in if y = 0 then 0
        else if x < 0 then U256 (- bigMod \<bar>x\<bar> \<bar>y\<bar>)
        else U256 (bigMod \<bar>x\<bar> \<bar>y\<bar>)) = uint (W256 (sint a smod sint b))"
proof -
  have "x smod y = (if x < 0 then - (\<bar>x\<bar> mod \<bar>y\<bar>) else \<bar>x\<bar> mod \<bar>y\<bar>)" if "y \<noteq> 0" for x y :: int
  proof -
    have "\<bar>x\<bar> mod \<bar>y\<bar> = \<bar>x\<bar> - \<bar>x\<bar> div \<bar>y\<bar> * \<bar>y\<bar>" by (simp add: minus_div_mult_eq_mod)
    then show ?thesis using that
      by (auto simp: signed_modulo_int_def signed_divide_int_def sgn_if abs_if)
  qed
  moreover have "sint b \<noteq> 0" using assms by (simp add: signed_eq_0_iff)
  ultimately show ?thesis by (simp add: Let_def sign_uint bigMod_def U256_word)
qed

lemma slt_value:
  assumes "isWord x" "isWord y"
  shows "(if x \<ge> TT255 \<and> y < TT255 then 1 else if x < TT255 \<and> y \<ge> TT255 then 0 else boolWord (x < y)) =
      boolWord (S256 x < S256 y)"
    "(if x \<ge> TT255 \<and> y < TT255 then 0 else if x < TT255 \<and> y \<ge> TT255 then 1 else boolWord (x > y)) =
      boolWord (S256 x > S256 y)"
  using assms by (auto simp: boolWord_def S256_def isWord_def tt256_def TT255_def)

lemma exp_value:
  fixes a b :: "256 word"
  shows "(if uint b < 1 then 1 else if uint a = 0 then 0 else if uint b = 1 then uint a else Exp (uint a) (uint b)) =
    uint (a ^ unat b)"
proof -
  have e: "Exp (uint a) (uint b) = uint (a ^ unat b)"
    unfolding Exp_U256 U256_word by simp
  obtain n where n: "unat b = n" by simp
  then have un: "uint b = int n" by auto
  have "a ^ n = 0" if "uint a = 0" "n \<noteq> 0"
    using that by (simp add: uint_0_iff power_0_left)
  then show ?thesis using e unfolding un n by (cases "n = 0 \<or> n = 1") auto
qed

lemma shift_amount:
  fixes a :: "256 word"
  assumes "\<not> 256 \<le> uint a"
  shows "unat (bigUint64 (uint a)) = unat a" "unat a < 256"
  using assms unat_bigUint64 [of "uint a"] by (simp_all add: nat_less_iff [symmetric] not_le flip: nat_uint_eq)

lemma U256_take: "U256 x = take_bit 256 x"
  by (simp only: U256_mod take_bit_eq_mod)

lemma len256: "LENGTH(256) = 256"
  by simp

lemma uint_ge_256: "256 \<le> uint (a :: 256 word) \<Longrightarrow> 256 \<le> unat a"
  by (metis nat_mono nat_numeral nat_uint_eq)

lemma shl_value:
  fixes a b :: "256 word"
  shows "(if uint a \<ge> 256 then 0 else U256 (push_bit (unat (bigUint64 (uint a))) (uint b))) = uint (push_bit (unat a) b)"
proof (cases "256 \<le> uint a")
  case True
  have "push_bit (unat a) b = 0"
    using uint_ge_256 [OF True] by (intro bit_word_eqI) (simp add: bit_push_bit_iff)
  then show ?thesis using True by simp
next
  case False
  have "U256 (push_bit n (uint b)) = uint (push_bit n b)" for n
    unfolding unsigned_push_bit_eq U256_take len256 ..
  then show ?thesis using False by (simp add: shift_amount)
qed

lemma shr_value:
  fixes a b :: "256 word"
  shows "(if uint a \<ge> 256 then 0 else U256 (drop_bit (unat (bigUint64 (uint a))) (uint b))) = uint (drop_bit (unat a) b)"
proof (cases "256 \<le> uint a")
  case True
  have "drop_bit (unat a) b = 0"
    using uint_ge_256 [OF True] by (intro bit_word_eqI) (auto simp: bit_drop_bit_eq dest: bit_imp_le_length)
  then show ?thesis using True by simp
next
  case False
  have d: "uint (drop_bit n b) = drop_bit n (uint b)" for n
    unfolding unsigned_drop_bit_eq len256 using U256_id [OF isWord_uint [of b]] by (simp only: U256_take)
  have "U256 (drop_bit n (uint b)) = uint (drop_bit n b)" for n
    using U256_id [OF isWord_uint [of "drop_bit n b"]] by (simp only: d)
  then show ?thesis using False by (simp add: shift_amount)
qed

lemma sar_value:
  fixes a b :: "256 word"
  shows "(if uint a \<ge> 256 then U256 (if sint b \<ge> 0 then 0 else - 1)
     else U256 (drop_bit (unat (bigUint64 (uint a))) (sint b))) = uint (signed_drop_bit (unat a) b)"
proof -
  have s: "U256 (drop_bit n (sint b)) = uint (signed_drop_bit n b)" for n
    unfolding U256_word sint_signed_drop_bit_eq [symmetric] by simp
  show ?thesis
  proof (cases "256 \<le> uint a")
    case True
    define n where "n = unat a"
    have r: "- (2 ^ 255) \<le> sint b" "sint b < 2 ^ 255"
      using sint_greater_eq [of b] sint_less [of b] by simp_all
    have p: "(2 :: int) ^ 255 \<le> 2 ^ n" using uint_ge_256 [OF True] by (simp only: n_def) (rule power_increasing, simp_all)
    have "sint b div 2 ^ n = (if sint b \<ge> 0 then 0 else - 1)"
    proof (cases "sint b \<ge> 0")
      case True
      then show ?thesis using r p by (simp add: div_pos_pos_trivial)
    next
      case False
      then have "sint b div 2 ^ n = - 1" using r p by (intro int_div_pos_eq [where r = "sint b + 2 ^ n"]) simp_all
      then show ?thesis using False by simp
    qed
    then show ?thesis using True s [of "unat a"] by (simp add: drop_bit_eq_div n_def)
  next
    case False
    then show ?thesis using s [of "unat a"] by (simp add: shift_amount)
  qed
qed

lemma byte_value:
  fixes a b :: "256 word"
  shows "(if uint a < 32 then uint (Byte (uint b) 32 (bigInt64 (uint a))) else 0) =
    (if uint a < 32 then uint b div 256 ^ (31 - unat a) mod 256 else 0)"
proof (cases "uint a < 32")
  case True
  have i: "bigInt64 (uint a) = uint a"
    using True by (simp add: bigInt64_small)
  have k: "nat (int 32 - 1 - uint a) = 31 - unat a" by (simp add: nat_diff_distrib')
  have "uint (Byte (uint b) 32 (uint a)) = uint (of_nat (unat b div 256 ^ (31 - unat a)) :: byte)"
    using True k by (simp add: Byte_def bigEndianByteAt_nat)
  also have "\<dots> = uint b div 256 ^ (31 - unat a) mod 256"
    by (simp add: unsigned_of_nat take_bit_eq_mod zmod_int zdiv_int)
  finally show ?thesis using True i by simp
qed simp

lemma signExtend_value:
  fixes b :: "256 word"
  shows "U256 (if bit (uint b) n then uint b OR NOT (push_bit n 1 - 1) else uint b AND (push_bit n 1 - 1)) =
    uint (W256 (signed_take_bit n (uint b)))"
proof -
  have "push_bit n 1 - 1 = (mask n :: int)" by (simp add: mask_eq_exp_minus_1 push_bit_eq_mult)
  moreover have "x OR NOT (mask n) = take_bit n x OR NOT (mask n)" for x :: int
    by (rule bit_eqI) (auto simp: bit_simps)
  ultimately show ?thesis
    by (simp add: U256_word signed_take_bit_def take_bit_eq_mask)
qed

lemma U256_uint [simp]: "U256 (uint (c :: 256 word)) = uint c"
  by (rule U256_id) simp

text \<open>The functions of the instructions on the values of words.\<close>

lemma ring_values:
  fixes a b :: "256 word"
  shows "U256 (uint a + uint b) = uint (a + b)"
    "U256 (uint a - uint b) = uint (a - b)"
    "U256 (uint a * uint b) = uint (a * b)"
  by (simp_all add: U256_word)

lemma div_value:
  fixes a b :: "256 word"
  shows "(if uint b \<noteq> 0 then U256 (bigDiv (uint a) (uint b)) else 0) = uint (a div b)"
proof -
  have "U256 (uint a div uint b) = uint (a div b)" by (simp flip: uint_div)
  moreover have "0 \<le> y \<Longrightarrow> y \<noteq> 0 \<Longrightarrow> bigDiv x y = x div y" for x y by (simp add: bigDiv_def)
  ultimately show ?thesis by (simp add: uint_div)
qed

lemma mod_value:
  fixes a b :: "256 word"
  shows "(if uint b = 0 then 0 else U256 (bigMod (uint a) (uint b))) = (if b = 0 then 0 else uint (a mod b))"
proof -
  have "U256 (uint a mod uint b) = uint (a mod b)" by (simp flip: uint_mod)
  then show ?thesis by (simp add: bigMod_def uint_0_iff)
qed

lemma smod_zero_value:
  fixes a b :: "256 word"
  shows "(let x = S256 (uint a); y = S256 (uint b)
     in if y = 0 then 0
        else if x < 0 then U256 (- bigMod \<bar>x\<bar> \<bar>y\<bar>)
        else U256 (bigMod \<bar>x\<bar> \<bar>y\<bar>)) = (if b = 0 then 0 else uint (W256 (sint a smod sint b)))"
proof (cases "b = 0")
  case True
  then have "S256 (uint b) = 0" by (simp only: sign_uint) simp
  then show ?thesis using True by simp
next
  case False
  then show ?thesis using smod_value [of b a] by simp
qed

lemma compare_values:
  fixes a b :: "256 word"
  shows "uint a < uint b \<longleftrightarrow> a < b" "uint a = uint b \<longleftrightarrow> a = b"
    "(if uint a > 0 then 0 else 1) = boolWord (a = 0)"
proof -
  show "uint a < uint b \<longleftrightarrow> a < b" "uint a = uint b \<longleftrightarrow> a = b"
    unfolding word_less_def word_uint_eq_iff by (rule refl)+
  have "0 < uint a \<longleftrightarrow> a \<noteq> 0" using uint_0_iff [of a] unsigned_greater_eq [of a, where 'a = int] by linarith
  then show "(if uint a > 0 then 0 else 1) = boolWord (a = 0)" by (simp add: boolWord_def)
qed

lemma bit_values:
  fixes a b :: "256 word"
  shows "uint a AND uint b = uint (a AND b)" "uint a OR uint b = uint (a OR b)" "uint a XOR uint b = uint (a XOR b)"
    "U256 (NOT (uint a)) = uint (NOT a)"
proof -
  have "W256 (NOT (uint a)) = NOT a" by (simp add: of_int_not_eq)
  then show "U256 (NOT (uint a)) = uint (NOT a)" by (simp only: U256_word)
qed (simp_all add: unsigned_and_eq unsigned_or_eq unsigned_xor_eq)

lemma signExtend_run:
  fixes a b :: "256 word"
  assumes "mStack m = uint a # uint b # s"
  shows "opSignExtend m = (Ok [], m\<lparr>mStack :=
      (if uint a < 31 then uint (W256 (signed_take_bit (8 * unat a + 7) (uint b))) else uint b) # s\<rparr>)"
proof (cases "uint a < 31")
  case True
  have "unat (bigUint64 (uint a) * 8 + 7) = 8 * unat a + 7"
  proof -
    have l: "unat a < 31" using True by (simp add: nat_less_iff flip: nat_uint_eq)
    have "unat (bigUint64 (uint a)) = unat a" using True unat_bigUint64 [of "uint a"] by simp
    then show ?thesis using l by (simp add: unat_word_ariths)
  qed
  then show ?thesis using True assms
    by (simp add: opSignExtend_def bindA_def pop_def push_def modifyA_def done_op_def Let_def signExtend_value
        del: push_bit_of_1 split del: if_split)
next
  case False
  then show ?thesis using assms by (simp add: opSignExtend_def bindA_def pop_def done_op_def)
qed

text \<open>
  C8. On two words of 256 bits the arithmetic, comparison, bitwise and shift instructions replace the
  operands by the result of the operation of 256-bit machine words: wrapping for
  addition, subtraction, multiplication and exponentiation, zero for a division by zero,
  truncating for signed division, arithmetic for the signed shift.
\<close>

theorem arithmetic_words:
  fixes a b :: "256 word"
  assumes "mStack m = uint a # uint b # s"
  shows "opAdd m = (Ok [], m\<lparr>mStack := uint (a + b) # s\<rparr>) \<and>
    opSub m = (Ok [], m\<lparr>mStack := uint (a - b) # s\<rparr>) \<and>
    opMul m = (Ok [], m\<lparr>mStack := uint (a * b) # s\<rparr>) \<and>
    opDiv m = (Ok [], m\<lparr>mStack := uint (a div b) # s\<rparr>) \<and>
    opSdiv m = (Ok [], m\<lparr>mStack := uint (W256 (sint a sdiv sint b)) # s\<rparr>) \<and>
    opMod m = (Ok [], m\<lparr>mStack := (if b = 0 then 0 else uint (a mod b)) # s\<rparr>) \<and>
    opSmod m = (Ok [], m\<lparr>mStack := (if b = 0 then 0 else uint (W256 (sint a smod sint b))) # s\<rparr>) \<and>
    opExp m = (Ok [], m\<lparr>mStack := uint (a ^ unat b) # s\<rparr>) \<and>
    opSignExtend m = (Ok [], m\<lparr>mStack :=
      (if uint a < 31 then uint (W256 (signed_take_bit (8 * unat a + 7) (uint b))) else uint b) # s\<rparr>) \<and>
    opLt m = (Ok [], m\<lparr>mStack := boolWord (a < b) # s\<rparr>) \<and>
    opGt m = (Ok [], m\<lparr>mStack := boolWord (a > b) # s\<rparr>) \<and>
    opSlt m = (Ok [], m\<lparr>mStack := boolWord (sint a < sint b) # s\<rparr>) \<and>
    opSgt m = (Ok [], m\<lparr>mStack := boolWord (sint a > sint b) # s\<rparr>) \<and>
    opEq m = (Ok [], m\<lparr>mStack := boolWord (a = b) # s\<rparr>) \<and>
    opIszero m = (Ok [], m\<lparr>mStack := boolWord (a = 0) # uint b # s\<rparr>) \<and>
    opAnd m = (Ok [], m\<lparr>mStack := uint (a AND b) # s\<rparr>) \<and>
    opOr m = (Ok [], m\<lparr>mStack := uint (a OR b) # s\<rparr>) \<and>
    opXor m = (Ok [], m\<lparr>mStack := uint (a XOR b) # s\<rparr>) \<and>
    opNot m = (Ok [], m\<lparr>mStack := uint (NOT a) # uint b # s\<rparr>) \<and>
    opByte m = (Ok [], m\<lparr>mStack := (if uint a < 32 then uint b div 256 ^ (31 - unat a) mod 256 else 0) # s\<rparr>) \<and>
    opSHL m = (Ok [], m\<lparr>mStack := uint (push_bit (unat a) b) # s\<rparr>) \<and>
    opSHR m = (Ok [], m\<lparr>mStack := uint (drop_bit (unat a) b) # s\<rparr>) \<and>
    opSAR m = (Ok [], m\<lparr>mStack := uint (signed_drop_bit (unat a) b) # s\<rparr>)"
proof -
  note P = popPeek_run [OF assms] popPop_run [OF assms] onTop_run [of m "uint a" "uint b # s", OF assms]
  have "opAdd m = (Ok [], m\<lparr>mStack := uint (a + b) # s\<rparr>)" "opSub m = (Ok [], m\<lparr>mStack := uint (a - b) # s\<rparr>)"
    "opMul m = (Ok [], m\<lparr>mStack := uint (a * b) # s\<rparr>)" "opDiv m = (Ok [], m\<lparr>mStack := uint (a div b) # s\<rparr>)"
    "opSdiv m = (Ok [], m\<lparr>mStack := uint (W256 (sint a sdiv sint b)) # s\<rparr>)"
    "opMod m = (Ok [], m\<lparr>mStack := (if b = 0 then 0 else uint (a mod b)) # s\<rparr>)"
    "opSmod m = (Ok [], m\<lparr>mStack := (if b = 0 then 0 else uint (W256 (sint a smod sint b))) # s\<rparr>)"
    "opExp m = (Ok [], m\<lparr>mStack := uint (a ^ unat b) # s\<rparr>)"
    by (simp_all only: opAdd_def opSub_def opMul_def opDiv_def opSdiv_def opMod_def opSmod_def opExp_def P
       ring_values div_value mod_value sdiv_value smod_zero_value exp_value)
  moreover have "opLt m = (Ok [], m\<lparr>mStack := boolWord (a < b) # s\<rparr>)" "opGt m = (Ok [], m\<lparr>mStack := boolWord (a > b) # s\<rparr>)"
    "opSlt m = (Ok [], m\<lparr>mStack := boolWord (sint a < sint b) # s\<rparr>)"
    "opSgt m = (Ok [], m\<lparr>mStack := boolWord (sint a > sint b) # s\<rparr>)"
    "opEq m = (Ok [], m\<lparr>mStack := boolWord (a = b) # s\<rparr>)"
    "opIszero m = (Ok [], m\<lparr>mStack := boolWord (a = 0) # uint b # s\<rparr>)"
    using slt_value [OF isWord_uint [of a] isWord_uint [of b]]
    by (simp_all only: opLt_def opGt_def opSlt_def opSgt_def opEq_def opIszero_def P sign_uint compare_values)
  moreover have "opAnd m = (Ok [], m\<lparr>mStack := uint (a AND b) # s\<rparr>)" "opOr m = (Ok [], m\<lparr>mStack := uint (a OR b) # s\<rparr>)"
    "opXor m = (Ok [], m\<lparr>mStack := uint (a XOR b) # s\<rparr>)"
    "opNot m = (Ok [], m\<lparr>mStack := uint (NOT a) # uint b # s\<rparr>)"
    "opByte m = (Ok [], m\<lparr>mStack := (if uint a < 32 then uint b div 256 ^ (31 - unat a) mod 256 else 0) # s\<rparr>)"
    by (simp_all only: opAnd_def opOr_def opXor_def opNot_def opByte_def P bit_values byte_value)
  moreover have "opSHL m = (Ok [], m\<lparr>mStack := uint (push_bit (unat a) b) # s\<rparr>)"
    "opSHR m = (Ok [], m\<lparr>mStack := uint (drop_bit (unat a) b) # s\<rparr>)"
    "opSAR m = (Ok [], m\<lparr>mStack := uint (signed_drop_bit (unat a) b) # s\<rparr>)"
    by (simp_all only: opSHL_def opSHR_def opSAR_def P Let_def U256_uint sign_uint shl_value shr_value sar_value)
  ultimately show ?thesis using signExtend_run [OF assms] by simp
qed

text \<open>Minus seven and two.\<close>

theorem arithmetic_words_witness:
  "opSdiv (sampleMachine [] 0 [uint (- 7 :: 256 word), uint (2 :: 256 word)]) =
     (Ok [], sampleMachine [] 0 [uint (- 3 :: 256 word)])"
proof -
  let ?m = "sampleMachine [] 0 [uint (- 7 :: 256 word), uint (2 :: 256 word)]"
  have "mStack ?m = [uint (- 7 :: 256 word), uint (2 :: 256 word)]" by (simp only: sampleMachine_def Machine.simps)
  from arithmetic_words [OF this]
  have 1: "opSdiv ?m = (Ok [], ?m\<lparr>mStack := [uint (W256 (sint (- 7 :: 256 word) sdiv sint (2 :: 256 word)))]\<rparr>)"
    by (elim conjE)
  have "sint (- 7 :: 256 word) sdiv sint (2 :: 256 word) = - 3" by (simp add: signed_divide_int_def)
  then have "W256 (sint (- 7 :: 256 word) sdiv sint (2 :: 256 word)) = - 3" by simp
  then show ?thesis unfolding 1 by (simp only: sampleMachine_def Machine.simps)
qed

end
