(* ===== verification/EvmFrame.thy ===== *)
theory EvmFrame
  imports EvmTx
begin

section \<open>What the instructions leave alone\<close>

text \<open>
  An action framed a view of the state when the view is the same before and after, whatever
  the result. A view of the machine that does not look at the stack, the program counter, the
  memory, the table of jump destinations, the store and the refund counter is kept by every instruction
  that neither calls nor logs: the locale proves it once, for the views of the theories that follow.
\<close>

definition framed :: "('s \<Rightarrow> 'v) \<Rightarrow> ('s, 'e, 'a) action \<Rightarrow> bool" where
  "framed f m \<longleftrightarrow> (\<forall>s. f (snd (m s)) = f s)"

definition framedP :: "('s \<Rightarrow> 'v) \<Rightarrow> ('s, 'e, 'a) paction \<Rightarrow> bool" where
  "framedP f m \<longleftrightarrow> (\<forall>s r s'. m s = Some (r, s') \<longrightarrow> f s' = f s)"

named_theorems framed_rules

lemma framedD: "framed f m \<Longrightarrow> m s = (r, s') \<Longrightarrow> f s' = f s"
  unfolding framed_def by (metis snd_conv)

lemma framedPD: "framedP f m \<Longrightarrow> m s = Some (r, s') \<Longrightarrow> f s' = f s"
  unfolding framedP_def by blast

lemma framed_basic [framed_rules]:
  "framed f (returnA a)" "framed f (raiseA e)" "framed f panicA" "framed f (readA g)" "framed f (liftA r)"
  by (simp_all add: framed_def returnA_def raiseA_def panicA_def readA_def liftA_def)

lemma framed_bindA [framed_rules]:
  assumes "framed f m" "\<And>a. framed f (k a)"
  shows "framed f (bindA m k)"
  using assms unfolding framed_def bindA_def by (auto split: prod.splits res.splits) (metis snd_conv)+

lemma framed_tryA [framed_rules]: "framed f m \<Longrightarrow> framed f (tryA m)"
  unfolding framed_def tryA_def by (auto split: prod.splits res.splits) (metis snd_conv)+

lemma framed_if [framed_rules]: "framed f m \<Longrightarrow> framed f n \<Longrightarrow> framed f (if b then m else n)"
  by simp

lemma framed_option [framed_rules]: "framed f m \<Longrightarrow> (\<And>x. framed f (n x)) \<Longrightarrow> framed f (case opt of None \<Rightarrow> m | Some x \<Rightarrow> n x)"
  by (cases opt) simp_all

lemma framed_res [framed_rules]:
  "framed f m \<Longrightarrow> (\<And>x. framed f (n x)) \<Longrightarrow> (\<And>x. framed f (k x)) \<Longrightarrow> framed f (case r of Panic \<Rightarrow> m | Err e \<Rightarrow> n e | Ok x \<Rightarrow> k x)"
  by (cases r) simp_all

lemma framed_prod [framed_rules]: "(\<And>x y. framed f (n x y)) \<Longrightarrow> framed f (case p of (x, y) \<Rightarrow> n x y)"
  by (cases p) simp

lemma framed_Let [framed_rules]: "(\<And>x. framed f (n x)) \<Longrightarrow> framed f (let x = v in n x)"
  by (simp add: Let_def)

lemma framed_modifyA: "(\<And>s. f (g s) = f s) \<Longrightarrow> framed f (modifyA g)"
  by (simp add: framed_def modifyA_def)

text \<open>Partial actions.\<close>

lemma framedP_liftP [framed_rules]: "framed f m \<Longrightarrow> framedP f (liftP m)"
  by (auto simp: framedP_def liftP_def dest: framedD)

lemma framedP_bindP [framed_rules]:
  assumes "framedP f m" "\<And>a. framedP f (k a)"
  shows "framedP f (bindP m k)"
  unfolding framedP_def
proof (intro allI impI)
  fix s r s'
  assume "bindP m k s = Some (r, s')"
  then obtain r1 s1 where 1: "m s = Some (r1, s1)"
    and 2: "(case r1 of Ok a \<Rightarrow> k a s1 | Err e \<Rightarrow> Some (Err e, s1) | Panic \<Rightarrow> Some (Panic, s1)) = Some (r, s')"
    by (auto simp: bindP_def bind_eq_Some_conv)
  have "f s' = f s1" using 2 framedPD [OF assms(2)] by (cases r1) auto
  then show "f s' = f s" using framedPD [OF assms(1) 1] by simp
qed

lemma framedP_returnP [framed_rules]: "framedP f (returnP a)"
  unfolding returnP_def by (intro framed_rules)

lemma framedP_if [framed_rules]: "framedP f m \<Longrightarrow> framedP f n \<Longrightarrow> framedP f (if b then m else n)"
  by simp

lemma framedP_option [framed_rules]: "framedP f m \<Longrightarrow> (\<And>x. framedP f (n x)) \<Longrightarrow> framedP f (case opt of None \<Rightarrow> m | Some x \<Rightarrow> n x)"
  by (cases opt) simp_all

lemma framedP_prod [framed_rules]: "(\<And>x y. framedP f (n x y)) \<Longrightarrow> framedP f (case p of (x, y) \<Rightarrow> n x y)"
  by (cases p) simp

lemma framedP_prod2 [framed_rules]: "(\<And>x y. framedP f (n x y z)) \<Longrightarrow> framedP f ((case p of (x, y) \<Rightarrow> n x y) z)"
  by (cases p) simp

lemma framedP_Let [framed_rules]: "(\<And>x. framedP f (n x)) \<Longrightarrow> framedP f (let x = v in n x)"
  by (simp add: Let_def)

subsection \<open>Views of the chain's state\<close>

text \<open>The store changes the cells, and only \<^verbatim>\<open>AddLog\<close> and the refund counter change anything else.\<close>

locale state_view =
  fixes g :: "VmState \<Rightarrow> 'v"
  assumes db: "g (s\<lparr>vsDb := d\<rparr>) = g s"
    and refund: "g (s\<lparr>vsRefund := r\<rparr>) = g s"
begin

lemma onDb_keeps [framed_rules]: "framed g (onDb m)"
  by (auto simp: framed_def onDb_def db split: prod.splits res.splits)

lemma state_keeps [framed_rules]:
  "framed g (Empty_v a)" "framed g (HasSuicided a)" "framed g (CreateContractAccount env a c)" "framed g (GetBalance_v env a)"
  "framed g (SubBalance_v env a x)" "framed g (AddBalance_v env a x)" "framed g (SetNonce_v env a n)" "framed g (GetNonce_v env a)"
  "framed g (Suicide_v env a)" "framed g (GetByteCode_v ve a)" "framed g (GetCodeHash_v env a)" "framed g (SetByteCode env a c)"
  "framed g (Load env y)" "framed g (Store_v env y x)"
proof -
  have h: "framed g (\<lambda>s. onDb (m s) s)" for m :: "VmState \<Rightarrow> 'a storeAction"
    by (simp add: framed_def onDb_keeps [unfolded framed_def])
  show "framed g (GetBalance_v env a)" "framed g (AddBalance_v env a x)"
    unfolding GetBalance_v_def AddBalance_v_def by (rule h)+
  note this [framed_rules]
  show "framed g (SubBalance_v env a x)" unfolding SubBalance_v_def by (intro framed_rules h)
qed (unfold Empty_v_def HasSuicided_def CreateContractAccount_def SetNonce_v_def GetNonce_v_def Suicide_v_def
    GetByteCode_v_def GetCodeHash_v_def SetByteCode_def Load_def Store_v_def, (intro framed_rules)+)

lemma refund_keeps [framed_rules]: "framed g (AddRefund x)" "framed g (SubRefund x)"
  by (simp_all add: framed_def AddRefund_def SubRefund_def modifyA_def refund)

lemma derived_keeps [framed_rules]:
  "framed g (GetCodeSize ve a)" "framed g (Exist ve a)" "framed g (CanTransfer env a x)" "framed g (Transfer env a b x)"
  unfolding GetCodeSize_def Exist_def CanTransfer_def Transfer_def by (intro framed_rules)+

lemma storeCode_keeps [framed_rules]: "framed g (storeCode env a oc)"
  unfolding storeCode_def by (intro framed_rules)

end

subsection \<open>The table\<close>

definition callsOut :: "OpCode \<Rightarrow> bool" where
  "callsOut op \<longleftrightarrow> op \<in> {CREATE, CALL, CALLCODE, DELEGATECALL, CREATE2, STATICCALL}"

definition isLog :: "OpCode \<Rightarrow> bool" where
  "isLog op \<longleftrightarrow> (\<exists>n. op = LOG n)"

lemmas table_defs = newConstantinopleInstructionSet_def newByzantiumInstructionSet_def newHomesteadInstructionSet_def

lemma plain_sel [simp]:
  "execute (plain e g v) = (\<lambda>_. liftP e)" "gasCost (plain e g v) = g" "validateStack (plain e g v) = v"
  "memorySize (plain e g v) = None"
  by (simp_all add: plain_def)

lemma calling_sel [simp]:
  "gasCost (calling h g v ms) = g" "validateStack (calling h g v ms) = v" "memorySize (calling h g v ms) = Some ms"
  by (simp_all add: calling_def)

subsection \<open>A turn of the interpreter\<close>

text \<open>The checks and charges before an instruction, as one action.\<close>

definition prepare :: "OpCode \<Rightarrow> operation \<Rightarrow> unit vmAction" where
  "prepare op oper =
     bindA (validateStack oper) (\<lambda>_.
     bindA (enforceRestrictions op oper) (\<lambda>_.
     bindA (requiredMemory oper) (\<lambda>sz.
     bindA (chargeGas oper sz) (\<lambda>_. resizeMem sz))))"

lemma bindP_liftP: "bindP (liftP m) (\<lambda>a. bindP (liftP (k a)) h) = bindP (liftP (bindA m k)) h"
  by (simp add: fun_eq_iff bindP_def liftP_def bindA_def split: res.splits prod.splits)

lemma interpStep_prepare:
  "interpStep ve interp m =
     (case JumpTable ve (GetOp (mContract m) (mPc m)) of
        None \<Rightarrow> Some (Err (ErrInvalidOpcode (GetOp (mContract m) (mPc m))), m)
      | Some (op, oper) \<Rightarrow> bindP (liftP (prepare op oper)) (\<lambda>_. executeOp oper interp) m)"
  unfolding interpStep_def prepare_def bindP_liftP [symmetric]
  by (simp add: bindP_def liftP_def readA_def raiseA_def split: option.splits)

lemma JumpTable_op: "JumpTable ve b = Some (op, oper) \<Longrightarrow> newConstantinopleInstructionSet ve op = Some oper"
  by (auto simp: JumpTable_def bind_eq_Some_conv)

lemma interpStep_cases [consumes 1, case_names invalid refused run]:
  assumes "interpStep ve interp m = Some (r, m')"
  obtains (invalid) "JumpTable ve (GetOp (mContract m) (mPc m)) = None" "m' = m"
      "r = Err (ErrInvalidOpcode (GetOp (mContract m) (mPc m)))"
    | (refused) op oper r1 where "JumpTable ve (GetOp (mContract m) (mPc m)) = Some (op, oper)" "prepare op oper m = (r1, m')"
      "r1 \<noteq> Ok ()" "\<And>out. r \<noteq> Ok out" "r = Panic \<longleftrightarrow> r1 = Panic"
    | (run) op oper m1 where "JumpTable ve (GetOp (mContract m) (mPc m)) = Some (op, oper)" "prepare op oper m = (Ok (), m1)"
      "executeOp oper interp m1 = Some (r, m')"
proof (cases "JumpTable ve (GetOp (mContract m) (mPc m))")
  case None
  then show thesis using assms by (intro invalid) (auto simp: interpStep_prepare)
next
  case (Some x)
  obtain op oper where x: "x = (op, oper)" by (cases x)
  obtain r1 m1 where p: "prepare op oper m = (r1, m1)" by (cases "prepare op oper m")
  show thesis
  proof (cases r1)
    case (Ok u)
    then show thesis using assms run [of op oper m1] Some x p by (simp add: interpStep_prepare bindP_def liftP_def)
  next
    case (Err e)
    then have "r = Err e" "m' = m1" using assms Some x p by (simp_all add: interpStep_prepare bindP_def liftP_def)
    then show thesis using Some x p Err by (intro refused [of op oper r1]) simp_all
  next
    case Panic
    then have "r = Panic" "m' = m1" using assms Some x p by (simp_all add: interpStep_prepare bindP_def liftP_def)
    then show thesis using Some x p Panic by (intro refused [of op oper r1]) simp_all
  qed
qed

lemma executeOp_cases [consumes 1, case_names panic error stop continue]:
  assumes "executeOp oper interp m = Some (r, m')"
  obtains (panic) "execute oper interp m = Some (Panic, m')" "r = Panic"
    | (error) e m1 where "execute oper interp m = Some (Err e, m1)" "r = Err e" "m' = keepReturnData oper [] m1"
    | (stop) res m1 out where "execute oper interp m = Some (Ok res, m1)" "r = Ok (Stop out)"
      "m' = keepReturnData oper res m1" "reverts oper \<or> halts oper"
    | (continue) res m1 where "execute oper interp m = Some (Ok res, m1)" "r = Ok Continue" "\<not> reverts oper" "\<not> halts oper"
      "m' = (let m2 = keepReturnData oper res m1 in if jumps oper then m2 else m2\<lparr>mPc := mPc m2 + 1\<rparr>)"
proof -
  obtain r1 m1 where 1: "execute oper interp m = Some (r1, m1)"
    using assms by (auto simp: executeOp_def bind_eq_Some_conv)
  show thesis
  proof (cases r1)
    case Panic
    then show thesis using assms 1 panic by (simp add: executeOp_def)
  next
    case (Err e)
    then show thesis using assms 1 error [of e m1] by (simp add: executeOp_def)
  next
    case (Ok res)
    then show thesis using assms 1 stop [of res m1] continue [of res m1]
      by (auto simp: executeOp_def Let_def split: if_splits)
  qed
qed

lemma log_writes: "newConstantinopleInstructionSet ve op = Some oper \<Longrightarrow> isLog op \<Longrightarrow> writes oper"
  by (auto simp: isLog_def table_defs)

subsection \<open>Views of the machine\<close>

abbreviation withState :: "Machine \<Rightarrow> VmState \<Rightarrow> Machine" where
  "withState m s \<equiv> m\<lparr>mEvm := (mEvm m)\<lparr>evState := s\<rparr>\<rparr>"

locale machine_view =
  fixes f :: "Machine \<Rightarrow> 'v"
  assumes stack: "f (m\<lparr>mStack := s\<rparr>) = f m"
    and pc: "f (m\<lparr>mPc := p\<rparr>) = f m"
    and mem: "f (m\<lparr>mMem := x\<rparr>) = f m"
    and dests: "f (m\<lparr>mContract := (mContract m)\<lparr>conDests := d\<rparr>\<rparr>) = f m"
    and store: "f (withState m ((evState (mEvm m))\<lparr>vsDb := b\<rparr>)) = f m"
    and refunds: "f (withState m ((evState (mEvm m))\<lparr>vsRefund := r\<rparr>)) = f m"
    and callTemp: "f (m\<lparr>mEvm := (mEvm m)\<lparr>evCallGasTemp := t\<rparr>\<rparr>) = f m"

sublocale machine_view \<subseteq> sv: state_view "\<lambda>s. f (withState m s)" for m
proof
  fix s d
  show "f (withState m (s\<lparr>vsDb := d\<rparr>)) = f (withState m s)" using store [where m = "withState m s" and b = d] by simp
next
  fix s r
  show "f (withState m (s\<lparr>vsRefund := r\<rparr>)) = f (withState m s)" using refunds [where m = "withState m s" and r = r] by simp
qed

context machine_view
begin

lemma onState_keeps [framed_rules]:
  assumes "\<And>m. framed (\<lambda>s. f (withState m s)) a"
  shows "framed f (onEvm (onState a))"
proof -
  have "f (withState m (snd (a (evState (mEvm m))))) = f m" for m
    using assms [of m, unfolded framed_def, rule_format, of "evState (mEvm m)"] by simp
  then show ?thesis by (simp add: framed_def onEvm_def onState_def zoomA_def split_beta)
qed

lemma stack_keeps [framed_rules]:
  "framed f (push v)" "framed f pop" "framed f (Back n)" "framed f peek" "framed f (setTop v)" "framed f (swap n)"
  "framed f (require n)"
  by (simp_all add: framed_def push_def pop_def Back_def peek_def setTop_def swap_def require_def modifyA_def stack
      split: list.splits option.splits)

lemma validate_keeps [framed_rules]:
  "framed f (dup n)" "framed f (makeStackFunc i j)" "framed f (makeDupStackFunc n)" "framed f (makeSwapStackFunc n)"
proof -
  have "framed f (\<lambda>m. (if b m then Err (e m) else Ok (), m))" for b e
    by (simp add: framed_def)
  then show "framed f (makeStackFunc i j)" for i j unfolding makeStackFunc_def by (intro framed_rules)
  then show "framed f (makeDupStackFunc n)" "framed f (makeSwapStackFunc n)"
    unfolding makeDupStackFunc_def makeSwapStackFunc_def by blast+
qed (unfold dup_def, intro framed_rules)

lemma memory_keeps [framed_rules]: "framed f (onMem h)" "framed f (readMem k)" "framed f (memoryGas n)" "framed f (resizeMem n)"
  by (simp_all add: framed_def onMem_def readMem_def memoryGas_def zoomA_def resizeMem_def modifyA_def returnA_def mem split_beta
      split: option.splits)

lemma checkJump_keeps [framed_rules]: "framed f (checkJump n)"
  by (simp add: framed_def checkJump_def Let_def dests split: option.splits prod.splits)

lemma setPc_keeps [framed_rules]: "framed f (setPc h)"
  by (simp add: framed_def setPc_def modifyA_def pc)

lemma helper_keeps [framed_rules]:
  "framed f done_op" "framed f (noOverflow p)" "framed f (memorySpan i j)"
  unfolding done_op_def noOverflow_def memorySpan_def by (intro framed_rules)+

lemma popTopics_keeps [framed_rules]: "framed f (popTopics n)"
proof (induction n)
  case (Suc n)
  show ?case unfolding popTopics.simps by (intro framed_rules Suc)
qed (simp add: framed_def)

lemma shape_keeps [framed_rules]:
  "framed f (popPeek h)" "framed f (popPop h)" "framed f (onTop k)" "framed f (pushVal l)" "framed f (modOp h)" "framed f (copyToMem i j d)"
  "framed f returnMem" "framed f (callArgs i j)"
  unfolding popPeek_def popPop_def onTop_def pushVal_def modOp_def copyToMem_def returnMem_def callArgs_def by (intro framed_rules)+

lemma instruction_keeps [framed_rules]:
  "framed f opAdd" "framed f opSub" "framed f opMul" "framed f opDiv" "framed f opSdiv" "framed f opMod" "framed f opSmod"
  "framed f opExp" "framed f opSignExtend" "framed f opNot" "framed f opLt" "framed f opGt" "framed f opSlt" "framed f opSgt"
  "framed f opEq" "framed f opIszero" "framed f opAnd" "framed f opOr" "framed f opXor" "framed f opByte" "framed f opAddmod"
  "framed f opMulmod" "framed f opSHL" "framed f opSHR" "framed f opSAR" "framed f (opSha3 env)" "framed f opAddress" "framed
  f (opBalance env)" "framed f opOrigin" "framed f opCaller" "framed f opCallValue" "framed f opCallDataLoad" "framed f
  opCallDataSize" "framed f opCallDataCopy" "framed f opReturnDataSize" "framed f opReturnDataCopy" "framed f
  (opExtCodeSize ve)" "framed f opCodeSize" "framed f opCodeCopy" "framed f (opExtCodeCopy ve)" "framed f (opExtCodeHash
  env)" "framed f opGasprice" "framed f opBlockhash" "framed f opCoinbase" "framed f opTimestamp" "framed f opNumber"
  "framed f opDifficulty" "framed f opGasLimit" "framed f opPop" "framed f opMload" "framed f opMstore" "framed f opMstore8"
  "framed f (opSload ve)" "framed f (opSstore ve)" "framed f opJump" "framed f opJumpi" "framed f opJumpdest" "framed f
  opPc" "framed f opMsize" "framed f opGas" "framed f opReturn" "framed f opRevert" "framed f opStop" "framed f (opSuicide
  ve)" "framed f (makePush i j)" "framed f (makeDup n)" "framed f (makeSwap n)"
  unfolding opAdd_def opSub_def opMul_def opDiv_def opSdiv_def opMod_def opSmod_def opExp_def opSignExtend_def opNot_def
    opLt_def opGt_def opSlt_def opSgt_def opEq_def opIszero_def opAnd_def opOr_def opXor_def opByte_def
    opAddmod_def opMulmod_def opSHL_def opSHR_def opSAR_def opSha3_def opAddress_def opBalance_def
    opOrigin_def opCaller_def opCallValue_def opCallDataLoad_def opCallDataSize_def opCallDataCopy_def
    opReturnDataSize_def opReturnDataCopy_def opExtCodeSize_def opCodeSize_def opCodeCopy_def
    opExtCodeCopy_def opExtCodeHash_def opGasprice_def opBlockhash_def opCoinbase_def opTimestamp_def
    opNumber_def opDifficulty_def opGasLimit_def opPop_def opMload_def opMstore_def opMstore8_def opSload_def
    opSstore_def opJump_def opJumpi_def opJumpdest_def opPc_def opMsize_def opGas_def opReturn_def
    opRevert_def opStop_def opSuicide_def makePush_def makeDup_def makeSwap_def
  by (intro framed_rules)+

lemma size_keeps [framed_rules]:
  "framed f memorySha3" "framed f memoryCallDataCopy" "framed f memoryReturnDataCopy" "framed f memoryCodeCopy"
  "framed f memoryExtCodeCopy" "framed f memoryMLoad" "framed f memoryMStore8" "framed f memoryMStore" "framed f memoryCreate"
  "framed f memoryCreate2" "framed f memoryCall" "framed f memoryDelegateCall" "framed f memoryStaticCall" "framed f memoryReturn"
  "framed f memoryRevert" "framed f memoryLog"
  unfolding memorySha3_def memoryCallDataCopy_def memoryReturnDataCopy_def memoryCodeCopy_def memoryExtCodeCopy_def
    memoryMLoad_def memoryMStore8_def memoryMStore_def memoryCreate_def memoryCreate2_def memoryCall_def
    memoryDelegateCall_def memoryStaticCall_def memoryReturn_def memoryRevert_def memoryLog_def
  by (intro framed_rules)+

lemma gas_shape_keeps [framed_rules]: "framed f (constGasFunc x n)" "framed f (copyGas x i y n)" "framed f (memoryPlus x n)"
  unfolding constGasFunc_def copyGas_def memoryPlus_def by (intro framed_rules)+

lemma withCallGas_keeps [framed_rules]: "framed f (withCallGas x)"
proof -
  have "framed f (modifyA (\<lambda>m. m\<lparr>mEvm := (mEvm m)\<lparr>evCallGasTemp := t\<rparr>\<rparr>))" for t
    by (rule framed_modifyA) (rule callTemp)
  then show ?thesis unfolding withCallGas_def by (intro framed_rules)
qed

lemma gas_keeps [framed_rules]:
  "framed f (gasCallDataCopy n)" "framed f (gasReturnDataCopy n)" "framed f (gasCodeCopy n)" "framed f (gasExtCodeCopy n)"
  "framed f (gasSha3 n)" "framed f (gasSStore env n)" "framed f (makeGasLog i n)" "framed f (gasMLoad n)" "framed f (gasMStore8 n)"
  "framed f (gasMStore n)" "framed f (gasCreate n)" "framed f (gasCreate2 n)" "framed f (gasReturn n)" "framed f (gasRevert n)"
  "framed f (gasExtCodeHash n)" "framed f (gasBalance n)" "framed f (gasExtCodeSize n)" "framed f (gasSLoad n)" "framed f (gasPush n)"
  "framed f (gasSwap n)" "framed f (gasDup n)" "framed f (gasExp n)" "framed f (gasCall n)" "framed f (gasCallCode n)"
  "framed f (gasDelegateCall n)" "framed f (gasStaticCall n)" "framed f (gasSuicide env n)"
  unfolding gasCallDataCopy_def gasReturnDataCopy_def gasCodeCopy_def gasExtCodeCopy_def gasSha3_def gasSStore_def
    makeGasLog_def gasMLoad_def gasMStore8_def gasMStore_def gasCreate_def gasCreate2_def gasReturn_def gasRevert_def
    gasExtCodeHash_def gasBalance_def gasExtCodeSize_def gasSLoad_def gasPush_def gasSwap_def gasDup_def gasExp_def
    gasCall_def gasCallCode_def gasDelegateCall_def gasStaticCall_def gasSuicide_def
  by (intro framed_rules)+

lemma table_keeps:
  "pred_option (\<lambda>oper. framed f (validateStack oper) \<and> framed f (gasCost oper n) \<and> pred_option (framed f) (memorySize oper) \<and>
    (callsOut op \<or> isLog op \<or> framedP f (execute oper interp))) (newConstantinopleInstructionSet ve op)"
  by (cases op) (simp_all add: table_defs callsOut_def isLog_def instruction_keeps validate_keeps gas_keeps gas_shape_keeps
    size_keeps framedP_liftP)

lemma check_keeps [framed_rules]: "framed f (enforceRestrictions op oper)"
  unfolding enforceRestrictions_def by (intro framed_rules)

lemma requiredMemory_keeps:
  assumes "newConstantinopleInstructionSet ve op = Some oper"
  shows "framed f (requiredMemory oper)"
proof (cases "memorySize oper")
  case None
  then show ?thesis unfolding requiredMemory_def by (simp add: framed_basic)
next
  case (Some ms)
  then have "framed f ms" using table_keeps [of undefined op undefined ve] assms by simp
  then show ?thesis unfolding requiredMemory_def Some option.case by (intro framed_rules)
qed

end

interpretation mode: machine_view "\<lambda>m. evReadOnly (mEvm m)"
  by unfold_locales simp_all

lemma prepare_writes:
  assumes t: "newConstantinopleInstructionSet ve op = Some oper" and p: "prepare op oper m = (Ok (), m')" and w: "writes oper"
  shows "\<not> evReadOnly (mEvm m)"
proof -
  from p obtain m1 m2 where 1: "validateStack oper m = (Ok (), m1)" and 2: "enforceRestrictions op oper m1 = (Ok (), m2)"
    unfolding prepare_def bindA_Ok_iff by auto
  have "framed (\<lambda>m. evReadOnly (mEvm m)) (validateStack oper)" using mode.table_keeps [of undefined op undefined ve] t by simp
  from framedD [OF this 1] have "evReadOnly (mEvm m1) = evReadOnly (mEvm m)" .
  moreover have "\<not> evReadOnly (mEvm m1)" using 2 w by (auto simp: enforceRestrictions_def bindA_def readA_def raiseA_def)
  ultimately show ?thesis by simp
qed

subsection \<open>Views of the running machine\<close>

definition framedRun :: "(EVM \<Rightarrow> 'v) \<Rightarrow> runner \<Rightarrow> bool" where
  "framedRun g interp \<longleftrightarrow> (\<forall>i ro. framedP (\<lambda>(e, c). g e) (interp i ro))"

text \<open>
  A view of the part of the machine that outlives a contract. It tells the mode, and in read-only
  mode it may look at the logs. Calls keep it when the runs they start do, and then a turn of the
  interpreter does.
\<close>

locale evm_view =
  fixes g :: "EVM \<Rightarrow> 'v"
  assumes evm_store: "g (e\<lparr>evState := (evState e)\<lparr>vsDb := b\<rparr>\<rparr>) = g e"
    and evm_refund: "g (e\<lparr>evState := (evState e)\<lparr>vsRefund := r\<rparr>\<rparr>) = g e"
    and evm_callTemp: "g (e\<lparr>evCallGasTemp := t\<rparr>) = g e"
    and evm_returnData: "g (e\<lparr>evReturnData := d\<rparr>) = g e"
    and evm_bigZero: "g (e\<lparr>evBigZero := z\<rparr>) = g e"
    and evm_logs: "\<not> evReadOnly e \<Longrightarrow> g (e\<lparr>evState := (evState e)\<lparr>vsLogs := l\<rparr>\<rparr>) = g e"
    and evm_mode: "g e = g e' \<Longrightarrow> evReadOnly e = evReadOnly e'"

sublocale evm_view \<subseteq> machine_view "\<lambda>m. g (mEvm m)"
  by unfold_locales (simp_all add: evm_store evm_refund evm_callTemp)

sublocale evm_view \<subseteq> writable: machine_view "\<lambda>m. if evReadOnly (mEvm m) then None else Some (g (mEvm m))"
  by unfold_locales (simp_all add: evm_store evm_refund evm_callTemp)

sublocale evm_view \<subseteq> ev: state_view "\<lambda>s. g (e\<lparr>evState := s\<rparr>)" for e
proof
  fix s d
  show "g (e\<lparr>evState := s\<lparr>vsDb := d\<rparr>\<rparr>) = g (e\<lparr>evState := s\<rparr>)" using evm_store [where e = "e\<lparr>evState := s\<rparr>" and b = d] by simp
next
  fix s r
  show "g (e\<lparr>evState := s\<lparr>vsRefund := r\<rparr>\<rparr>) = g (e\<lparr>evState := s\<rparr>)" using evm_refund [where e = "e\<lparr>evState := s\<rparr>" and r = r] by simp
qed

context evm_view
begin

lemma onState_evm [framed_rules]:
  assumes "\<And>e. framed (\<lambda>s. g (e\<lparr>evState := s\<rparr>)) a"
  shows "framedP g (onStateP a)"
proof -
  have "g (e\<lparr>evState := snd (a (evState e))\<rparr>) = g e" for e
    using assms [of e, unfolded framed_def, rule_format, of "evState e"] by simp
  then have "framed g (onState a)" by (simp add: framed_def onState_def zoomA_def split_beta)
  then show ?thesis unfolding onStateP_def by (rule framedP_liftP)
qed

lemma readP_keeps [framed_rules]: "framedP g (readP h)"
  unfolding readP_def by (intro framed_rules)

lemma zero_keeps [framed_rules]: "framedP g (liftP (modifyA (\<lambda>e. e\<lparr>evBigZero := z\<rparr>)))"
  by (rule framedP_liftP, rule framed_modifyA, rule evm_bigZero)

lemma inContract_keeps [framed_rules]:
  assumes "framedRun g interp"
  shows "framedP g (inContract ve interp con i ro)"
proof -
  have r: "framedP (\<lambda>(e, c). g e) (runContract ve interp i ro)"
    using assms unfolding framedP_def runContract_def framedRun_def
    by (auto split: option.splits res.splits prod.splits)
  show ?thesis
    unfolding framedP_def inContract_def
    using framedPD [OF r] by (fastforce simp: bind_eq_Some_conv split: option.splits)
qed

lemma calls_keep [framed_rules]:
  assumes "framedRun g interp"
  shows "framedP g (Call ve interp a b c i n v)" "framedP g (CallCode ve interp a b i n v)"
    "framedP g (DelegateCall ve interp con b i n)" "framedP g (StaticCall ve interp a b i n)"
    "framedP g (CreateContractCode ve interp a code n v b)" "framedP g (Create ve interp a code n v)"
proof -
  show "framedP g (Call ve interp a b c i n v)" "framedP g (CallCode ve interp a b i n v)"
    "framedP g (DelegateCall ve interp con b i n)" "framedP g (StaticCall ve interp a b i n)"
    unfolding Call_def CallCode_def DelegateCall_def StaticCall_def by (intro framed_rules assms)+
  show "framedP g (CreateContractCode ve interp a code n v b)" for b
    unfolding CreateContractCode_def by (intro framed_rules assms)
  then show "framedP g (Create ve interp a code n v)"
    unfolding Create_def by (intro framed_rules)
qed

lemma onEvmP_keeps [framed_rules]: "framedP g a \<Longrightarrow> framedP (\<lambda>m. g (mEvm m)) (onEvmP a)"
  by (auto simp: framedP_def onEvmP_def bind_eq_Some_conv)

lemma contract_keeps [framed_rules]: "framed (\<lambda>m. g (mEvm m)) (modifyA (\<lambda>m. m\<lparr>mContract := h m\<rparr>))"
  by (rule framed_modifyA) simp

lemma addGas_keeps [framed_rules]: "framed (\<lambda>m. g (mEvm m)) (addGas_c n)"
  unfolding addGas_c_def by (intro framed_rules)

lemma useGas_keeps [framed_rules]: "framed (\<lambda>m. g (mEvm m)) (useGas n)"
  by (simp add: framed_def useGas_def split: option.splits)

lemma callResult_keeps [framed_rules]: "framed (\<lambda>m. g (mEvm m)) (callResult i j out)"
  unfolding callResult_def by (intro framed_rules)

lemma callOps_keep [framed_rules]:
  assumes "framedRun g interp"
  shows "framedP (\<lambda>m. g (mEvm m)) (opCreate ve interp)" "framedP (\<lambda>m. g (mEvm m)) (opCreate2 ve interp)"
    "framedP (\<lambda>m. g (mEvm m)) (opCall ve interp)" "framedP (\<lambda>m. g (mEvm m)) (opCallCode ve interp)"
    "framedP (\<lambda>m. g (mEvm m)) (opDelegateCall ve interp)" "framedP (\<lambda>m. g (mEvm m)) (opStaticCall ve interp)"
  unfolding opCreate2_def opCreate_def opCall_def opCallCode_def opDelegateCall_def opStaticCall_def
  by (intro framed_rules assms)+

lemma table_calls:
  assumes "framedRun g interp" "callsOut op"
  shows "pred_option (\<lambda>oper. framedP (\<lambda>m. g (mEvm m)) (execute oper interp)) (newConstantinopleInstructionSet ve op)"
  using assms(2) by (cases op) (simp_all add: table_defs callsOut_def calling_def callOps_keep [OF assms(1)])

lemma executeOp_keeps:
  assumes "framedP (\<lambda>m. g (mEvm m)) (execute oper interp)"
  shows "framedP (\<lambda>m. g (mEvm m)) (executeOp oper interp)"
  unfolding framedP_def
proof (intro allI impI)
  fix m r m'
  assume "executeOp oper interp m = Some (r, m')"
  then obtain r1 m1 where 1: "execute oper interp m = Some (r1, m1)"
    and 2: "mEvm m' = mEvm m1 \<or> (\<exists>res. mEvm m' = mEvm (keepReturnData oper res m1))"
    by (cases rule: executeOp_cases) (auto simp: Let_def split: if_splits)
  from 2 have "g (mEvm m') = g (mEvm m1)" by (auto simp: keepReturnData_def evm_returnData)
  then show "g (mEvm m') = g (mEvm m)" using framedPD [OF assms 1] by simp
qed

lemma chargeGas_keeps:
  assumes "newConstantinopleInstructionSet ve op = Some oper"
  shows "framed (\<lambda>m. g (mEvm m)) (chargeGas oper n)"
proof -
  have "framed (\<lambda>m. g (mEvm m)) (gasCost oper n)" using table_keeps [of n op undefined ve] assms by simp
  then show ?thesis unfolding chargeGas_def by (intro framed_rules)
qed

lemma prepare_keeps:
  assumes "newConstantinopleInstructionSet ve op = Some oper"
  shows "framed (\<lambda>m. g (mEvm m)) (prepare op oper)"
proof -
  have "framed (\<lambda>m. g (mEvm m)) (validateStack oper)" using table_keeps [of undefined op undefined ve] assms by simp
  then show ?thesis unfolding prepare_def
    by (intro framed_rules requiredMemory_keeps [OF assms] chargeGas_keeps [OF assms])
qed

lemma evm_addLog:
  "framed (\<lambda>m. if evReadOnly (mEvm m) then None else Some (g (mEvm m))) (onEvm (onState (AddLog a h d ts n)))"
  by (simp add: framed_def onEvm_def onState_def zoomA_def AddLog_def modifyA_def evm_logs)

lemma makeLog_keeps:
  assumes "\<not> evReadOnly (mEvm m)" "makeLog n m = (r, m')"
  shows "g (mEvm m') = g (mEvm m)"
proof -
  have "framed (\<lambda>m. if evReadOnly (mEvm m) then None else Some (g (mEvm m))) (makeLog n)"
    unfolding makeLog_def by (intro framed_rules evm_addLog)
  from framedD [OF this assms(2)] show ?thesis using assms(1) by (auto split: if_splits)
qed

lemma step_keeps:
  assumes "framedRun g interp"
  shows "framedP (\<lambda>m. g (mEvm m)) (interpStep ve interp)"
  unfolding framedP_def
proof (intro allI impI)
  fix m r m'
  assume "interpStep ve interp m = Some (r, m')"
  then show "g (mEvm m') = g (mEvm m)"
  proof (cases rule: interpStep_cases)
    case (run op oper m1)
    have t: "newConstantinopleInstructionSet ve op = Some oper" using run(1) by (rule JumpTable_op)
    have p: "g (mEvm m1) = g (mEvm m)" using framedD [OF prepare_keeps [OF t] run(2)] .
    have "g (mEvm m') = g (mEvm m1)"
    proof (cases "isLog op")
      case True
      then have "\<not> evReadOnly (mEvm m)" using prepare_writes [OF t run(2)] log_writes [OF t] by blast
      then have "\<not> evReadOnly (mEvm m1)" using evm_mode [OF p] by simp
      obtain n where n: "execute oper interp = liftP (makeLog n)" "\<not> returns oper"
        using True t by (auto simp: isLog_def table_defs plain_def)
      obtain r2 m2 where l: "makeLog n m1 = (r2, m2)" by (cases "makeLog n m1")
      then have "g (mEvm m2) = g (mEvm m1)" using makeLog_keeps \<open>\<not> evReadOnly (mEvm m1)\<close> by blast
      moreover have "mEvm m' = mEvm m2" using run(3) n l
        by (cases rule: executeOp_cases) (auto simp: liftP_def keepReturnData_def Let_def split: if_splits)
      ultimately show ?thesis by simp
    next
      case False
      then have "framedP (\<lambda>m. g (mEvm m)) (execute oper interp)"
        using table_keeps [of undefined op interp ve] table_calls [OF assms, of op ve] t by auto
      then show ?thesis using framedPD [OF executeOp_keeps run(3)] by simp
    qed
    then show ?thesis using p by simp
  next
    case (refused op oper r1)
    show ?thesis using framedD [OF prepare_keeps [OF JumpTable_op [OF refused(1)]] refused(2)] .
  qed simp
qed

end

end
