(* ===== verification/EvmModes.thy ===== *)
theory EvmModes
  imports EvmFrame EvmSample
begin

section \<open>Depth, read-only mode and the budget of nested runs\<close>

text \<open>
  A run gives back the depth and the mode it was started in; in read-only mode it adds no
  logs; and the budget of nested runs is never what ends a run: the limit on the depth of calls
  ends the nesting first.
\<close>

subsection \<open>The loop as a relation\<close>

inductive loopsTo :: "stepOut vmPaction \<Rightarrow> Machine \<Rightarrow> (vmError, runOut) res \<times> Machine \<Rightarrow> bool" for step where
  halt: "step m = Some (Ok (Stop res), m') \<Longrightarrow> loopsTo step m (Ok res, m')"
| error: "step m = Some (Err e, m') \<Longrightarrow> loopsTo step m (Ok ([], Some e), m')"
| panic: "step m = Some (Panic, m') \<Longrightarrow> loopsTo step m (Panic, m')"
| turn: "step m = Some (Ok Continue, m') \<Longrightarrow> loopsTo step m' y \<Longrightarrow> loopsTo step m y"

lemma interpLoop_loopsTo: "interpLoop step m = Some y \<longleftrightarrow> loopsTo step m y"
proof
  assume "interpLoop step m = Some y"
  then show "loopsTo step m y"
  proof (rule interpLoop.raw_induct [rotated])
    fix loop step m y
    assume IH: "\<And>step m y. loop step m = Some y \<Longrightarrow> loopsTo step m y"
      and body: "Option.bind (step m) (\<lambda>(r, m').
       case r of
         Ok out \<Rightarrow> (case out of Stop res \<Rightarrow> Some (Ok res, m') | Continue \<Rightarrow> loop step m')
       | Err e \<Rightarrow> Some (Ok ([], Some e), m')
       | Panic \<Rightarrow> Some (Panic, m')) = Some y"
    from body obtain r m' where 1: "step m = Some (r, m')" by (auto simp: bind_eq_Some_conv)
    show "loopsTo step m y"
    proof (cases r)
      case (Ok out)
      then show ?thesis using 1 body by (cases out) (auto intro: loopsTo.intros IH)
    qed (use 1 body in \<open>auto intro: loopsTo.intros\<close>)
  qed
next
  assume "loopsTo step m y"
  then show "interpLoop step m = Some y"
    by induction (subst interpLoop.simps, simp)+
qed

lemma loop_keeps:
  assumes "framedP f step"
  shows "framedP f (interpLoop step)"
proof -
  have "f (snd y) = f m" if "loopsTo step m y" for m y
    using that by induction (auto dest: framedPD [OF assms])
  then show ?thesis by (fastforce simp: framedP_def interpLoop_loopsTo)
qed

subsection \<open>Depth and mode\<close>

definition modeOf :: "EVM \<Rightarrow> int \<times> bool" where
  "modeOf e = (evDepth e, evReadOnly e)"

interpretation md: evm_view modeOf
  by unfold_locales (simp_all add: modeOf_def)

definition frozenLogs :: "EVM \<Rightarrow> bool \<times> Log list" where
  "frozenLogs e = (evReadOnly e, if evReadOnly e then vsLogs (evState e) else [])"

interpretation fl: evm_view frozenLogs
  by unfold_locales (simp_all add: frozenLogs_def)

definition startOf :: "Contract \<Rightarrow> bytes \<Rightarrow> bool \<Rightarrow> EVM \<Rightarrow> Machine" where
  "startOf c input ro evm =
     \<lparr>mPc = 0, mContract = c\<lparr>conInput := input\<rparr>, mMem = NewMemory, mStack = [],
      mEvm = evm\<lparr>evDepth := evDepth evm + 1, evReadOnly := evReadOnly evm \<or> ro, evReturnData := []\<rparr>\<rparr>"

lemma RunWith_cases [consumes 1, case_names paid empty loop]:
  assumes "RunWith ve interp input ro (evm, c) = Some (r, evm', c')"
  obtains (paid) "evm' = evm" "c' = c"
    | (empty) "evm' = evm\<lparr>evReturnData := []\<rparr>" "c' = c"
    | (loop) m where "interpLoop (interpStep ve interp) (startOf c input ro evm) = Some (r, m)" "c' = mContract m"
      "evm' = (mEvm m)\<lparr>evDepth := evDepth (mEvm m) - 1,
         evReadOnly := (if ro \<and> \<not> evReadOnly evm then False else evReadOnly (mEvm m))\<rparr>"
proof (cases "bigUint64 (conValue c) \<noteq> 0")
  case True
  then show thesis using assms paid by (simp add: RunWith_def)
next
  case v: False
  show thesis
  proof (cases "conCode c = []")
    case True
    with v assms have "c' = c \<and> evm' = evm\<lparr>evReturnData := []\<rparr>" by (auto simp: RunWith_def Let_def)
    then show thesis using empty by blast
  next
    case False
    with v assms obtain m where "interpLoop (interpStep ve interp) (startOf c input ro evm) = Some (r, m)"
        "evm' = (mEvm m)\<lparr>evDepth := evDepth (mEvm m) - 1,
         evReadOnly := (if ro \<and> \<not> evReadOnly evm then False else evReadOnly (mEvm m))\<rparr>" "c' = mContract m"
      by (auto simp: RunWith_def Let_def startOf_def bind_eq_Some_conv)
    then show thesis using loop by blast
  qed
qed

lemma startOf_mode: "modeOf (mEvm (startOf c input ro evm)) = (evDepth evm + 1, evReadOnly evm \<or> ro)"
  by (simp add: startOf_def modeOf_def)

lemma RunWith_mode:
  assumes "framedRun modeOf interp"
  shows "framedP (\<lambda>(e, c). modeOf e) (RunWith ve interp input ro)"
proof -
  have "modeOf evm' = modeOf evm" if "RunWith ve interp input ro (evm, c) = Some (r, evm', c')" for evm c r evm' c'
    using that
  proof (cases rule: RunWith_cases)
    case (loop m)
    have "modeOf (mEvm m) = (evDepth evm + 1, evReadOnly evm \<or> ro)"
      using framedPD [OF loop_keeps [OF md.step_keeps [OF assms]] loop(1)] by (simp add: startOf_mode)
    then show ?thesis using loop(3) by (auto simp: modeOf_def)
  qed (simp_all add: modeOf_def)
  then show ?thesis by (auto simp: framedP_def)
qed

lemma RunN_mode: "framedRun modeOf (RunN n ve)"
proof (induction n)
  case (Suc n)
  then show ?case using RunWith_mode by (simp add: framedRun_def)
qed (simp add: framedRun_def framedP_def)

lemma RunWith_frozen:
  assumes "framedRun frozenLogs interp" "framedRun modeOf interp" "evReadOnly evm \<or> ro"
    and run: "RunWith ve interp input ro (evm, c) = Some (r, evm', c')"
  shows "vsLogs (evState evm') = vsLogs (evState evm)"
  using run
proof (cases rule: RunWith_cases)
  case (loop m)
  have "frozenLogs (mEvm m) = frozenLogs (mEvm (startOf c input ro evm))"
    using framedPD [OF loop_keeps [OF fl.step_keeps [OF assms(1)]] loop(1)] by simp
  then show ?thesis using loop(3) assms(3) by (auto simp: frozenLogs_def startOf_def)
qed simp_all

lemma RunN_frozen: "framedRun frozenLogs (RunN n ve)"
proof (induction n)
  case (Suc n)
  have "frozenLogs e' = frozenLogs e" if r: "RunN (Suc n) ve i ro (e, c) = Some (r, e', c')" for i ro e c r e' c'
  proof -
    have "modeOf e' = modeOf e" using RunN_mode [of "Suc n" ve] r by (fastforce simp: framedRun_def framedP_def)
    moreover have "vsLogs (evState e') = vsLogs (evState e)" if "evReadOnly e"
      using RunWith_frozen [OF Suc RunN_mode, where evm = e and ro = ro] that r by simp
    ultimately show ?thesis by (simp add: frozenLogs_def modeOf_def)
  qed
  then show ?case by (auto simp: framedRun_def framedP_def)
qed (simp add: framedRun_def framedP_def)

subsection \<open>A sample run\<close>

lemmas exec_defs = bindP_def liftP_def bindA_def returnA_def raiseA_def readA_def modifyA_def tryA_def
  GetOp_def GetByte_def JumpTable_def decodeOp_def opcodes_def table_defs plain_def enforceRestrictions_def requiredMemory_def
  chargeGas_def useGas_def UseGas_c_def resizeMem_def keepReturnData_def executeOp_def makeStackFunc_def require_def
  constGasFunc_def gasPush_def makePush_def setPc_def push_def slice_def liftA_def RightPadBytes_def done_op_def StackLimit_def

text \<open>\<^verbatim>\<open>PUSH1 0 PUSH1 0 LOG0\<close>, in read-only mode.\<close>

definition logCode :: bytes where "logCode = [0x60, 0, 0x60, 0, 0xa0]"

lemma Run_Suc: "Run ve = RunWith ve (RunN 1024 ve)"
proof -
  have "Run ve = RunN (Suc 1024) ve" unfolding Run_def runBudget_def by simp
  then show ?thesis by (simp only: RunN.simps)
qed

lemma logCode_loop: "\<exists>m. interpLoop (interpStep sampleVe interp) (startOf (sampleContract logCode 100000) [] True sampleEvm) =
    Some (Ok ([], Some errWriteProtection), m)"
  apply (subst interpLoop.simps)
  apply (simp add: interpStep_prepare prepare_def startOf_def sampleContract_def NewContract_def logCode_def exec_defs gas_defs)
  apply (subst interpLoop.simps)
  apply (simp add: interpStep_prepare prepare_def exec_defs gas_defs)
  apply (subst interpLoop.simps)
  apply (simp add: interpStep_prepare prepare_def exec_defs gas_defs)
  done

lemma logCode_run: "\<exists>evm' c'. Run sampleVe [] True (sampleEvm, sampleContract logCode 100000) =
    Some (Ok ([], Some errWriteProtection), evm', c')"
proof -
  obtain m where m: "interpLoop (interpStep sampleVe (RunN 1024 sampleVe))
      (startOf (sampleContract logCode 100000) [] True sampleEvm) = Some (Ok ([], Some errWriteProtection), m)"
    using logCode_loop by blast
  have "conValue (sampleContract logCode 100000) = 0" "conCode (sampleContract logCode 100000) \<noteq> []"
    by (simp_all add: sampleContract_def NewContract_def logCode_def)
  then show ?thesis using m unfolding Run_Suc RunWith_def startOf_def by (simp add: Let_def bigUint64_def)
qed

text \<open>
  C14. A run of a contract, with all the calls and creations it makes, gives back the depth and the
  mode of the machine it was started on.
\<close>

theorem Run_restores_mode:
  assumes "Run ve input readOnly (evm, c) = Some (r, evm', c')"
  shows "evDepth evm' = evDepth evm \<and> evReadOnly evm' = evReadOnly evm"
proof -
  have "modeOf evm' = modeOf evm"
    using RunN_mode [of runBudget ve] assms unfolding framedRun_def framedP_def Run_def by fastforce
  then show ?thesis by (simp add: modeOf_def)
qed

theorem Run_restores_mode_witness:
  "\<exists>r evm' c'. Run sampleVe [] True (sampleEvm, sampleContract logCode 100000) = Some (r, evm', c') \<and>
     evDepth evm' = 0 \<and> \<not> evReadOnly evm'"
proof -
  obtain evm' c' where r: "Run sampleVe [] True (sampleEvm, sampleContract logCode 100000) =
      Some (Ok ([], Some errWriteProtection), evm', c')"
    using logCode_run by blast
  show ?thesis using r Run_restores_mode [OF r] by (simp add: sampleEvm_def NewEVM_def)
qed

text \<open>
  C13. A run in read-only mode adds no logs, whatever the contract does and calls.
\<close>

theorem Run_readonly_logs:
  assumes "Run ve input readOnly (evm, c) = Some (r, evm', c')" "readOnly \<or> evReadOnly evm"
  shows "vsLogs (evState evm') = vsLogs (evState evm)"
  using RunWith_frozen [OF RunN_frozen RunN_mode, of evm readOnly ve 1024 ve] assms
  by (auto simp: Run_Suc)

theorem Run_readonly_logs_witness:
  "\<exists>evm' c'. Run sampleVe [] True (sampleEvm, sampleContract logCode 100000) =
     Some (Ok ([], Some errWriteProtection), evm', c') \<and> vsLogs (evState evm') = []"
proof -
  obtain evm' c' where r: "Run sampleVe [] True (sampleEvm, sampleContract logCode 100000) =
      Some (Ok ([], Some errWriteProtection), evm', c')"
    using logCode_run by blast
  show ?thesis using r Run_readonly_logs [OF r] by (simp add: sampleEvm_def NewEVM_def NewState_def)
qed

end
