(* ===== verification/EvmBudget.thy ===== *)
theory EvmBudget
  imports EvmModes
begin

section \<open>The budget of nested runs\<close>

text \<open>
  Two runners that agree at the depth of the next call make the same turns, so that
  the budget does not matter once it reaches the limit on the depth of calls: a run has no
  result only when its loop, or the loop of a call it makes, does not end.
\<close>

definition sameAt :: "('s \<Rightarrow> int \<times> bool) \<Rightarrow> int \<Rightarrow> ('s, 'e, 'a) paction \<Rightarrow> ('s, 'e, 'a) paction \<Rightarrow> bool" where
  "sameAt f d m m' \<longleftrightarrow> (\<forall>s. fst (f s) = d \<longrightarrow> m s = m' s)"

named_theorems same_rules

lemma sameAt_refl: "sameAt f d m m"
  by (simp add: sameAt_def)

lemma sameAt_bind [same_rules]:
  assumes "sameAt f d m m'" "framedP f m" "\<And>a. sameAt f d (k a) (k' a)"
  shows "sameAt f d (bindP m k) (bindP m' k')"
  unfolding sameAt_def
proof (intro allI impI)
  fix s
  assume s: "fst (f s) = d"
  have m: "m s = m' s" using assms(1) s by (simp add: sameAt_def)
  show "bindP m k s = bindP m' k' s"
  proof (cases "m s")
    case (Some p)
    obtain r s1 where p: "p = (r, s1)" by (cases p)
    have "fst (f s1) = d" using framedPD [OF assms(2) Some [unfolded p]] s by simp
    then show ?thesis using assms(3) Some m p by (cases r) (simp_all add: bindP_def sameAt_def)
  qed (use m in \<open>simp add: bindP_def\<close>)
qed

lemma sameAt_if [same_rules]: "sameAt f d m m' \<Longrightarrow> sameAt f d n n' \<Longrightarrow> sameAt f d (if b then m else n) (if b then m' else n')"
  by simp

lemma sameAt_option [same_rules]:
  "sameAt f d m m' \<Longrightarrow> (\<And>x. sameAt f d (n x) (n' x)) \<Longrightarrow>
    sameAt f d (case opt of None \<Rightarrow> m | Some x \<Rightarrow> n x) (case opt of None \<Rightarrow> m' | Some x \<Rightarrow> n' x)"
  by (cases opt) simp_all

lemma sameAt_prod [same_rules]:
  "(\<And>x y. sameAt f d (n x y) (n' x y)) \<Longrightarrow> sameAt f d (case p of (x, y) \<Rightarrow> n x y) (case p of (x, y) \<Rightarrow> n' x y)"
  by (cases p) simp

lemma sameAt_Let [same_rules]: "(\<And>x. sameAt f d (n x) (n' x)) \<Longrightarrow> sameAt f d (let x = v in n x) (let x = v in n' x)"
  by (simp add: Let_def)

definition agreeAt :: "int \<Rightarrow> runner \<Rightarrow> runner \<Rightarrow> bool" where
  "agreeAt d interp interp' \<longleftrightarrow> (d \<le> CallCreateDepth \<longrightarrow> (\<forall>i ro e c. evDepth e = d \<longrightarrow> interp i ro (e, c) = interp' i ro (e, c)))"

subsection \<open>Calls\<close>

lemma inContract_same:
  assumes "agreeAt d interp interp'" "d \<le> CallCreateDepth"
  shows "sameAt modeOf d (inContract ve interp con i ro) (inContract ve interp' con i ro)"
proof -
  have "runContract ve interp i ro (e, c) = runContract ve interp' i ro (e, c)" if "evDepth e = d" for e c
    using assms that by (simp add: runContract_def agreeAt_def split: option.splits)
  then show ?thesis by (simp add: sameAt_def modeOf_def inContract_def split: option.splits)
qed

lemma deep_calls:
  assumes "evDepth e > CallCreateDepth"
  shows "Call ve interp a b c i n v e = Call ve interp' a b c i n v e"
    "CallCode ve interp a b i n v e = CallCode ve interp' a b i n v e"
    "DelegateCall ve interp con b i n e = DelegateCall ve interp' con b i n e"
    "StaticCall ve interp a b i n e = StaticCall ve interp' a b i n e"
    "CreateContractCode ve interp a code n v b e = CreateContractCode ve interp' a code n v b e"
  using assms by (simp_all add: Call_def CallCode_def DelegateCall_def StaticCall_def CreateContractCode_def bindP_def readP_def
      liftP_def readA_def Let_def)

lemma shallow_calls:
  assumes "agreeAt d interp interp'" "framedRun modeOf interp" "d \<le> CallCreateDepth"
  shows "sameAt modeOf d (Call ve interp a b c i n v) (Call ve interp' a b c i n v)"
    "sameAt modeOf d (CallCode ve interp a b i n v) (CallCode ve interp' a b i n v)"
    "sameAt modeOf d (DelegateCall ve interp con b i n) (DelegateCall ve interp' con b i n)"
    "sameAt modeOf d (StaticCall ve interp a b i n) (StaticCall ve interp' a b i n)"
    "sameAt modeOf d (CreateContractCode ve interp a code n v b) (CreateContractCode ve interp' a code n v b)"
  unfolding Call_def CallCode_def DelegateCall_def StaticCall_def CreateContractCode_def
  by (rule same_rules framed_rules inContract_same [OF assms(1,3)] assms(2) sameAt_refl)+

lemma sameAt_depth:
  assumes "d \<le> CallCreateDepth \<Longrightarrow> sameAt modeOf d m m'" "\<And>e. evDepth e > CallCreateDepth \<Longrightarrow> m e = m' e"
  shows "sameAt modeOf d m m'"
  using assms by (cases "d \<le> CallCreateDepth") (auto simp: sameAt_def modeOf_def)

lemma calls_same:
  assumes "agreeAt d interp interp'" "framedRun modeOf interp"
  shows "sameAt modeOf d (Call ve interp a b c i n v) (Call ve interp' a b c i n v)"
    "sameAt modeOf d (CallCode ve interp a b i n v) (CallCode ve interp' a b i n v)"
    "sameAt modeOf d (DelegateCall ve interp con b i n) (DelegateCall ve interp' con b i n)"
    "sameAt modeOf d (StaticCall ve interp a b i n) (StaticCall ve interp' a b i n)"
    "sameAt modeOf d (CreateContractCode ve interp a code n v b) (CreateContractCode ve interp' a code n v b)"
  by (rule sameAt_depth, erule shallow_calls [OF assms], erule deep_calls)+

lemma Create_same:
  assumes "agreeAt d interp interp'" "framedRun modeOf interp"
  shows "sameAt modeOf d (Create ve interp a code n v) (Create ve interp' a code n v)"
  unfolding Create_def by (rule calls_same [OF assms] same_rules framed_rules sameAt_refl)+

subsection \<open>Turns and runs\<close>

abbreviation machineMode :: "Machine \<Rightarrow> int \<times> bool" where
  "machineMode m \<equiv> modeOf (mEvm m)"

lemma onEvmP_same: "sameAt modeOf d a a' \<Longrightarrow> sameAt machineMode d (onEvmP a) (onEvmP a')"
  by (simp add: sameAt_def onEvmP_def)

lemma callOps_same:
  assumes "agreeAt d interp interp'" "framedRun modeOf interp"
  shows "sameAt machineMode d (opCreate ve interp) (opCreate ve interp')"
    "sameAt machineMode d (opCreate2 ve interp) (opCreate2 ve interp')"
    "sameAt machineMode d (opCall ve interp) (opCall ve interp')"
    "sameAt machineMode d (opCallCode ve interp) (opCallCode ve interp')"
    "sameAt machineMode d (opDelegateCall ve interp) (opDelegateCall ve interp')"
    "sameAt machineMode d (opStaticCall ve interp) (opStaticCall ve interp')"
  unfolding opCreate2_def opCreate_def opCall_def opCallCode_def opDelegateCall_def opStaticCall_def
  by (rule onEvmP_same calls_same [OF assms] Create_same [OF assms] same_rules framed_rules assms(2) sameAt_refl)+

lemma table_same:
  assumes "agreeAt d interp interp'" "framedRun modeOf interp"
  shows "pred_option (\<lambda>oper. sameAt machineMode d (execute oper interp) (execute oper interp')) (newConstantinopleInstructionSet ve op)"
  by (cases op) (simp_all add: table_defs calling_def callOps_same [OF assms] sameAt_refl)

lemma step_same:
  assumes "agreeAt d interp interp'" "framedRun modeOf interp"
  shows "sameAt machineMode d (interpStep ve interp) (interpStep ve interp')"
  unfolding sameAt_def
proof (intro allI impI)
  fix m
  assume d: "fst (machineMode m) = d"
  show "interpStep ve interp m = interpStep ve interp' m"
  proof (cases "JumpTable ve (GetOp (mContract m) (mPc m))")
    case (Some p)
    obtain op oper where p: "p = (op, oper)" by (cases p)
    have t: "newConstantinopleInstructionSet ve op = Some oper" using Some p by (simp add: JumpTable_op)
    have "sameAt machineMode d (executeOp oper interp) (executeOp oper interp')"
      using table_same [OF assms, of ve op] t by (simp add: sameAt_def executeOp_def)
    then have "sameAt machineMode d (bindP (liftP (prepare op oper)) (\<lambda>_. executeOp oper interp))
        (bindP (liftP (prepare op oper)) (\<lambda>_. executeOp oper interp'))"
      by (intro sameAt_bind sameAt_refl framedP_liftP md.prepare_keeps [OF t])
    then show ?thesis using Some p d by (simp add: interpStep_prepare sameAt_def)
  qed (simp add: interpStep_prepare)
qed

lemma loop_same:
  assumes "sameAt f d step step'" "framedP f step" "framedP f step'"
  shows "sameAt f d (interpLoop step) (interpLoop step')"
proof -
  have 1: "loopsTo st' m y" if "loopsTo st m y" "fst (f m) = d" "sameAt f d st st'" "framedP f st" for st st' m y
    using that
  proof induction
    case (turn m m' y)
    then have "fst (f m') = d" using framedPD [of f st m "Ok Continue" m'] by simp
    then show ?case using turn by (auto simp: sameAt_def intro: loopsTo.turn)
  qed (auto simp: sameAt_def intro: loopsTo.intros)
  have "sameAt f d step' step" using assms(1) by (simp add: sameAt_def)
  then have "loopsTo step m y \<longleftrightarrow> loopsTo step' m y" if "fst (f m) = d" for m y
    using 1 [of step m y step'] 1 [of step' m y step] that assms by blast
  then show ?thesis unfolding sameAt_def interpLoop_loopsTo [symmetric] by (metis not_Some_eq)
qed

lemma RunWith_same:
  assumes "agreeAt (evDepth e + 1) interp interp'" "framedRun modeOf interp" "framedRun modeOf interp'"
  shows "RunWith ve interp i ro (e, c) = RunWith ve interp' i ro (e, c)"
proof -
  have "sameAt machineMode (evDepth e + 1) (interpLoop (interpStep ve interp)) (interpLoop (interpStep ve interp'))"
    by (rule loop_same step_same md.step_keeps assms)+
  then have "interpLoop (interpStep ve interp) (startOf c i ro e) = interpLoop (interpStep ve interp') (startOf c i ro e)"
    by (simp add: sameAt_def startOf_mode)
  then show ?thesis by (simp add: RunWith_def Let_def startOf_def)
qed

lemma RunN_enough:
  assumes "n > 0" "evDepth e + int n > CallCreateDepth"
  shows "RunN (Suc n) ve i ro (e, c) = RunN n ve i ro (e, c)"
  using assms
proof (induction n arbitrary: e i ro c)
  case (Suc n)
  have "agreeAt (evDepth e + 1) (RunN (Suc n) ve) (RunN n ve)"
    using Suc by (cases n) (auto simp: agreeAt_def)
  from RunWith_same [OF this RunN_mode RunN_mode, of ve i ro c] show ?case by simp
qed simp

text \<open>
  C16. The budget of nested runs is never what ends a run: a transaction's run on a machine at depth
  zero is the same with every larger budget.
\<close>

theorem Run_budget:
  assumes "evDepth evm = 0"
  shows "RunN (runBudget + k) ve input readOnly (evm, c) = Run ve input readOnly (evm, c)"
proof (induction k)
  case (Suc k)
  have "RunN (Suc (runBudget + k)) ve input readOnly (evm, c) = RunN (runBudget + k) ve input readOnly (evm, c)"
    by (rule RunN_enough) (simp_all add: assms runBudget_def CallCreateDepth_def)
  then show ?case using Suc by simp
qed (simp add: Run_def)

theorem Run_budget_witness:
  "evDepth sampleEvm = 0 \<and>
   RunN (runBudget + 7) sampleVe [] True (sampleEvm, sampleContract logCode 100000) =
     Run sampleVe [] True (sampleEvm, sampleContract logCode 100000)"
proof -
  have "evDepth sampleEvm = 0" by (simp add: sampleEvm_def NewEVM_def)
  then show ?thesis using Run_budget [of sampleEvm 7] by simp
qed

end
