(* ===== verification/EvmHalt.thy ===== *)
theory EvmHalt
  imports EvmModes
begin

section \<open>Gas makes runs end\<close>

text \<open>
  Every instruction that neither ends the run nor calls costs gas, and nothing but a call
  gives gas back. Code without calls and creations therefore always ends.
\<close>

subsection \<open>Prices\<close>

definition positive :: "u64 vmAction \<Rightarrow> bool" where
  "positive g \<longleftrightarrow> (\<forall>m c m'. g m = (Ok c, m') \<longrightarrow> c \<noteq> 0)"

lemma noOverflow_SafeAdd:
  assumes "noOverflow (SafeAdd x y) m = (Ok c, m')"
  shows "unat c = unat x + unat y"
proof -
  have "SafeAdd x y = (c, False)"
    using assms by (auto simp: noOverflow_def returnA_def raiseA_def prod_eq_iff split: if_splits)
  then show ?thesis using unat_add_lem [of x y] by (simp add: SafeAdd_iff)
qed

lemma positive_return: "x \<noteq> 0 \<Longrightarrow> positive (returnA x)"
  by (simp add: positive_def returnA_def)

lemma positive_bind: "(\<And>a. positive (k a)) \<Longrightarrow> positive (bindA m k)"
  by (auto simp: positive_def bindA_Ok_iff)

lemma positive_add: "x \<noteq> 0 \<or> y \<noteq> 0 \<Longrightarrow> positive (noOverflow (SafeAdd x y))"
  unfolding positive_def using noOverflow_SafeAdd by (fastforce simp: unat_eq_zero)

lemma positive_constGas [simp]: "x \<noteq> 0 \<Longrightarrow> positive (constGasFunc x n)"
  by (simp add: constGasFunc_def positive_return)

lemma positive_memoryPlus [simp]: "x \<noteq> 0 \<Longrightarrow> positive (memoryPlus x n)"
  unfolding memoryPlus_def by (intro positive_bind positive_add) simp

lemma positive_copyGas [simp]:
  assumes "x \<noteq> 0"
  shows "positive (copyGas x i y n)"
proof -
  have "c \<noteq> 0" if "noOverflow (SafeAdd g x) m = (Ok g1, m1)" "noOverflow (SafeAdd g1 w) m2 = (Ok c, m')" for g m g1 m1 w m2 c m'
    using noOverflow_SafeAdd [OF that(1)] noOverflow_SafeAdd [OF that(2)] assms by (auto simp: unat_eq_zero)
  then show ?thesis unfolding positive_def copyGas_def bindA_Ok_iff by blast
qed

lemma positive_log [simp]: "positive (makeGasLog k n)"
proof -
  have "c \<noteq> 0" if "noOverflow (SafeAdd g LogGas) m = (Ok g1, m1)" "noOverflow (SafeAdd g1 t) m2 = (Ok g2, m3)"
    "noOverflow (SafeAdd g2 w) m4 = (Ok c, m')" for g m g1 m1 t m2 g2 m3 w m4 c m'
    using noOverflow_SafeAdd [OF that(1)] noOverflow_SafeAdd [OF that(2)] noOverflow_SafeAdd [OF that(3)]
    by (auto simp: gas_defs)
  then show ?thesis unfolding positive_def makeGasLog_def bindA_Ok_iff by blast
qed

lemma positive_sstore [simp]: "positive (gasSStore env n)"
proof -
  have "positive (if a then returnA SstoreSetGas else if b then bindA m (\<lambda>_. returnA SstoreClearGas) else returnA SstoreResetGas)" for a b m
    by (simp add: gas_defs positive_return positive_bind)
  then show ?thesis unfolding gasSStore_def by (intro positive_bind)
qed

lemma positive_exp [simp]: "positive (gasExp n)"
  unfolding gasExp_def Let_def by (intro positive_bind positive_add) (simp add: gas_defs)

lemmas positive_gas = gasCallDataCopy_def gasReturnDataCopy_def gasCodeCopy_def gasExtCodeCopy_def gasSha3_def gasMLoad_def
  gasMStore8_def gasMStore_def gasExtCodeHash_def gasBalance_def gasExtCodeSize_def gasSLoad_def gasPush_def gasSwap_def gasDup_def

lemma table_positive:
  "pred_option (\<lambda>oper. callsOut op \<or> halts oper \<or> reverts oper \<or> positive (gasCost oper n)) (newConstantinopleInstructionSet ve op)"
  by (cases op) (simp_all add: table_defs callsOut_def plain_def calling_def positive_gas gas_defs)

definition totalP :: "('s, 'e, 'a) paction \<Rightarrow> bool" where
  "totalP m \<longleftrightarrow> (\<forall>s. m s \<noteq> None)"

lemma totalP_liftP [simp]: "totalP (liftP m)"
  by (simp add: totalP_def liftP_def)

lemma table_total:
  "pred_option (\<lambda>oper. callsOut op \<or> totalP (execute oper interp)) (newConstantinopleInstructionSet ve op)"
  by (cases op) (simp_all add: table_defs callsOut_def)

subsection \<open>A turn\<close>

definition gasCode :: "Machine \<Rightarrow> u64 \<times> bytes" where
  "gasCode m = (conGas (mContract m), conCode (mContract m))"

interpretation gc: machine_view gasCode
  by unfold_locales (simp_all add: gasCode_def)

lemma makeLog_gasCode: "framed gasCode (makeLog n)"
proof -
  have e: "framed gasCode (onEvm a)" for a :: "unit evmAction"
    by (simp add: framed_def onEvm_def zoomA_def gasCode_def split_beta)
  show ?thesis unfolding makeLog_def by (rule e framed_rules)+
qed

lemma execute_gasCode:
  assumes "newConstantinopleInstructionSet ve op = Some oper" "\<not> callsOut op"
  shows "framedP gasCode (execute oper interp)"
proof (cases "isLog op")
  case True
  then obtain n where "execute oper interp = liftP (makeLog n)" using assms by (auto simp: isLog_def table_defs)
  then show ?thesis using makeLog_gasCode framedP_liftP by metis
next
  case False
  then show ?thesis using gc.table_keeps [of undefined op interp ve] assms by simp
qed

lemma chargeGas_gas:
  assumes "newConstantinopleInstructionSet ve op = Some oper" "chargeGas oper n m = (Ok (), m')"
  shows "\<exists>c m1. gasCost oper n m = (Ok c, m1) \<and> c \<le> conGas (mContract m) \<and> gasCode m' = (conGas (mContract m) - c, conCode (mContract m))"
proof -
  from assms(2) obtain r m1 where 1: "tryA (gasCost oper n) m = (Ok r, m1)"
      and 2: "(case r of Ok cost \<Rightarrow> useGas cost | _ \<Rightarrow> raiseA ErrOutOfGas_vm) m1 = (Ok (), m')"
    unfolding chargeGas_def bindA_Ok_iff by blast
  from 2 obtain c where c: "r = Ok c" by (cases r) (simp_all add: raiseA_def)
  then have g: "gasCost oper n m = (Ok c, m1)" using 1 by (auto simp: tryA_def split: prod.splits res.splits)
  have "framed gasCode (gasCost oper n)" using gc.table_keeps [of n op undefined ve] assms(1) by simp
  from framedD [OF this g] have "gasCode m1 = gasCode m" .
  then show ?thesis using 2 c g by (auto simp: useGas_def UseGas_c_def gasCode_def split: if_splits)
qed

lemma prepare_gas:
  assumes t: "newConstantinopleInstructionSet ve op = Some oper" and p: "prepare op oper m = (Ok (), m')"
    and "\<not> callsOut op" "\<not> halts oper" "\<not> reverts oper"
  shows "conGas (mContract m') < conGas (mContract m) \<and> conCode (mContract m') = conCode (mContract m)"
proof -
  from p obtain m1 m2 m3 m4 sz where 1: "validateStack oper m = (Ok (), m1)" and 2: "enforceRestrictions op oper m1 = (Ok (), m2)"
      and 3: "requiredMemory oper m2 = (Ok sz, m3)" and 4: "chargeGas oper sz m3 = (Ok (), m4)" and 5: "resizeMem sz m4 = (Ok (), m')"
    unfolding prepare_def bindA_Ok_iff by auto
  have v: "framed gasCode (validateStack oper)" using gc.table_keeps [of undefined op undefined ve] t by simp
  have "gasCode m3 = gasCode m"
    using framedD [OF v 1] framedD [OF gc.check_keeps 2] framedD [OF gc.requiredMemory_keeps [OF t] 3] by simp
  moreover obtain c where c: "\<exists>m5. gasCost oper sz m3 = (Ok c, m5)" "c \<le> conGas (mContract m3)"
      "gasCode m4 = (conGas (mContract m3) - c, conCode (mContract m3))"
    using chargeGas_gas [OF t 4] by blast
  moreover have "gasCode m' = gasCode m4" using framedD [OF gc.memory_keeps(4) 5] .
  moreover have "c \<noteq> 0" using table_positive [of op sz ve] t assms(3-5) c(1) by (auto simp: positive_def)
  then have "unat c > 0" by (simp add: unat_gt_0)
  ultimately show ?thesis by (auto simp: gasCode_def word_less_nat_alt word_le_nat_alt unat_sub)
qed

text \<open>Whatever happens, the checks before an instruction spend gas at most.\<close>

definition spends :: "'a vmAction \<Rightarrow> bool" where
  "spends a \<longleftrightarrow> (\<forall>m. conCode (mContract (snd (a m))) = conCode (mContract m) \<and> conGas (mContract (snd (a m))) \<le> conGas (mContract m))"

lemma spendsD: "spends a \<Longrightarrow> a m = (r, m') \<Longrightarrow> conCode (mContract m') = conCode (mContract m) \<and> conGas (mContract m') \<le> conGas (mContract m)"
  unfolding spends_def by (metis snd_conv)

lemma spends_framed: "framed gasCode a \<Longrightarrow> spends a"
  by (simp add: framed_def spends_def gasCode_def)

lemma spends_bind: "spends a \<Longrightarrow> (\<And>x. spends (k x)) \<Longrightarrow> spends (bindA a k)"
  unfolding spends_def bindA_def by (auto split: prod.splits res.splits) (metis snd_conv order_trans)+

lemma useGas_spends: "spends (useGas c)"
proof -
  have "x - c \<le> x" if "\<not> x < c" for x :: u64
    using that by (simp add: word_le_nat_alt unat_sub not_less)
  then show ?thesis by (simp add: spends_def useGas_def UseGas_c_def)
qed

lemma prepare_spends:
  assumes "newConstantinopleInstructionSet ve op = Some oper"
  shows "spends (prepare op oper)"
proof -
  have "framed gasCode (validateStack oper)" "framed gasCode (gasCost oper n)" for n
    using gc.table_keeps [of n op undefined ve] assms by simp_all
  moreover have "spends (case r of Ok cost \<Rightarrow> useGas cost | _ \<Rightarrow> raiseA ErrOutOfGas_vm)" for r :: "(vmError, u64) res"
    by (cases r) (auto intro: useGas_spends spends_framed framed_rules)
  ultimately show ?thesis
    unfolding prepare_def chargeGas_def
    by (intro spends_bind) (auto intro: spends_framed framed_tryA gc.check_keeps gc.requiredMemory_keeps [OF assms] gc.memory_keeps)
qed

text \<open>The bytes of the calling instructions.\<close>

definition callBytes :: "byte set" where
  "callBytes = {0xf0, 0xf1, 0xf2, 0xf4, 0xf5, 0xfa}"

lemma decodeOp_calls:
  assumes "decodeOp b = Some op" "callsOut op"
  shows "b \<in> callBytes"
proof -
  have "unat b \<in> {0xf0, 0xf1, 0xf2, 0xf4, 0xf5, 0xfa}"
    using assms by (auto simp: decodeOp_def opcodes_def callsOut_def Let_def split: if_splits)
  moreover have "b = of_nat (unat b)" by simp
  ultimately show ?thesis unfolding callBytes_def by fastforce
qed

lemma quiet_op:
  assumes "set (conCode (mContract m)) \<inter> callBytes = {}" "JumpTable ve (GetOp (mContract m) (mPc m)) = Some (op, oper)"
  shows "\<not> callsOut op"
proof
  assume c: "callsOut op"
  let ?b = "GetOp (mContract m) (mPc m)"
  have "?b \<in> callBytes" using assms(2) c decodeOp_calls by (auto simp: JumpTable_def bind_eq_Some_conv)
  moreover have "?b = 0 \<or> ?b \<in> set (conCode (mContract m))"
    using less_le_trans [OF _ take_bit_nat_less_eq_self, of "unat (mPc m)" 64]
    by (auto simp: GetOp_def GetByte_def word_less_nat_alt unsigned_of_nat)
  ultimately show False using assms(1) by (auto simp: callBytes_def)
qed

lemma step_halts:
  assumes "set (conCode (mContract m)) \<inter> callBytes = {}"
  shows "\<exists>r m'. interpStep ve interp m = Some (r, m') \<and> conCode (mContract m') = conCode (mContract m) \<and>
    conGas (mContract m') \<le> conGas (mContract m) \<and> (r = Ok Continue \<longrightarrow> conGas (mContract m') < conGas (mContract m))"
proof (cases "JumpTable ve (GetOp (mContract m) (mPc m))")
  case (Some p)
  obtain op oper where p: "p = (op, oper)" by (cases p)
  have t: "newConstantinopleInstructionSet ve op = Some oper" using Some p by (simp add: JumpTable_op)
  have q: "\<not> callsOut op" using quiet_op [OF assms] Some p by blast
  obtain r1 m1 where 1: "prepare op oper m = (r1, m1)" by (cases "prepare op oper m")
  have le: "conCode (mContract m1) = conCode (mContract m)" "conGas (mContract m1) \<le> conGas (mContract m)"
    using spendsD [OF prepare_spends [OF t] 1] by auto
  show ?thesis
  proof (cases r1)
    case (Ok u)
    obtain r2 m2 where 2: "execute oper interp m1 = Some (r2, m2)"
      using table_total [of op interp ve] t q by (fastforce simp: totalP_def)
    then have "executeOp oper interp m1 \<noteq> None" by (simp add: executeOp_def)
    then obtain r m' where 3: "executeOp oper interp m1 = Some (r, m')" by fast
    have "gasCode m2 = gasCode m1" using framedPD [OF execute_gasCode [OF t q] 2] .
    moreover from 3 have "gasCode m' = gasCode m2 \<and> (r = Ok Continue \<longrightarrow> \<not> halts oper \<and> \<not> reverts oper)"
      by (cases rule: executeOp_cases) (use 2 in \<open>auto simp: keepReturnData_def gasCode_def Let_def\<close>)
    moreover have "interpStep ve interp m = Some (r, m')"
      using Some p 1 Ok 3 by (simp add: interpStep_prepare bindP_def liftP_def)
    ultimately show ?thesis using le prepare_gas [OF t _ q] 1 Ok by (auto simp: gasCode_def)
  qed (use Some p 1 le in \<open>auto simp: interpStep_prepare bindP_def liftP_def\<close>)
qed (simp add: interpStep_prepare)

lemma loop_halts:
  assumes "set (conCode (mContract m)) \<inter> callBytes = {}"
  shows "\<exists>r m'. interpLoop (interpStep ve interp) m = Some (r, m') \<and> conGas (mContract m') \<le> conGas (mContract m)"
  using assms
proof (induction "unat (conGas (mContract m))" arbitrary: m rule: less_induct)
  case less
  obtain r m' where s: "interpStep ve interp m = Some (r, m')" and c: "conCode (mContract m') = conCode (mContract m)"
    and le: "conGas (mContract m') \<le> conGas (mContract m)" and lt: "r = Ok Continue \<longrightarrow> conGas (mContract m') < conGas (mContract m)"
    using step_halts [OF less.prems] by blast
  show ?case
  proof (cases "r = Ok Continue")
    case True
    then obtain r2 m2 where "interpLoop (interpStep ve interp) m' = Some (r2, m2)" "conGas (mContract m2) \<le> conGas (mContract m')"
      using less.hyps [of m'] less.prems c lt by (auto simp: word_less_nat_alt)
    then show ?thesis using s True le by (subst interpLoop.simps) (auto intro: order_trans)
  next
    case False
    then show ?thesis using s le by (subst interpLoop.simps) (auto split: res.splits stepOut.splits)
  qed
qed



end
