(* ===== verification/EvmTypes.thy ===== *)
theory EvmTypes
  imports EvmArith EvmHalt
begin

section \<open>Type safety of the machine\<close>

text \<open>
  A machine is well-formed when its stack holds at most 1024 words of 256 bits, its
  memory is a whole number of words below the limit of the fee, its table of jump destinations belongs to its code, and
  the values it was started with fit their types. The checks before an instruction make the
  instruction safe: it finds its operands on the stack and its bytes in the memory, so that it
  does not panic, and it leaves a well-formed machine.
\<close>

definition memLimit :: nat where "memLimit = 0xffffffffe0"

definition wordsOK :: "int list \<Rightarrow> bool" where
  "wordsOK s \<longleftrightarrow> (\<forall>x\<in>set s. isWord x)"

text \<open>The parts of a machine that the instructions of this theory only read.\<close>

definition constants :: "Machine \<Rightarrow> bytes \<times> bytes \<times> bytes \<times> hash \<times> hash option \<times> address list \<times> int list" where
  "constants m =
     (conCode (mContract m), conInput (mContract m), evReturnData (mEvm m), conHash (mContract m), conTxHash (mContract m),
      [conAddr (mContract m), conCaller (mContract m), evOrigin (mEvm m)], [conValue (mContract m), evGasPrice (mEvm m)])"

definition constantsOK :: "Machine \<Rightarrow> bool" where
  "constantsOK m \<longleftrightarrow>
     length (conCode (mContract m)) < 2 ^ 62 \<and> length (conInput (mContract m)) < 2 ^ 62 \<and> length (evReturnData (mEvm m)) < 2 ^ 62 \<and>
     length (conAddr (mContract m)) \<le> 32 \<and> length (conCaller (mContract m)) \<le> 32 \<and> length (evOrigin (mEvm m)) \<le> 32 \<and>
     isWord (conValue (mContract m)) \<and> isWord (evGasPrice (mEvm m)) \<and> conTxHash (mContract m) \<noteq> None"

definition machineOK :: "Machine \<Rightarrow> bool" where
  "machineOK m \<longleftrightarrow>
     length (mStack m) \<le> StackLimit \<and> wordsOK (mStack m) \<and>
     32 dvd length (memStore (mMem m)) \<and> length (memStore (mMem m)) \<le> memLimit \<and>
     destsOK (conDests (mContract m)) (conHash (mContract m)) (conCode (mContract m)) \<and> constantsOK m"

interpretation cs: machine_view constants
  by unfold_locales (simp_all add: constants_def)

lemma constantsOK_cong: "constants m = constants m' \<Longrightarrow> constantsOK m = constantsOK m'"
  by (simp add: constants_def constantsOK_def)

subsection \<open>Safe instructions\<close>

definition covers :: "int vmAction option \<Rightarrow> Machine \<Rightarrow> bool" where
  "covers ms m \<longleftrightarrow> (\<forall>f v. ms = Some f \<longrightarrow> fst (f m) = Ok v \<longrightarrow> v \<le> int (length (memStore (mMem m))))"

fun safeResult :: "nat \<Rightarrow> nat \<Rightarrow> Machine \<Rightarrow> (vmError, bytes) res \<times> Machine \<Rightarrow> bool" where
  "safeResult i j m (Panic, m') \<longleftrightarrow> False"
| "safeResult i j m (Err e, m') \<longleftrightarrow> True"
| "safeResult i j m (Ok r, m') \<longleftrightarrow>
     length (mStack m') + i \<le> length (mStack m) + j \<and> wordsOK (mStack m') \<and>
     length (memStore (mMem m')) = length (memStore (mMem m)) \<and>
     destsOK (conDests (mContract m')) (conHash (mContract m')) (conCode (mContract m'))"

definition safeOp :: "int vmAction option \<Rightarrow> nat \<Rightarrow> nat \<Rightarrow> bytes vmAction \<Rightarrow> bool" where
  "safeOp ms i j a \<longleftrightarrow>
     (\<forall>m. machineOK m \<longrightarrow> i \<le> length (mStack m) \<longrightarrow> covers ms m \<longrightarrow> unat (mPc m) < length (conCode (mContract m)) \<longrightarrow>
        safeResult i j m (a m))"

lemma safeOpI:
  assumes "\<And>m. machineOK m \<Longrightarrow> i \<le> length (mStack m) \<Longrightarrow> covers ms m \<Longrightarrow> unat (mPc m) < length (conCode (mContract m)) \<Longrightarrow>
    safeResult i j m (a m)"
  shows "safeOp ms i j a"
  using assms by (simp add: safeOp_def)

named_theorems safe_rules

lemma stack2:
  assumes "machineOK m" "2 \<le> length (mStack m)"
  obtains x y s where "mStack m = x # y # s" "isWord x" "isWord y" "wordsOK s"
  using assms by (cases "mStack m"; cases "tl (mStack m)") (auto simp: machineOK_def wordsOK_def)

lemma stack1:
  assumes "machineOK m" "1 \<le> length (mStack m)"
  obtains x s where "mStack m = x # s" "isWord x" "wordsOK s"
  using assms by (cases "mStack m") (auto simp: machineOK_def wordsOK_def)

lemma stack3:
  assumes "machineOK m" "3 \<le> length (mStack m)"
  obtains x y z s where "mStack m = x # y # z # s" "isWord x" "isWord y" "isWord z" "wordsOK s"
proof -
  obtain x y t where 1: "mStack m = x # y # t" "isWord x" "isWord y" "wordsOK t"
    using assms by (auto elim: stack2)
  moreover obtain z s where "t = z # s" using assms(2) 1(1) by (cases t) auto
  ultimately show thesis using that by (simp add: wordsOK_def)
qed

lemma wordsOK_simps [simp]: "wordsOK []" "wordsOK (x # s) \<longleftrightarrow> isWord x \<and> wordsOK s"
  by (auto simp: wordsOK_def)

lemma machineOK_dests: "machineOK m \<Longrightarrow> destsOK (conDests (mContract m)) (conHash (mContract m)) (conCode (mContract m))"
  by (simp add: machineOK_def)

lemma machineOK_stack: "machineOK m \<Longrightarrow> wordsOK (mStack m)"
  by (simp add: machineOK_def)

lemma safe_popPeek [safe_rules]:
  assumes "\<And>x y. isWord x \<Longrightarrow> isWord y \<Longrightarrow> isWord (f x y)"
  shows "safeOp ms 2 1 (popPeek f)"
proof (rule safeOpI)
  fix m assume m: "machineOK m" "2 \<le> length (mStack m)"
  then obtain x y s where "mStack m = x # y # s" "isWord x" "isWord y" "wordsOK s" by (rule stack2)
  then show "safeResult 2 1 m (popPeek f m)" using assms m by (simp add: popPeek_run machineOK_dests)
qed

lemma safe_popPop [safe_rules]:
  assumes "\<And>x y. isWord x \<Longrightarrow> isWord y \<Longrightarrow> isWord (f x y)"
  shows "safeOp ms 2 1 (popPop f)"
proof (rule safeOpI)
  fix m assume m: "machineOK m" "2 \<le> length (mStack m)"
  then obtain x y s where "mStack m = x # y # s" "isWord x" "isWord y" "wordsOK s" by (rule stack2)
  then show "safeResult 2 1 m (popPop f m)" using assms m by (simp add: popPop_run machineOK_dests)
qed

lemma safe_onTop [safe_rules]:
  assumes "\<And>x. isWord x \<Longrightarrow> isWord (f x)"
  shows "safeOp ms 1 1 (onTop f)"
proof (rule safeOpI)
  fix m assume m: "machineOK m" "1 \<le> length (mStack m)"
  then obtain x s where "mStack m = x # s" "isWord x" "wordsOK s" by (rule stack1)
  then show "safeResult 1 1 m (onTop f m)" using assms m by (simp add: onTop_run machineOK_dests)
qed

lemma safe_pushVal [safe_rules]:
  assumes "\<And>m. machineOK m \<Longrightarrow> isWord (f m)"
  shows "safeOp ms 0 1 (pushVal f)"
  using assms by (intro safeOpI)
    (simp add: pushVal_def bindA_def readA_def push_def modifyA_def done_op_def returnA_def machineOK_dests machineOK_stack)

lemma safe_modOp [safe_rules]: "safeOp ms 3 1 (modOp f)"
proof (rule safeOpI)
  fix m assume m: "machineOK m" "3 \<le> length (mStack m)"
  then obtain x y z s where "mStack m = x # y # z # s" "wordsOK s" by (auto elim: stack3)
  then show "safeResult 3 1 m (modOp f m)"
    using m by (simp add: modOp_def bindA_def pop_def readA_def push_def modifyA_def done_op_def returnA_def machineOK_dests)
      (simp add: isWord_def)
qed

lemma safe_raise [safe_rules]: "safeOp ms i j (raiseA e)"
  by (intro safeOpI) (simp add: raiseA_def)

lemma safe_done [safe_rules]: "safeOp ms i i done_op"
  by (intro safeOpI) (simp add: done_op_def returnA_def machineOK_stack machineOK_dests)

subsection \<open>Arithmetic and the context\<close>

lemma isWordE: "isWord x \<Longrightarrow> (\<And>a :: 256 word. x = uint a \<Longrightarrow> thesis) \<Longrightarrow> thesis"
  by (metis U256_id U256_word)

lemma isWord_small: "0 \<le> x \<Longrightarrow> x < 2 ^ 64 \<Longrightarrow> isWord x"
  by (simp add: isWord_def)

lemma isWord_bool [simp]: "isWord (boolWord b)" "isWord 0" "isWord 1"
  by (simp_all add: boolWord_def isWord_def)

lemma isWord_bits:
  assumes "isWord x" "isWord y"
  shows "isWord (x AND y)" "isWord (x OR y)" "isWord (x XOR y)"
  using assms by (auto elim!: isWordE simp: bit_values)

lemma isWord_byte: "isWord (uint (b :: byte))"
  using unsigned_less [of b, where 'a = int] by (simp add: isWord_def)

lemma isWord_u64: "isWord (uint (w :: u64))"
  using unsigned_less [of w, where 'a = int] by (simp add: isWord_def)

lemma safe_arith [safe_rules]:
  "safeOp ms 2 1 opAdd" "safeOp ms 2 1 opSub" "safeOp ms 2 1 opMul" "safeOp ms 2 1 opDiv" "safeOp ms 2 1 opSdiv"
  "safeOp ms 2 1 opMod" "safeOp ms 2 1 opSmod" "safeOp ms 2 1 opExp" "safeOp ms 1 1 opNot" "safeOp ms 2 1 opLt"
  "safeOp ms 2 1 opGt" "safeOp ms 2 1 opSlt" "safeOp ms 2 1 opSgt" "safeOp ms 2 1 opEq" "safeOp ms 1 1 opIszero"
  "safeOp ms 2 1 opAnd" "safeOp ms 2 1 opOr" "safeOp ms 2 1 opXor" "safeOp ms 2 1 opByte" "safeOp ms 3 1 opAddmod"
  "safeOp ms 3 1 opMulmod" "safeOp ms 2 1 opSHL" "safeOp ms 2 1 opSHR" "safeOp ms 2 1 opSAR"
  unfolding opAdd_def opSub_def opMul_def opDiv_def opSdiv_def opMod_def opSmod_def opExp_def opNot_def opLt_def opGt_def
    opSlt_def opSgt_def opEq_def opIszero_def opAnd_def opOr_def opXor_def opByte_def opAddmod_def opMulmod_def opSHL_def
    opSHR_def opSAR_def
  by (intro safe_rules; auto simp: Let_def isWord_bits isWord_byte Exp_U256)+

lemma safe_signExtend [safe_rules]: "safeOp ms 2 1 opSignExtend"
proof (rule safeOpI)
  fix m assume m: "machineOK m" "2 \<le> length (mStack m)"
  then obtain x y s where "mStack m = x # y # s" "isWord x" "isWord y" "wordsOK s" by (rule stack2)
  then show "safeResult 2 1 m (opSignExtend m)" using m
    by (simp add: opSignExtend_def bindA_def pop_def push_def modifyA_def done_op_def returnA_def Let_def machineOK_dests)
qed

lemma word_length: "n < 2 ^ 62 \<Longrightarrow> isWord (int n)"
  by (simp add: isWord_def)

lemma constants_words:
  assumes "machineOK m"
  shows "isWord (bigSetBytes (conAddr (mContract m)))" "isWord (bigSetBytes (conCaller (mContract m)))"
    "isWord (bigSetBytes (evOrigin (mEvm m)))" "isWord (conValue (mContract m))" "isWord (evGasPrice (mEvm m))"
    "isWord (int (length (conInput (mContract m))))" "isWord (int (length (conCode (mContract m))))"
    "isWord (int (length (evReturnData (mEvm m))))" "isWord (int (length (memStore (mMem m))))"
  using assms by (auto simp: machineOK_def constantsOK_def memLimit_def intro: bigSetBytes_word word_length)

lemma safe_context [safe_rules]:
  "safeOp ms 0 1 opAddress" "safeOp ms 0 1 opOrigin" "safeOp ms 0 1 opCaller" "safeOp ms 0 1 opCallValue"
  "safeOp ms 0 1 opCallDataSize" "safeOp ms 0 1 opReturnDataSize" "safeOp ms 0 1 opCodeSize" "safeOp ms 0 1 opGasprice"
  "safeOp ms 0 1 opTimestamp" "safeOp ms 0 1 opNumber" "safeOp ms 0 1 opGasLimit" "safeOp ms 0 1 opPc" "safeOp ms 0 1 opMsize"
  "safeOp ms 0 1 opGas" "safeOp ms 0 1 opCoinbase" "safeOp ms 0 1 opDifficulty" "safeOp ms 0 0 opJumpdest" "safeOp ms 0 0 opStop"
  unfolding opAddress_def opOrigin_def opCaller_def opCallValue_def opCallDataSize_def opReturnDataSize_def opCodeSize_def
    opGasprice_def opTimestamp_def opNumber_def opGasLimit_def opPc_def opMsize_def opGas_def opCoinbase_def opDifficulty_def
    opJumpdest_def opStop_def
  by (intro safe_rules; auto simp: constants_words isWord_u64)+

subsection \<open>Stack and jumps\<close>

lemma safe_pop [safe_rules]: "safeOp ms 1 0 opPop"
proof (rule safeOpI)
  fix m assume m: "machineOK m" "1 \<le> length (mStack m)"
  then obtain x s where "mStack m = x # s" "wordsOK s" by (auto elim: stack1)
  then show "safeResult 1 0 m (opPop m)" using m
    by (simp add: opPop_def bindA_def pop_def done_op_def returnA_def machineOK_dests)
qed

lemma safe_dup [safe_rules]:
  assumes "0 < n"
  shows "safeOp ms n (n + 1) (makeDup n)"
proof (rule safeOpI)
  fix m assume m: "machineOK m" "n \<le> length (mStack m)"
  then have "mStack m ! (n - 1) \<in> set (mStack m)" using assms by simp
  then have "isWord (mStack m ! (n - 1))" using machineOK_stack [OF m(1)] by (auto simp: wordsOK_def)
  then show "safeResult n (n + 1) m (makeDup n m)" using m assms
    by (simp add: makeDup_def dup_def bindA_def Back_def index_at_def push_def modifyA_def done_op_def returnA_def
        machineOK_dests machineOK_stack)
qed

lemma wordsOK_update: "wordsOK s \<Longrightarrow> isWord x \<Longrightarrow> wordsOK (s[i := x])"
  by (auto simp: wordsOK_def dest: set_update_subset_insert [THEN subsetD])

lemma wordsOK_nth: "wordsOK s \<Longrightarrow> i < length s \<Longrightarrow> isWord (s ! i)"
  by (simp add: wordsOK_def)

lemma safe_swap [safe_rules]: "safeOp ms (n + 1) (n + 1) (makeSwap n)"
proof (rule safeOpI)
  fix m assume m: "machineOK m" "n + 1 \<le> length (mStack m)"
  then have "isWord (mStack m ! n)" "isWord (mStack m ! 0)" using machineOK_stack [OF m(1)] by (auto intro: wordsOK_nth)
  then show "safeResult (n + 1) (n + 1) m (makeSwap n m)" using m machineOK_stack [OF m(1)]
    by (cases "mStack m = []")
      (simp_all add: makeSwap_def swap_def bindA_def index_at_def done_op_def returnA_def machineOK_dests wordsOK_update)
qed

lemma checkJump_safe:
  assumes "machineOK m" "isWord x" "constants m' = constants m" "conDests (mContract m') = conDests (mContract m)"
  shows "\<exists>d. destsOK d (conHash (mContract m)) (conCode (mContract m)) \<and>
    (\<exists>r. checkJump x m' = (r, m'\<lparr>mContract := (mContract m')\<lparr>conDests := d\<rparr>\<rparr>) \<and> r \<noteq> Panic)"
proof -
  have "length (conCode (mContract m)) < 2 ^ 62" "0 \<le> x" using assms(1,2) by (auto simp: machineOK_def constantsOK_def isWord_def)
  then obtain d b where "has (conDests (mContract m)) (conHash (mContract m)) (conCode (mContract m)) x = Some (b, d)"
      "destsOK d (conHash (mContract m)) (conCode (mContract m))"
    using has_boundary [OF machineOK_dests [OF assms(1)]] by blast
  then show ?thesis using assms(3,4) by (auto simp: checkJump_def Let_def constants_def)
qed

lemma safe_jump [safe_rules]: "safeOp ms 1 0 opJump"
proof (rule safeOpI)
  fix m assume m: "machineOK m" "1 \<le> length (mStack m)"
  then obtain x s where s: "mStack m = x # s" "isWord x" "wordsOK s" by (auto elim: stack1)
  obtain d r where "destsOK d (conHash (mContract m)) (conCode (mContract m))" "r \<noteq> Panic"
      "checkJump x (m\<lparr>mStack := s\<rparr>) = (r, m\<lparr>mStack := s, mContract := (mContract m)\<lparr>conDests := d\<rparr>\<rparr>)"
    using checkJump_safe [OF m(1) s(2), of "m\<lparr>mStack := s\<rparr>"] by (auto simp: constants_def)
  then show "safeResult 1 0 m (opJump m)" using s
    by (cases r) (simp_all add: opJump_def bindA_def pop_def setPc_def modifyA_def done_op_def returnA_def)
qed

lemma safe_jumpi [safe_rules]: "safeOp ms 2 0 opJumpi"
proof (rule safeOpI)
  fix m assume m: "machineOK m" "2 \<le> length (mStack m)"
  then obtain x y s where s: "mStack m = x # y # s" "isWord x" "wordsOK s" by (auto elim: stack2)
  obtain d r where "destsOK d (conHash (mContract m)) (conCode (mContract m))" "r \<noteq> Panic"
      "checkJump x (m\<lparr>mStack := s\<rparr>) = (r, m\<lparr>mStack := s, mContract := (mContract m)\<lparr>conDests := d\<rparr>\<rparr>)"
    using checkJump_safe [OF m(1) s(2), of "m\<lparr>mStack := s\<rparr>"] by (auto simp: constants_def)
  then show "safeResult 2 0 m (opJumpi m)" using s machineOK_dests [OF m(1)]
    by (cases r) (simp_all add: opJumpi_def bindA_def pop_def setPc_def modifyA_def done_op_def returnA_def)
qed

lemma safe_push [safe_rules]:
  assumes "n \<le> 32"
  shows "safeOp ms 0 1 (makePush n n)"
proof (rule safeOpI)
  fix m assume m: "machineOK m" and pc: "unat (mPc m) < length (conCode (mContract m))"
  have l: "length (conCode (mContract m)) < 2 ^ 62" using m by (simp add: machineOK_def constantsOK_def)
  obtain k where k: "mPc m = of_nat k" "k < length (conCode (mContract m))" using that [of "unat (mPc m)"] pc by simp
  have "sint (of_nat k + 1 :: u64) = sint (of_nat (k + 1) :: u64)" by (simp add: add.commute)
  also have "\<dots> = int k + 1" using k(2) l by (simp only: signed_of_nat) (simp add: signed_take_bit_int_eq_self)
  finally have p: "sint (mPc m + 1) = int k + 1" unfolding k(1) .
  let ?L = "int (length (conCode (mContract m)))"
  let ?e = "if int k + 1 + int n < ?L then int k + 1 + int n else ?L"
  have st: "(if sint (mPc m + 1) < ?L then sint (mPc m + 1) else ?L) = int k + 1" using k(2) by (simp add: p)
  have "nat ?e = min (Suc k + n) (length (conCode (mContract m)))" "nat (int k + 1) = Suc k" by auto
  then have "\<exists>d. slice (conCode (mContract m)) (nat (int k + 1)) (nat ?e) = Some d \<and> length d \<le> n"
    using k(2) by (simp only: slice_def) simp
  then obtain d where d: "slice (conCode (mContract m)) (nat (int k + 1)) (nat ?e) = Some d" "length d \<le> n" by blast
  have w: "isWord (bigSetBytes (RightPadBytes d (int n)))"
    using d(2) assms by (intro bigSetBytes_word) (simp add: RightPadBytes_def)
  have "makePush n n m = (Ok [], m\<lparr>mStack := bigSetBytes (RightPadBytes d (int n)) # mStack m, mPc := mPc m + of_nat n\<rparr>)"
    unfolding makePush_def bindA_def readA_def Let_def prod.case res.case st d(1)
    by (simp add: liftA_def push_def modifyA_def setPc_def done_op_def returnA_def)
  then show "safeResult 0 1 m (makePush n n m)" using w machineOK_stack [OF m] machineOK_dests [OF m] by simp
qed

subsection \<open>Memory\<close>

definition inMem :: "int \<Rightarrow> int \<Rightarrow> Memory \<Rightarrow> bool" where
  "inMem off l mem \<longleftrightarrow> 0 \<le> off \<and> 0 \<le> l \<and> (l = 0 \<or> off + l \<le> int (length (memStore mem))) \<and> length (memStore mem) \<le> memLimit"

lemma inMem_small:
  assumes "inMem off l mem"
  shows "0 \<le> l" "l \<le> int memLimit" "bigInt64 l = l" "l \<noteq> 0 \<Longrightarrow> bigInt64 off = off" "unat (bigUint64 l) = nat l"
    "l \<noteq> 0 \<Longrightarrow> unat (bigUint64 off) = nat off"
  using assms by (auto simp: inMem_def memLimit_def bigInt64_small unat_bigUint64)

lemma GetPtr_inMem:
  assumes "inMem off l mem"
  shows "\<exists>d. GetPtr (bigInt64 off) (bigInt64 l) mem = Some d \<and> length d = nat l"
    "\<exists>d. Get_m (bigInt64 off) (bigInt64 l) mem = Some d"
  using assms inMem_small [OF assms]
  by (auto simp: GetPtr_def Get_m_def inMem_def slice_def nat_add_distrib nat_le_iff)

lemma length_copyAt: "off + min n (length src) \<le> length dst \<Longrightarrow> length (copyAt dst off n src) = length dst"
  by (auto simp: copyAt_def min_def split: if_splits)

lemma Set_inMem:
  assumes "inMem off l mem" "length data = nat l"
  shows "\<exists>mem'. Set_m (bigUint64 off) (bigUint64 l) data mem = Some mem' \<and> length (memStore mem') = length (memStore mem)"
proof (cases "l = 0")
  case True
  then show ?thesis by (simp add: Set_m_def bigUint64_def)
next
  case False
  note u = inMem_small [OF assms(1)]
  have b: "nat off + nat l \<le> length (memStore mem)" "length (memStore mem) \<le> memLimit"
    using assms(1) False by (auto simp: inMem_def)
  have s: "unat (bigUint64 off + bigUint64 l) = nat off + nat l"
    using unat_add_lem [of "bigUint64 off" "bigUint64 l"] b u(5) u(6) [OF False] by (simp add: memLimit_def)
  have "unat (of_nat (length (memStore mem)) :: u64) = length (memStore mem)"
    using b(2) by (simp add: memLimit_def unsigned_of_nat take_bit_nat_eq_self)
  then have "\<not> bigUint64 off + bigUint64 l > of_nat (length (memStore mem))" "\<not> bigUint64 off > bigUint64 off + bigUint64 l"
    using s b(1) u(6) [OF False] by (simp_all add: word_less_nat_alt)
  then show ?thesis using b(1) assms(2) u(5) u(6) [OF False] by (simp add: Set_m_def length_copyAt)
qed

lemma covers_span:
  assumes m: "machineOK m" and c: "covers (Some (memorySpan i j)) m" and "i < length (mStack m)" "j < length (mStack m)"
  shows "inMem (mStack m ! i) (mStack m ! j) (mMem m)"
proof -
  have "isWord (mStack m ! i)" "isWord (mStack m ! j)" using assms(3,4) machineOK_stack [OF m] by (auto intro: wordsOK_nth)
  moreover have "memorySpan i j m = (Ok (CalcMemSize (mStack m ! i) (mStack m ! j)), m)"
    using assms(3,4) by (simp add: memorySpan_def bindA_def Back_def index_at_def returnA_def)
  moreover have "length (memStore (mMem m)) \<le> memLimit" using m by (simp add: machineOK_def)
  ultimately show ?thesis using c by (auto simp: inMem_def covers_def CalcMemSize_def isWord_def split: if_splits)
qed

lemma covers_fixed:
  assumes m: "machineOK m" and c: "covers (Some (bindA (Back 0) (\<lambda>off. returnA (CalcMemSize off n)))) m" and "mStack m = x # s" "0 < n"
  shows "inMem x n (mMem m)"
proof -
  have "isWord x" using assms(3) machineOK_stack [OF m] by simp
  moreover have "length (memStore (mMem m)) \<le> memLimit" using m by (simp add: machineOK_def)
  ultimately show ?thesis using c assms(3,4)
    by (auto simp: inMem_def covers_def CalcMemSize_def isWord_def bindA_def Back_def index_at_def returnA_def)
qed

lemma copyToMem_safe:
  assumes "inMem off l (mMem m)" "data = Some d" "length d = nat l"
  shows "\<exists>mem. copyToMem off l data m = (Ok [], m\<lparr>mMem := mem\<rparr>) \<and> length (memStore mem) = length (memStore (mMem m))"
  using Set_inMem [OF assms(1,3)] assms(2)
  by (auto simp: copyToMem_def bindA_def liftA_def onMem_def done_op_def returnA_def)

lemma GetDataBig_length:
  assumes "isWord start" "0 \<le> l" "l \<le> int memLimit" "length data < 2 ^ 62"
  shows "\<exists>d. GetDataBig data start l = Some d \<and> length d = nat l"
  using GetDataBig_total [of start l data] assms by (auto simp: isWord_def memLimit_def Let_def)

definition hashOK :: "VmEnv \<Rightarrow> bool" where
  "hashOK ve \<longleftrightarrow> (\<forall>d. length (keccak (crypto (veEnv ve)) d) = HashLength)"

lemma safe_sha3:
  assumes "hashOK ve"
  shows "safeOp (Some memorySha3) 2 1 (opSha3 (veEnv ve))"
proof (rule safeOpI)
  fix m assume m: "machineOK m" "2 \<le> length (mStack m)" and c: "covers (Some memorySha3) m"
  from m obtain x y s where s: "mStack m = x # y # s" "wordsOK s" by (auto elim: stack2)
  have "inMem x y (mMem m)" using covers_span [OF m(1) c [unfolded memorySha3_def]] s by simp
  then obtain d where "GetPtr (bigInt64 x) (bigInt64 y) (mMem m) = Some d" using GetPtr_inMem(1) by blast
  moreover have "isWord (bigSetBytes (keccak (crypto (veEnv ve)) d))" for d
    using assms by (intro bigSetBytes_word) (simp add: hashOK_def HashLength_def)
  ultimately show "safeResult 2 1 m (opSha3 (veEnv ve) m)" using s machineOK_dests [OF m(1)]
    by (simp add: opSha3_def bindA_def pop_def readMem_def push_def modifyA_def done_op_def returnA_def)
qed

lemma safe_dataLoad: "safeOp ms 1 1 opCallDataLoad"
proof (rule safeOpI)
  fix m assume m: "machineOK m" "1 \<le> length (mStack m)"
  then obtain x s where s: "mStack m = x # s" "isWord x" "wordsOK s" by (auto elim: stack1)
  obtain d where "GetDataBig (conInput (mContract m)) x 32 = Some d" "length d = 32"
    using GetDataBig_length [OF s(2), of 32 "conInput (mContract m)"] m(1) by (auto simp: machineOK_def constantsOK_def memLimit_def)
  then show "safeResult 1 1 m (opCallDataLoad m)" using s machineOK_dests [OF m(1)] bigSetBytes_word [of d]
    by (simp add: opCallDataLoad_def bindA_def pop_def readA_def liftA_def push_def modifyA_def done_op_def returnA_def)
qed

lemma safe_copy:
  assumes "\<And>m. machineOK m \<Longrightarrow> length (src (mContract m)) < 2 ^ 62"
  shows "safeOp (Some (memorySpan 0 2)) 3 0 (bindA pop (\<lambda>memOffset. bindA pop (\<lambda>dataOffset. bindA pop (\<lambda>len.
     bindA (readA (\<lambda>m. src (mContract m))) (\<lambda>input. copyToMem memOffset len (GetDataBig input dataOffset len))))))"
proof (rule safeOpI)
  fix m assume m: "machineOK m" "3 \<le> length (mStack m)" and c: "covers (Some (memorySpan 0 2)) m"
  from m obtain x y z s where s: "mStack m = x # y # z # s" "isWord y" "wordsOK s" by (auto elim: stack3)
  have i: "inMem x z (mMem m)" using covers_span [OF m(1) c] s by simp
  obtain d where d: "GetDataBig (src (mContract m)) y z = Some d" "length d = nat z"
    using GetDataBig_length [OF s(2), of z "src (mContract m)"] inMem_small [OF i] assms [OF m(1)] by blast
  obtain mem where "copyToMem x z (GetDataBig (src (mContract m)) y z) (m\<lparr>mStack := s\<rparr>) = (Ok [], m\<lparr>mStack := s, mMem := mem\<rparr>)"
      "length (memStore mem) = length (memStore (mMem m))"
    using copyToMem_safe [of x z "m\<lparr>mStack := s\<rparr>"] i d by auto
  then show "safeResult 3 0 m ((bindA pop (\<lambda>memOffset. bindA pop (\<lambda>dataOffset. bindA pop (\<lambda>len.
     bindA (readA (\<lambda>m. src (mContract m))) (\<lambda>input. copyToMem memOffset len (GetDataBig input dataOffset len)))))) m)"
    using s machineOK_dests [OF m(1)] by (simp add: bindA_def pop_def readA_def)
qed

lemma safe_copies:
  "safeOp (Some memoryCallDataCopy) 3 0 opCallDataCopy" "safeOp (Some memoryCodeCopy) 3 0 opCodeCopy"
  unfolding memoryCallDataCopy_def memoryCodeCopy_def opCallDataCopy_def opCodeCopy_def
  by (rule safe_copy, simp add: machineOK_def constantsOK_def)+

lemma safe_returnDataCopy: "safeOp (Some memoryReturnDataCopy) 3 0 opReturnDataCopy"
proof (rule safeOpI)
  fix m assume m: "machineOK m" "3 \<le> length (mStack m)" and c: "covers (Some memoryReturnDataCopy) m"
  from m obtain x y z s where s: "mStack m = x # y # z # s" "isWord y" "isWord z" "wordsOK s" by (auto elim: stack3)
  have i: "inMem x z (mMem m)" using covers_span [OF m(1) c [unfolded memoryReturnDataCopy_def]] s by simp
  let ?data = "evReturnData (mEvm m)"
  let ?bad = "\<not> IsUint64 (y + z) \<or> of_nat (length ?data) < bigUint64 (y + z)"
  show "safeResult 3 0 m (opReturnDataCopy m)"
  proof (cases ?bad)
    case True
    then show ?thesis using s by (simp add: opReturnDataCopy_def bindA_def pop_def readA_def Let_def raiseA_def)
  next
    case False
    have l: "length ?data < 2 ^ 62" using m(1) by (simp add: machineOK_def constantsOK_def)
    have yz: "0 \<le> y" "0 \<le> z" "y + z < 2 ^ 64" using False s(2,3) by (auto simp: IsUint64_def BitLen_le isWord_def)
    then have "unat (bigUint64 (y + z)) = nat (y + z)" "unat (bigUint64 y) = nat y" by (simp_all add: unat_bigUint64)
    moreover have "nat (y + z) \<le> length ?data"
      using False l calculation(1) by (simp add: word_less_nat_alt unsigned_of_nat take_bit_nat_eq_self not_less)
    ultimately obtain d where d: "slice ?data (unat (bigUint64 y)) (unat (bigUint64 (y + z))) = Some d" "length d = nat z"
      using yz by (simp add: slice_def nat_add_distrib)
    obtain mem where "copyToMem x z (slice ?data (unat (bigUint64 y)) (unat (bigUint64 (y + z)))) (m\<lparr>mStack := s\<rparr>) =
        (Ok [], m\<lparr>mStack := s, mMem := mem\<rparr>)" "length (memStore mem) = length (memStore (mMem m))"
      using copyToMem_safe [of x z "m\<lparr>mStack := s\<rparr>"] i d by auto
    then show ?thesis using False s machineOK_dests [OF m(1)]
      by (simp add: opReturnDataCopy_def bindA_def pop_def readA_def Let_def)
  qed
qed

lemma safe_mload: "safeOp (Some memoryMLoad) 1 1 opMload"
proof (rule safeOpI)
  fix m assume m: "machineOK m" "1 \<le> length (mStack m)" and c: "covers (Some memoryMLoad) m"
  from m obtain x s where s: "mStack m = x # s" "wordsOK s" by (auto elim: stack1)
  have i: "inMem x 32 (mMem m)" using covers_fixed [OF m(1) c [unfolded memoryMLoad_def] s(1)] by simp
  then obtain d where "GetPtr (bigInt64 x) 32 (mMem m) = Some d" "length d = 32"
    using GetPtr_inMem(1) [OF i] inMem_small [OF i] by auto
  then show "safeResult 1 1 m (opMload m)" using s machineOK_dests [OF m(1)] bigSetBytes_word [of d]
    by (simp add: opMload_def bindA_def peek_def Back_def index_at_def readMem_def setTop_def modifyA_def done_op_def returnA_def)
qed

lemma Set32_Set: "Set32 off v mem = Set_m off 32 (ReadBits v (replicate 32 0)) mem"
  by (simp add: Set32_def Set_m_def)

lemma safe_mstore: "safeOp (Some memoryMStore) 2 0 opMstore"
proof (rule safeOpI)
  fix m assume m: "machineOK m" "2 \<le> length (mStack m)" and c: "covers (Some memoryMStore) m"
  from m obtain x y s where s: "mStack m = x # y # s" "wordsOK s" by (auto elim: stack2)
  have i: "inMem x 32 (mMem m)" using covers_fixed [OF m(1) c [unfolded memoryMStore_def] s(1)] by simp
  have "bigUint64 32 = 32" by (simp add: bigUint64_def)
  then obtain mem where "Set32 (bigUint64 x) y (mMem m) = Some mem" "length (memStore mem) = length (memStore (mMem m))"
    using Set_inMem [OF i, of "ReadBits y (replicate 32 0)"] by (auto simp: Set32_Set length_ReadBits)
  then show "safeResult 2 0 m (opMstore m)" using s machineOK_dests [OF m(1)]
    by (simp add: opMstore_def bindA_def pop_def onMem_def done_op_def returnA_def)
qed

lemma safe_mstore8: "safeOp (Some memoryMStore8) 2 0 opMstore8"
proof (rule safeOpI)
  fix m assume m: "machineOK m" "2 \<le> length (mStack m)" and c: "covers (Some memoryMStore8) m"
  from m obtain x y s where s: "mStack m = x # y # s" "wordsOK s" by (auto elim: stack2)
  have i: "inMem x 1 (mMem m)" using covers_fixed [OF m(1) c [unfolded memoryMStore8_def] s(1)] by simp
  then have "bigInt64 x = x" "0 \<le> x" "x < int (length (memStore (mMem m)))" using inMem_small [OF i] by (auto simp: inMem_def)
  then show "safeResult 2 0 m (opMstore8 m)" using s machineOK_dests [OF m(1)]
    by (simp add: opMstore8_def bindA_def pop_def onMem_def Let_def done_op_def returnA_def)
qed

lemma safe_return: "safeOp (Some memoryReturn) 2 0 opReturn" "safeOp (Some memoryRevert) 2 0 opRevert"
proof -
  have "safeOp (Some (memorySpan 0 1)) 2 0 returnMem"
  proof (rule safeOpI)
    fix m assume m: "machineOK m" "2 \<le> length (mStack m)" and c: "covers (Some (memorySpan 0 1)) m"
    from m obtain x y s where s: "mStack m = x # y # s" "wordsOK s" by (auto elim: stack2)
    have "inMem x y (mMem m)" using covers_span [OF m(1) c] s by simp
    then obtain d where "GetPtr (bigInt64 x) (bigInt64 y) (mMem m) = Some d" using GetPtr_inMem(1) by blast
    then show "safeResult 2 0 m (returnMem m)" using s machineOK_dests [OF m(1)]
      by (simp add: returnMem_def bindA_def pop_def readMem_def)
  qed
  then show "safeOp (Some memoryReturn) 2 0 opReturn" "safeOp (Some memoryRevert) 2 0 opRevert"
    unfolding memoryReturn_def memoryRevert_def opReturn_def opRevert_def by simp_all
qed

lemmas safe_memory = safe_dataLoad safe_copies safe_returnDataCopy safe_mload safe_mstore safe_mstore8 safe_return

subsection \<open>Logs\<close>

lemma topic_hash:
  assumes "isWord t"
  shows "\<exists>h. Bytes2Hash (Some (bigBytes t)) = Some h"
proof -
  have "nat \<bar>t\<bar> < 256 ^ 32" using assms by (simp add: isWord_def nat_less_iff)
  then have "length (bigBytes t) \<le> 32" unfolding bigBytes_def by (rule length_natBytes)
  then show ?thesis by (simp add: Bytes2Hash_def HashLength_def)
qed

lemma popTopics_run:
  assumes "wordsOK s" "length ts = n" "\<forall>t\<in>set ts. isWord t"
  shows "mStack m = ts @ s \<Longrightarrow> \<exists>hs. popTopics n m = (Ok hs, m\<lparr>mStack := s\<rparr>)"
  using assms(2,3)
proof (induction ts arbitrary: n m)
  case (Cons t ts)
  obtain h where "Bytes2Hash (Some (bigBytes t)) = Some h" using topic_hash Cons.prems by auto
  moreover obtain hs where "popTopics (length ts) (m\<lparr>mStack := ts @ s\<rparr>) = (Ok hs, m\<lparr>mStack := s\<rparr>)"
    using Cons.IH [of "m\<lparr>mStack := ts @ s\<rparr>" "length ts"] Cons.prems by auto
  ultimately show ?case using Cons.prems by (auto simp: bindA_def pop_def liftA_def returnA_def)
qed (simp add: returnA_def)

lemma safe_log: "safeOp (Some memoryLog) (n + 2) 0 (makeLog n)"
proof (rule safeOpI)
  fix m assume m: "machineOK m" "n + 2 \<le> length (mStack m)" and c: "covers (Some memoryLog) m"
  then obtain x y t where s: "mStack m = x # y # t" "wordsOK t" by (auto elim: stack2)
  have "inMem x y (mMem m)" using covers_span [OF m(1) c [unfolded memoryLog_def]] s by simp
  then obtain d where d: "Get_m (bigInt64 x) (bigInt64 y) (mMem m) = Some d" using GetPtr_inMem(2) by blast
  obtain h where h: "conTxHash (mContract m) = Some h" using m(1) by (auto simp: machineOK_def constantsOK_def)
  have w: "wordsOK (drop n t)" "\<forall>t\<in>set (take n t). isWord t" "length (take n t) = n"
    using s m(2) by (auto simp: wordsOK_def dest: in_set_dropD in_set_takeD)
  obtain hs where "popTopics n (m\<lparr>mStack := t\<rparr>) = (Ok hs, m\<lparr>mStack := drop n t\<rparr>)"
    using popTopics_run [OF w(1,3,2), of "m\<lparr>mStack := t\<rparr>"] by auto
  then show "safeResult (n + 2) 0 m (makeLog n m)" using s d h w machineOK_dests [OF m(1)] m(2)
    by (simp add: makeLog_def bindA_def pop_def readMem_def readA_def onEvm_def onState_def zoomA_def AddLog_def modifyA_def
        done_op_def returnA_def)
qed

lemma safe_log2: "safeOp (Some (memorySpan 0 1)) (Suc (Suc n)) 0 (makeLog n)"
  using safe_log [of n] by (simp add: memoryLog_def)

subsection \<open>The table\<close>

text \<open>The instructions that do not read or write the store, and do not call.\<close>

definition pureOp :: "OpCode \<Rightarrow> bool" where
  "pureOp op \<longleftrightarrow> \<not> callsOut op \<and> op \<notin> {BALANCE, EXTCODESIZE, EXTCODECOPY, EXTCODEHASH, BLOCKHASH, SLOAD, SSTORE, SELFDESTRUCT}"

fun opRange :: "OpCode \<Rightarrow> bool" where
  "opRange (PUSH n) \<longleftrightarrow> n \<le> 32"
| "opRange (DUP n) \<longleftrightarrow> 0 < n"
| "opRange _ \<longleftrightarrow> True"

text \<open>Reading operands that the check of the stack has found does not panic.\<close>

definition calm :: "nat \<Rightarrow> 'a vmAction \<Rightarrow> bool" where
  "calm i a \<longleftrightarrow> (\<forall>m. i \<le> length (mStack m) \<longrightarrow> fst (a m) \<noteq> Panic \<and> length (mStack (snd (a m))) = length (mStack m))"

lemma calm_basic [simp]: "calm i (returnA x)" "k < i \<Longrightarrow> calm i (Back k)" "calm i (noOverflow p)" "calm i (memoryGas n)"
  by (auto simp: calm_def returnA_def raiseA_def Back_def index_at_def noOverflow_def memoryGas_def zoomA_def memoryGasCost_def Let_def)

lemma calm_bind [simp]: "calm i a \<Longrightarrow> (\<And>x. calm i (k x)) \<Longrightarrow> calm i (bindA a k)"
  unfolding calm_def bindA_def by (fastforce split: prod.splits res.splits)

lemma calm_gas [simp]:
  "calm i (constGasFunc x n)" "k < i \<Longrightarrow> calm i (copyGas x k y n)" "calm i (memoryPlus x n)" "1 < i \<Longrightarrow> calm i (makeGasLog l n)"
  "1 < i \<Longrightarrow> calm i (gasExp n)" "k < i \<Longrightarrow> l < i \<Longrightarrow> calm i (memorySpan k l)"
  by (simp_all add: constGasFunc_def copyGas_def memoryPlus_def makeGasLog_def gasExp_def memorySpan_def Let_def)

text \<open>A memory size is a number that depends on the stack only.\<close>

definition sizing :: "int vmAction \<Rightarrow> bool" where
  "sizing f \<longleftrightarrow> (\<forall>m. snd (f m) = m) \<and> (\<forall>m v. wordsOK (mStack m) \<longrightarrow> fst (f m) = Ok v \<longrightarrow> 0 \<le> v) \<and>
     (\<forall>m m'. mStack m = mStack m' \<longrightarrow> fst (f m) = fst (f m'))"

definition opSafe :: "operation \<Rightarrow> bool" where
  "opSafe oper \<longleftrightarrow> (\<exists>i j a. validateStack oper = makeStackFunc i j \<and> execute oper = (\<lambda>_. liftP a) \<and> safeOp (memorySize oper) i j a \<and>
     (\<forall>n. calm i (gasCost oper n)) \<and> pred_option (\<lambda>ms. calm i ms \<and> sizing ms) (memorySize oper))"

lemma opSafeI:
  assumes "validateStack oper = makeStackFunc i j" "execute oper = (\<lambda>_. liftP a)" "safeOp (memorySize oper) i j a"
    "\<And>n. calm i (gasCost oper n)" "pred_option (\<lambda>ms. calm i ms \<and> sizing ms) (memorySize oper)"
  shows "opSafe oper"
  using assms unfolding opSafe_def by blast

lemma sizing_span [simp]: "sizing (memorySpan i j)"
  by (auto simp: sizing_def memorySpan_def bindA_def Back_def index_at_def returnA_def CalcMemSize_def wordsOK_def isWord_def)

lemma sizing_fixed [simp]: "0 < n \<Longrightarrow> sizing (bindA (Back 0) (\<lambda>off. returnA (CalcMemSize off n)))"
  by (auto simp: sizing_def bindA_def Back_def index_at_def returnA_def CalcMemSize_def wordsOK_def isWord_def)

lemmas size_defs = memorySha3_def memoryCallDataCopy_def memoryReturnDataCopy_def memoryCodeCopy_def memoryMLoad_def memoryMStore_def
  memoryMStore8_def memoryReturn_def memoryRevert_def memoryLog_def

lemma table_safe:
  assumes "hashOK ve" "pureOp op" "opRange op" "newConstantinopleInstructionSet ve op = Some oper"
  shows "opSafe oper"
  using assms(2-)
  by (cases op) (auto simp: table_defs pureOp_def callsOut_def makeDupStackFunc_def makeSwapStackFunc_def positive_gas
      gasReturn_def gasRevert_def size_defs
      intro!: opSafeI safe_rules safe_memory [unfolded size_defs] safe_sha3 [OF assms(1), unfolded size_defs]
        safe_log2 simp del: One_nat_def add_Suc_right)

subsection \<open>The checks before an instruction\<close>

definition stackMem :: "Machine \<Rightarrow> int list \<times> bytes \<times> (hash \<rightharpoonup> bitvec) \<times> u64" where
  "stackMem m = (mStack m, memStore (mMem m), conDests (mContract m), mPc m)"

lemma stackMem_basic [framed_rules]:
  "framed stackMem (Back i)" "framed stackMem (noOverflow p)" "framed stackMem (memoryGas n)" "framed stackMem (require k)"
  "framed stackMem (memorySpan i j)" "framed stackMem (useGas c)"
proof -
  show "framed stackMem (Back i)" for i by (simp add: framed_def Back_def)
  note [framed_rules] = this
  show "framed stackMem (noOverflow p)" unfolding noOverflow_def by (intro framed_rules)
  show "framed stackMem (memorySpan i j)" unfolding memorySpan_def by (intro framed_rules)
qed (auto simp: framed_def require_def memoryGas_def zoomA_def memoryGasCost_def stackMem_def Let_def useGas_def UseGas_c_def)

lemma stackMem_gas [framed_rules]:
  "framed stackMem (constGasFunc x n)" "framed stackMem (copyGas x i y n)" "framed stackMem (memoryPlus x n)"
  "framed stackMem (makeGasLog k n)" "framed stackMem (gasExp n)" "framed stackMem (gasReturn n)" "framed stackMem (gasRevert n)"
  unfolding constGasFunc_def copyGas_def memoryPlus_def makeGasLog_def gasExp_def gasReturn_def gasRevert_def
  by (intro framed_rules)+

lemma stackMem_enforce: "framed stackMem (enforceRestrictions op oper)"
  unfolding enforceRestrictions_def by (intro framed_rules)

text \<open>A price with a memory size in it is only given below the limit.\<close>

definition limits :: "gasFunc \<Rightarrow> bool" where
  "limits g \<longleftrightarrow> (\<forall>sz m c m'. g sz m = (Ok c, m') \<longrightarrow> unat sz \<le> memLimit)"

lemma memoryGas_limit: "memoryGas sz m = (Ok c, m') \<Longrightarrow> unat sz \<le> memLimit"
  by (auto simp: memoryGas_def zoomA_def memoryGasCost_def memLimit_def word_less_nat_alt split: if_splits)

lemma limits_gas [simp]: "limits memoryGas" "limits (memoryPlus x)" "limits (copyGas x i y)" "limits (makeGasLog k)"
  unfolding limits_def memoryPlus_def copyGas_def makeGasLog_def bindA_Ok_iff using memoryGas_limit by blast+

lemma table_gas:
  "pureOp op \<Longrightarrow> pred_option (\<lambda>oper. (\<forall>n. framed stackMem (gasCost oper n)) \<and> (memorySize oper \<noteq> None \<longrightarrow> limits (gasCost oper)))
    (newConstantinopleInstructionSet ve op)"
  by (cases op) (simp_all add: table_defs pureOp_def callsOut_def positive_gas gasReturn_def gasRevert_def stackMem_gas stackMem_basic)

lemma sizingD:
  assumes "sizing f"
  shows "snd (f m) = m" "wordsOK (mStack m) \<Longrightarrow> fst (f m) = Ok v \<Longrightarrow> 0 \<le> v" "mStack m = mStack m' \<Longrightarrow> fst (f m) = fst (f m')"
  using assms unfolding sizing_def by blast+

definition sizeFits :: "operation \<Rightarrow> Machine \<Rightarrow> u64 \<Rightarrow> bool" where
  "sizeFits oper m sz \<longleftrightarrow> 32 dvd unat sz \<and> (memorySize oper = None \<longrightarrow> sz = 0) \<and>
     (\<forall>f v. memorySize oper = Some f \<longrightarrow> fst (f m) = Ok v \<longrightarrow> v \<le> int (unat sz))"

lemma wordSize_fits:
  assumes "0 \<le> v" "BitLen v \<le> 64" "\<not> snd (SafeMul (ToWordSize (bigUint64 v)) 32)"
  shows "32 dvd unat (ToWordSize (bigUint64 v) * 32)" "v \<le> int (unat (ToWordSize (bigUint64 v) * 32))"
proof -
  have u: "unat (bigUint64 v) = nat v" using assms by (simp add: unat_bigUint64 BitLen_le)
  have "SafeMul (ToWordSize (bigUint64 v)) 32 = (ToWordSize (bigUint64 v) * 32, False)"
    using assms(3) by (auto simp: SafeMul_def split: if_splits)
  then have "unat (ToWordSize (bigUint64 v)) * 32 < 2 ^ 64" by (simp add: SafeMul_iff)
  then have "unat (ToWordSize (bigUint64 v) * 32) = (nat v + 31) div 32 * 32"
    using unat_mult_lem [of "ToWordSize (bigUint64 v)" 32] by (simp add: ToWordSize_ceil u)
  moreover have "v \<le> int ((nat v + 31) div 32 * 32)" using assms(1) by linarith
  ultimately show "32 dvd unat (ToWordSize (bigUint64 v) * 32)" "v \<le> int (unat (ToWordSize (bigUint64 v) * 32))"
    by simp_all
qed

lemma requiredMemory_safe:
  assumes m: "machineOK m" and i: "i \<le> length (mStack m)" and ms: "pred_option (\<lambda>ms. calm i ms \<and> sizing ms) (memorySize oper)"
  shows "\<exists>r. requiredMemory oper m = (r, m) \<and> r \<noteq> Panic \<and> (\<forall>sz. r = Ok sz \<longrightarrow> sizeFits oper m sz)"
proof (cases "memorySize oper")
  case None
  then show ?thesis by (simp add: requiredMemory_def returnA_def sizeFits_def)
next
  case (Some f)
  have sf: "sizing f" "calm i f" using ms Some by simp_all
  have "snd (f m) = m" by (rule sizingD [OF sf(1)])
  moreover have "fst (f m) \<noteq> Panic" using sf(2) i by (simp add: calm_def)
  ultimately obtain r0 where f: "f m = (r0, m)" "r0 \<noteq> Panic" by (cases "f m") simp
  show ?thesis
  proof (cases r0)
    case (Ok v)
    have v: "0 \<le> v" using sizingD(2) [OF sf(1) machineOK_stack [OF m]] f(1) Ok by simp
    show ?thesis
    proof (cases "BitLen v > 64 \<or> snd (SafeMul (ToWordSize (bigUint64 v)) 32)")
      case True
      then show ?thesis using Some f Ok
        by (auto simp: requiredMemory_def bindA_def noOverflow_def bigUint64_o_def raiseA_def returnA_def)
    next
      case False
      have "fst (SafeMul (ToWordSize (bigUint64 v)) 32) = ToWordSize (bigUint64 v) * 32" by (simp add: SafeMul_def)
      then have "requiredMemory oper m = (Ok (ToWordSize (bigUint64 v) * 32), m)"
        using False Some f Ok by (simp add: requiredMemory_def bindA_def noOverflow_def bigUint64_o_def returnA_def)
      moreover have "sizeFits oper m (ToWordSize (bigUint64 v) * 32)"
        using wordSize_fits [OF v] False Some f Ok by (simp add: sizeFits_def)
      ultimately show ?thesis by simp
    qed
  next
    case (Err e)
    then have "requiredMemory oper m = (Err e, m)" using Some f(1) by (simp add: requiredMemory_def bindA_def)
    then show ?thesis by simp
  qed (use f(2) in simp)
qed

lemma validate_safe:
  "\<exists>r. makeStackFunc i j m = (r, m) \<and> r \<noteq> Panic \<and> (r = Ok () \<longrightarrow> i \<le> length (mStack m) \<and> length (mStack m) + j \<le> StackLimit + i)"
  by (auto simp: makeStackFunc_def bindA_def require_def)

lemma enforce_safe:
  assumes "pureOp op"
  shows "\<exists>r. enforceRestrictions op oper m = (r, m) \<and> r \<noteq> Panic"
proof -
  have "op \<noteq> CALL" using assms by (auto simp: pureOp_def callsOut_def)
  then show ?thesis by (simp add: enforceRestrictions_def bindA_def readA_def returnA_def raiseA_def)
qed

lemma chargeGas_safe:
  assumes t: "newConstantinopleInstructionSet ve op = Some oper" and p: "pureOp op" and g: "calm i (gasCost oper n)" "i \<le> length (mStack m)"
  shows "\<exists>r m'. chargeGas oper n m = (r, m') \<and> r \<noteq> Panic \<and> stackMem m' = stackMem m \<and> constants m' = constants m \<and>
    (r = Ok () \<longrightarrow> memorySize oper \<noteq> None \<longrightarrow> unat n \<le> memLimit)"
proof -
  obtain r0 m1 where 1: "gasCost oper n m = (r0, m1)" by (cases "gasCost oper n m")
  have nr: "r0 \<noteq> Panic" using g 1 by (auto simp: calm_def)
  have f: "framed stackMem (gasCost oper n)" "memorySize oper \<noteq> None \<longrightarrow> limits (gasCost oper)"
    using table_gas [OF p, of ve] t by auto
  have c: "framed constants (gasCost oper n)" using cs.table_keeps [of n op undefined ve] t by simp
  have m1: "stackMem m1 = stackMem m" "constants m1 = constants m" using framedD [OF f(1) 1] framedD [OF c 1] by auto
  show ?thesis
  proof (cases r0)
    case (Ok cost)
    have "memorySize oper \<noteq> None \<longrightarrow> unat n \<le> memLimit" using f(2) 1 Ok unfolding limits_def by blast
    then show ?thesis using 1 Ok m1
      by (auto simp: chargeGas_def bindA_def tryA_def useGas_def UseGas_c_def stackMem_def constants_def)
  qed (use 1 nr m1 in \<open>auto simp: chargeGas_def bindA_def tryA_def raiseA_def\<close>)
qed

lemma resize_safe:
  assumes "machineOK m" "32 dvd unat sz" "unat sz \<le> memLimit"
  shows "\<exists>m'. resizeMem sz m = (Ok (), m') \<and> machineOK m' \<and> mStack m' = mStack m \<and> mPc m' = mPc m \<and> mContract m' = mContract m \<and>
    unat sz \<le> length (memStore (mMem m'))"
proof -
  let ?l = "length (memStore (mMem m))"
  have l: "unat (of_nat ?l :: u64) = ?l" "?l \<le> memLimit" "32 dvd ?l"
    using assms(1) by (auto simp: machineOK_def memLimit_def unsigned_of_nat take_bit_nat_eq_self)
  show ?thesis
  proof (cases "of_nat ?l < sz")
    case True
    then have "length (memStore (mMem m) @ replicate (unat (sz - of_nat ?l)) 0) = unat sz"
      using l(1) by (simp add: unat_sub word_less_nat_alt word_le_nat_alt)
    moreover have "0 < sz" using True word_zero_le le_less_trans by blast
    ultimately show ?thesis using True assms by (auto simp: resizeMem_def modifyA_def Resize_def machineOK_def constantsOK_def)
  next
    case False
    then have "unat sz \<le> ?l" using l(1) by (simp add: word_less_nat_alt)
    then show ?thesis using False assms(1) by (auto simp: resizeMem_def modifyA_def Resize_def returnA_def machineOK_def constantsOK_def)
  qed
qed

lemma machineOK_cong:
  assumes "stackMem m' = stackMem m" "constants m' = constants m"
  shows "machineOK m' = machineOK m"
  using assms constantsOK_cong [OF assms(2)] by (simp add: machineOK_def stackMem_def constants_def)

lemma prepare_safe:
  assumes m: "machineOK m" and t: "newConstantinopleInstructionSet ve op = Some oper" and p: "pureOp op"
    and v: "validateStack oper = makeStackFunc i j" and g: "\<And>n. calm i (gasCost oper n)"
    and ms: "pred_option (\<lambda>ms. calm i ms \<and> sizing ms) (memorySize oper)"
  shows "\<exists>r m'. prepare op oper m = (r, m') \<and> r \<noteq> Panic \<and>
    (r = Ok () \<longrightarrow> machineOK m' \<and> i \<le> length (mStack m') \<and> length (mStack m') + j \<le> StackLimit + i \<and>
       covers (memorySize oper) m' \<and> mPc m' = mPc m \<and> conCode (mContract m') = conCode (mContract m))"
proof -
  obtain r1 where 1: "validateStack oper m = (r1, m)" "r1 \<noteq> Panic"
      "r1 = Ok () \<longrightarrow> i \<le> length (mStack m) \<and> length (mStack m) + j \<le> StackLimit + i"
    using validate_safe [of i j m] v by auto
  obtain r2 where 2: "enforceRestrictions op oper m = (r2, m)" "r2 \<noteq> Panic" using enforce_safe [OF p] by blast
  show ?thesis
  proof (cases "r1 = Ok () \<and> r2 = Ok ()")
    case True
    then have i: "i \<le> length (mStack m)" "length (mStack m) + j \<le> StackLimit + i" using 1 by auto
    obtain r3 where 3: "requiredMemory oper m = (r3, m)" "r3 \<noteq> Panic" "\<forall>sz. r3 = Ok sz \<longrightarrow> sizeFits oper m sz"
      using requiredMemory_safe [OF m i(1) ms] by blast
    show ?thesis
    proof (cases r3)
      case (Ok sz)
      obtain r4 m4 where 4: "chargeGas oper sz m = (r4, m4)" "r4 \<noteq> Panic" "stackMem m4 = stackMem m" "constants m4 = constants m"
          "r4 = Ok () \<longrightarrow> memorySize oper \<noteq> None \<longrightarrow> unat sz \<le> memLimit"
        using chargeGas_safe [OF t p g i(1)] by blast
      have m4: "machineOK m4" using machineOK_cong [OF 4(3,4)] m by simp
      show ?thesis
      proof (cases "r4 = Ok ()")
        case True
        have sz: "sizeFits oper m sz" "unat sz \<le> memLimit" using 3(3) Ok 4(5) True by (auto simp: sizeFits_def)
        obtain m' where 5: "resizeMem sz m4 = (Ok (), m')" "machineOK m'" "mStack m' = mStack m4" "mPc m' = mPc m4"
            "mContract m' = mContract m4" "unat sz \<le> length (memStore (mMem m'))"
          using resize_safe [OF m4 _ sz(2)] sz(1) by (auto simp: sizeFits_def)
        have s: "mStack m' = mStack m" "mPc m' = mPc m" "conCode (mContract m') = conCode (mContract m)"
          using 4(3,4) 5(3-5) by (auto simp: stackMem_def constants_def)
        have "covers (memorySize oper) m'" unfolding covers_def
        proof (intro allI impI)
          fix f v assume f: "memorySize oper = Some f" "fst (f m') = Ok v"
          then have "fst (f m) = Ok v" using sizingD(3) [of f m m'] ms s(1) by simp
          then have "v \<le> int (unat sz)" using sz(1) f(1) unfolding sizeFits_def by blast
          then show "v \<le> int (length (memStore (mMem m')))" using 5(6) by linarith
        qed
        moreover have "prepare op oper m = (Ok (), m')"
          using 1 2 3(1) 4(1) 5(1) \<open>r1 = Ok () \<and> r2 = Ok ()\<close> Ok True by (simp add: prepare_def bindA_def)
        ultimately show ?thesis using 5(2) s i by simp
      next
        case False
        then show ?thesis using 1 2 3(1) 4(1,2) \<open>r1 = Ok () \<and> r2 = Ok ()\<close> Ok by (cases r4) (simp_all add: prepare_def bindA_def)
      qed
    qed (use 1 2 3(1,2) True in \<open>simp_all add: prepare_def bindA_def\<close>)
  next
    case False
    then show ?thesis using 1 2 by (cases r1; cases r2) (simp_all add: prepare_def bindA_def)
  qed
qed

subsection \<open>Runs\<close>

text \<open>The bytes of the instructions that call, or that read or write the accounts or the block chain.\<close>

definition impureBytes :: "byte set" where
  "impureBytes = callBytes \<union> {0x31, 0x3b, 0x3c, 0x3f, 0x40, 0x54, 0x55, 0xff}"

lemma decodeOp_impure:
  assumes "decodeOp b = Some op" "\<not> pureOp op"
  shows "b \<in> impureBytes"
proof (cases "callsOut op")
  case True
  then show ?thesis using decodeOp_calls [OF assms(1)] by (simp add: impureBytes_def)
next
  case False
  then have "unat b \<in> {0x31, 0x3b, 0x3c, 0x3f, 0x40, 0x54, 0x55, 0xff}"
    using assms by (auto simp: decodeOp_def opcodes_def pureOp_def Let_def split: if_splits)
  moreover have "b = of_nat (unat b)" by simp
  ultimately show ?thesis unfolding impureBytes_def by fastforce
qed

lemma decodeOp_range: "decodeOp b = Some op \<Longrightarrow> opRange op"
  by (auto simp: decodeOp_def opcodes_def Let_def split: if_splits)

lemma GetOp_code: "GetOp c n = 0 \<or> GetOp c n \<in> set (conCode c)"
  using less_le_trans [OF _ take_bit_nat_less_eq_self, of "unat n" 64]
  by (auto simp: GetOp_def GetByte_def word_less_nat_alt unsigned_of_nat)

lemma GetOp_inside:
  assumes "GetOp c n \<noteq> 0"
  shows "unat n < length (conCode c)"
  using assms less_le_trans [OF _ take_bit_nat_less_eq_self, of "unat n" 64]
  by (auto simp: GetOp_def GetByte_def word_less_nat_alt unsigned_of_nat split: if_splits)

lemma pure_op:
  assumes "set (conCode (mContract m)) \<inter> impureBytes = {}" "JumpTable ve (GetOp (mContract m) (mPc m)) = Some (op, oper)"
  shows "pureOp op" "opRange op" "op \<noteq> STOP \<Longrightarrow> unat (mPc m) < length (conCode (mContract m))"
proof -
  let ?b = "GetOp (mContract m) (mPc m)"
  have d: "decodeOp ?b = Some op" using assms(2) by (auto simp: JumpTable_def bind_eq_Some_conv)
  have "?b \<notin> impureBytes"
    using GetOp_code [of "mContract m" "mPc m"] assms(1) by (auto simp: impureBytes_def callBytes_def)
  then show "pureOp op" using decodeOp_impure [OF d] by blast
  show "opRange op" using d by (rule decodeOp_range)
  show "unat (mPc m) < length (conCode (mContract m))" if "op \<noteq> STOP"
  proof (rule GetOp_inside)
    show "?b \<noteq> 0" using that d by (auto simp: decodeOp_def opcodes_def)
  qed
qed

lemma table_returns: "pureOp op \<Longrightarrow> pred_option (\<lambda>oper. returns oper \<longrightarrow> reverts oper) (newConstantinopleInstructionSet ve op)"
  by (cases op) (simp_all add: table_defs pureOp_def callsOut_def plain_def)

lemma safeResult_OK:
  assumes "machineOK m" "length (mStack m) + j \<le> StackLimit + i" "safeResult i j m (Ok res, m')" "constants m' = constants m"
  shows "machineOK m'"
  using assms constantsOK_cong [OF assms(4)] by (auto simp: machineOK_def constants_def)

lemma safeResult_noPanic: "safeResult i j m (r, m') \<Longrightarrow> r \<noteq> Panic"
  by (cases r) auto

lemma makeLog_constants: "framed constants (makeLog n)"
proof -
  have e: "framed constants (onEvm (onState (AddLog a h d ts k)))" for a h d ts k
    by (simp add: framed_def onEvm_def onState_def zoomA_def AddLog_def modifyA_def constants_def)
  show ?thesis unfolding makeLog_def by (rule e framed_rules)+
qed

lemma execute_constants:
  assumes "newConstantinopleInstructionSet ve op = Some oper" "\<not> callsOut op"
  shows "framedP constants (execute oper interp)"
proof (cases "isLog op")
  case True
  then obtain n where "execute oper interp = liftP (makeLog n)" using assms by (auto simp: isLog_def table_defs)
  then show ?thesis using makeLog_constants framedP_liftP by metis
next
  case False
  then show ?thesis using cs.table_keeps [of undefined op interp ve] assms by simp
qed

lemma step_safe:
  assumes m: "machineOK m" and h: "hashOK ve" and c: "set (conCode (mContract m)) \<inter> impureBytes = {}"
    and s: "interpStep ve interp m = Some (r, m')"
  shows "r \<noteq> Panic \<and> (r = Ok Continue \<longrightarrow> machineOK m')"
  using s
proof (cases rule: interpStep_cases)
  case (run op oper m1)
  note p = pure_op [OF c run(1)]
  have t: "newConstantinopleInstructionSet ve op = Some oper" using run(1) by (rule JumpTable_op)
  obtain i j a where e: "validateStack oper = makeStackFunc i j" "execute oper = (\<lambda>_. liftP a)" "safeOp (memorySize oper) i j a"
      "\<And>n. calm i (gasCost oper n)" "pred_option (\<lambda>ms. calm i ms \<and> sizing ms) (memorySize oper)"
    using table_safe [OF h p(1,2) t] unfolding opSafe_def by blast
  have m1: "machineOK m1" "i \<le> length (mStack m1)" "length (mStack m1) + j \<le> StackLimit + i" "covers (memorySize oper) m1"
      "mPc m1 = mPc m" "conCode (mContract m1) = conCode (mContract m)"
    using prepare_safe [OF m t p(1) e(1,4,5)] run(2) by auto
  show ?thesis
  proof (cases "op = STOP")
    case True
    from run(3) show ?thesis
      by (cases rule: executeOp_cases) (use True t in \<open>auto simp: table_defs plain_def liftP_def opStop_def done_op_def returnA_def\<close>)
  next
    case False
    have sr: "safeResult i j m1 (a m1)" using e(3) m1 p(3) [OF False] unfolding safeOp_def by simp
    have nr: "r = Ok Continue \<longrightarrow> \<not> returns oper"
      using run(3) table_returns [OF p(1), of ve] t by (cases rule: executeOp_cases) auto
    have k: "constants m2 = constants m1" if "execute oper interp m1 = Some (r2, m2)" for r2 m2
      using framedPD [OF execute_constants [OF t] that] p(1) by (auto simp: pureOp_def)
    from run(3) show ?thesis
    proof (cases rule: executeOp_cases)
      case (continue res m2)
      have "machineOK m2" using safeResult_OK [OF m1(1,3) _ k [OF continue(1)]] sr continue(1) e(2) by (simp add: liftP_def)
      then show ?thesis using continue nr
        by (simp add: keepReturnData_def machineOK_def constantsOK_def Let_def)
    qed (use sr e(2) in \<open>auto simp: liftP_def dest: safeResult_noPanic\<close>)
  qed
next
  case (refused op oper r1)
  note p = pure_op [OF c refused(1)]
  have t: "newConstantinopleInstructionSet ve op = Some oper" using refused(1) by (rule JumpTable_op)
  obtain i j a where "validateStack oper = makeStackFunc i j" "\<And>n. calm i (gasCost oper n)"
      "pred_option (\<lambda>ms. calm i ms \<and> sizing ms) (memorySize oper)"
    using table_safe [OF h p(1,2) t] unfolding opSafe_def by blast
  then have "r1 \<noteq> Panic" using prepare_safe [OF m t p(1)] refused(2) by fastforce
  then show ?thesis using refused(4,5) by auto
qed simp

lemma loop_safe:
  assumes "machineOK m" "hashOK ve" "set (conCode (mContract m)) \<inter> impureBytes = {}"
  shows "\<exists>out m'. interpLoop (interpStep ve interp) m = Some (Ok out, m')"
  using assms(1,3)
proof (induction "unat (conGas (mContract m))" arbitrary: m rule: less_induct)
  case less
  have q: "set (conCode (mContract m)) \<inter> callBytes = {}" using less.prems(2) by (auto simp: impureBytes_def)
  obtain r m' where s: "interpStep ve interp m = Some (r, m')" and c: "conCode (mContract m') = conCode (mContract m)"
    and lt: "r = Ok Continue \<longrightarrow> conGas (mContract m') < conGas (mContract m)"
    using step_halts [OF q] by blast
  have k: "r \<noteq> Panic" "r = Ok Continue \<longrightarrow> machineOK m'" using step_safe [OF less.prems(1) assms(2) less.prems(2) s] by auto
  show ?case
  proof (cases "r = Ok Continue")
    case True
    then have "\<exists>out m2. interpLoop (interpStep ve interp) m' = Some (Ok out, m2)"
      using less.hyps [of m'] less.prems(2) c lt k(2) by (auto simp: word_less_nat_alt)
    then show ?thesis using s True by (subst interpLoop.simps) auto
  next
    case False
    then show ?thesis using s k(1) by (subst interpLoop.simps) (auto split: res.splits stepOut.splits)
  qed
qed

text \<open>What a caller puts into a contract before running it.\<close>

definition contractOK :: "Contract \<Rightarrow> bytes \<Rightarrow> bool" where
  "contractOK c input \<longleftrightarrow>
     length (conCode c) < 2 ^ 62 \<and> length input < 2 ^ 62 \<and> length (conAddr c) \<le> 32 \<and> length (conCaller c) \<le> 32 \<and>
     isWord (conValue c) \<and> conTxHash c \<noteq> None \<and> destsOK (conDests c) (conHash c) (conCode c)"

text \<open>
  C5. A program that neither calls nor touches the accounts or the block chain cannot crash the
  machine: whatever its other bytes, its input and its gas are, the run returns a result or an
  error of the machine, never a panic. Every stack index, memory slice and bit of the jump map
  that the instructions use is in range because of the checks the loop makes before them. The
  hypotheses are what the caller provides: addresses of at most 32 bytes, a value and a gas price
  that are words, a transaction hash, and a digest function of 32 bytes.
\<close>

theorem Run_type_safe:
  assumes "contractOK c input" "hashOK ve" "isWord (evGasPrice evm)" "length (evOrigin evm) \<le> 32"
    "set (conCode c) \<inter> impureBytes = {}"
  shows "\<exists>ret err evm' c'. Run ve input readOnly (evm, c) = Some (Ok (ret, err), evm', c')"
proof -
  have "machineOK (startOf c input readOnly evm)"
    using assms by (simp add: machineOK_def constantsOK_def contractOK_def startOf_def wordsOK_def NewMemory_def)
  then obtain out m' where "interpLoop (interpStep ve (RunN 1024 ve)) (startOf c input readOnly evm) = Some (Ok out, m')"
    using loop_safe [of "startOf c input readOnly evm" ve "RunN 1024 ve"] assms(2,5) by (auto simp: startOf_def)
  then show ?thesis unfolding Run_Suc by (cases out) (simp add: RunWith_def Let_def startOf_def)
qed

theorem Run_type_safe_witness:
  "\<exists>ret err evm' c'. Run sampleVe [1, 2] False (sampleEvm, sampleContract [0x60, 5, 0x56, 0x51, 0x20, 0x5b, 0x90] 20000) =
     Some (Ok (ret, err), evm', c')"
proof (rule Run_type_safe)
  show "hashOK sampleVe" by (simp add: hashOK_def sampleVe_def sampleEnv_def sampleKeccak_def HashLength_def)
qed (simp_all add: contractOK_def sampleContract_def NewContract_def impureBytes_def callBytes_def sampleEvm_def NewEVM_def
      isWord_def destsOK_def alice_def bob_def sampleTx_def)

end
