(* ===== verification/EvmSpin.thy ===== *)
theory EvmSpin
  imports EvmHalt
begin

section \<open>Runs that do not end\<close>

text \<open>
  \<^verbatim>\<open>DelegateCall\<close> hands back the gas of the calling contract instead of what the callee left over, and the
  instruction adds it to that contract: the gas of a run can grow, and a loop around the instruction need not end.
\<close>

text \<open>A loop whose turns keep leading back into a set of machines has no result.\<close>

inductive turns :: "stepOut vmPaction \<Rightarrow> Machine \<Rightarrow> Machine \<Rightarrow> bool" for step where
  here: "turns step m m"
| turn: "step m = Some (Ok Continue, m1) \<Longrightarrow> turns step m1 m' \<Longrightarrow> turns step m m'"

lemma turns_step: "step m = Some (Ok Continue, m1) \<Longrightarrow> turns step m m' \<longleftrightarrow> m = m' \<or> turns step m1 m'"
  by (auto intro: turns.intros elim: turns.cases)

lemma turns_trans: "turns step m m1 \<Longrightarrow> turns step m1 m2 \<Longrightarrow> turns step m m2"
  by (induction rule: turns.induct) (auto intro: turns.turn)

definition returning :: "(Machine \<Rightarrow> bool) \<Rightarrow> stepOut vmPaction \<Rightarrow> bool" where
  "returning I step \<longleftrightarrow> (\<forall>m. I m \<longrightarrow> (\<exists>m1 m'. step m = Some (Ok Continue, m1) \<and> turns step m1 m' \<and> I m'))"

lemma returning_step:
  assumes "returning I step" "turns step m m'" "I m'"
  shows "\<exists>m1 m2. step m = Some (Ok Continue, m1) \<and> turns step m1 m2 \<and> I m2"
  using assms(2) by (cases rule: turns.cases) (use assms(1,3) in \<open>auto simp: returning_def\<close>)

lemma loop_escapes:
  assumes "interpLoop step m = Some y"
  shows "\<forall>m'. returning I step \<longrightarrow> turns step m m' \<longrightarrow> \<not> I m'"
proof (rule interpLoop.raw_induct [OF _ assms], intro allI impI notI)
  fix f :: "stepOut vmPaction \<Rightarrow> runOut vmPaction" and step m y m'
  assume IH: "\<And>step m y. f step m = Some y \<Longrightarrow> \<forall>m'. returning I step \<longrightarrow> turns step m m' \<longrightarrow> \<not> I m'"
    and f: "Option.bind (step m) (\<lambda>(r, m'). case r of Panic \<Rightarrow> Some (Panic, m') | Err e \<Rightarrow> Some (Ok ([], Some e), m')
      | Ok out \<Rightarrow> (case out of Stop res \<Rightarrow> Some (Ok res, m') | Continue \<Rightarrow> f step m')) = Some y"
    and m: "returning I step" "turns step m m'" "I m'"
  obtain m1 m2 where m1: "step m = Some (Ok Continue, m1)" "turns step m1 m2" "I m2" using returning_step [OF m] by blast
  then have "f step m1 = Some y" using f by simp
  then show False using IH m(1) m1(2,3) by blast
qed

lemma loop_spins:
  assumes "I m" "returning I step"
  shows "interpLoop step m = None"
proof (rule ccontr)
  assume "interpLoop step m \<noteq> None"
  then obtain y where "interpLoop step m = Some y" by blast
  then show False using loop_escapes [where I = I] assms turns.here by blast
qed

text \<open>
  \<^verbatim>\<open>JUMPDEST PUSH1 0 PUSH1 0 PUSH1 0 PUSH1 0 PUSH1 n PUSH1 0 DELEGATECALL POP PUSH1 0 JUMP\<close>: a loop that delegates
  to the account with the number \<^verbatim>\<open>n\<close>, with no gas for it.
\<close>

definition spinCode :: "byte \<Rightarrow> bytes" where
  "spinCode n = [0x5b, 0x60, 0, 0x60, 0, 0x60, 0, 0x60, 0, 0x60, n, 0x60, 0, 0xf4, 0x50, 0x60, 0, 0x56]"

definition spinMachine :: "Contract \<Rightarrow> EVM \<Rightarrow> u64 \<Rightarrow> int list \<Rightarrow> u64 \<Rightarrow> Machine" where
  "spinMachine c e pc s gas = \<lparr>mPc = pc, mContract = c\<lparr>conGas := gas\<rparr>, mMem = NewMemory, mStack = s, mEvm = e\<rparr>"

lemmas spin_defs = spinMachine_def interpStep_prepare prepare_def exec_defs gas_defs spinCode_def NewMemory_def bigSetBytes_def

lemma contract_swap: "c\<lparr>conGas := g, conDests := d\<rparr> = c\<lparr>conDests := d, conGas := g\<rparr>" for c :: Contract
  by simp

lemma spin_push:
  assumes "conCode c = spinCode n" "\<not> gas < 3000" "length s < 10"
  shows "pc \<in> {1, 3, 5, 7, 11, 15} \<Longrightarrow>
      interpStep ve interp (spinMachine c e pc s gas) = Some (Ok Continue, spinMachine c e (pc + 2) (0 # s) (gas - 3000))"
    "interpStep ve interp (spinMachine c e 9 s gas) = Some (Ok Continue, spinMachine c e 11 (uint n # s) (gas - 3000))"
  using assms by (auto simp: spin_defs beNat_def)

lemma spin_plain:
  assumes "conCode c = spinCode n"
  shows "\<not> gas < 1 \<Longrightarrow> interpStep ve interp (spinMachine c e 0 [] gas) = Some (Ok Continue, spinMachine c e 1 [] (gas - 1))"
    "\<not> gas < 2000 \<Longrightarrow>
      interpStep ve interp (spinMachine c e 14 [x] gas) = Some (Ok Continue, spinMachine c e 15 [] (gas - 2000))"
  using assms by (auto simp: spin_defs opJumpdest_def opPop_def pop_def)

lemma spin_jump:
  assumes "conCode c = spinCode n" "\<not> gas < 8000" "destsOK (conDests c) (conHash c) (spinCode n)"
  shows "\<exists>d. destsOK d (conHash c) (spinCode n) \<and>
    interpStep ve interp (spinMachine c e 17 [0] gas) = Some (Ok Continue, spinMachine (c\<lparr>conDests := d\<rparr>) e 0 [] (gas - 8000))"
proof -
  obtain d where "has (conDests c) (conHash c) (spinCode n) 0 = Some (True, d)" "destsOK d (conHash c) (spinCode n)"
    using has_boundary [OF assms(3), of 0] by (auto simp: spinCode_def boundary.intros)
  then show ?thesis using assms(1,2)
    by (intro exI [of _ d]) (simp add: spin_defs opJump_def checkJump_def pop_def bigUint64_def contract_swap)
qed

text \<open>The callee is a contract that stops at once.\<close>

lemma stop_run:
  assumes "conCode c = [0]" "conValue c = 0"
  shows "RunN (Suc k) ve [] False (evm, c) = Some (Ok ([], None), evm\<lparr>evReturnData := []\<rparr>, c\<lparr>conInput := []\<rparr>)"
proof -
  have "interpLoop (interpStep ve (RunN k ve)) (startOf c [] False evm) =
      Some (Ok ([], None), startOf c [] False evm)"
    using assms by (subst interpLoop.simps)
      (simp add: interpStep_prepare prepare_def exec_defs gas_defs startOf_def opStop_def NewMemory_def)
  then show ?thesis using assms by (simp add: RunWith_def Let_def bigUint64_def startOf_def)
qed

lemma small_address:
  fixes n :: byte
  assumes "n > 8"
  shows "BigToAddress (uint n) = BytesToAddress [n]" "\<not> addrIsEmpty (BytesToAddress [n])"
    "PrecompiledContracts ve (BytesToAddress [n]) = None"
proof -
  have "unat n \<noteq> 0" "unat n < 256" using assms unsigned_less [of n] by (auto simp: word_less_nat_alt)
  then have "natBytes (unat n) = [n]" by (simp add: natBytes.simps)
  then show "BigToAddress (uint n) = BytesToAddress [n]" by (simp add: BigToAddress_def bigBytes_def)
  have "n \<notin> {0, 1, 2, 3, 4, 5, 6, 7, 8}" using assms by auto
  moreover have "replicate 19 0 @ [n] \<noteq> replicate 20 0" if "n \<noteq> 0"
    using that last_replicate [of 20 "0 :: byte"] by (metis last_snoc zero_neq_numeral)
  ultimately show "\<not> addrIsEmpty (BytesToAddress [n])" "PrecompiledContracts ve (BytesToAddress [n]) = None"
    by (simp_all add: BytesToAddress_def AddressLength_def addrIsEmpty_def ZeroAddress_def PrecompiledContracts_def Let_def)
qed

text \<open>The account delegated to: its code is one \<^verbatim>\<open>STOP\<close>.\<close>

definition stopsAt :: "VmEnv \<Rightarrow> EVM \<Rightarrow> byte \<Rightarrow> bool" where
  "stopsAt ve e n \<longleftrightarrow> n > 8 \<and> evDepth e \<le> CallCreateDepth \<and> \<not> veNoRecursion ve \<and>
     GetByteCode_v ve (BytesToAddress [n]) (evState e) = (Ok (Some [0]), evState e) \<and>
     length (keccak (crypto (veEnv ve)) [0]) = HashLength"

lemma spin_delegate:
  assumes "stopsAt ve e n"
  shows "DelegateCall ve (RunN (Suc k) ve) c (BigToAddress (uint n)) [] g e =
    Some (Ok (([], conGas c, None), conDests c), e\<lparr>evReturnData := []\<rparr>)"
proof -
  have h: "Bytes2Hash (Some (keccak (crypto (veEnv ve)) [0])) = Some (keccak (crypto (veEnv ve)) [0])"
    using assms by (simp add: stopsAt_def Bytes2Hash_def)
  show ?thesis
    using assms small_address [of n] stop_run h
    by (simp add: stopsAt_def DelegateCall_def readP_def returnP_def onStateP_def onState_def zoomA_def bindP_def liftP_def
        readA_def returnA_def inContract_def SetCode_def NewContract_def runContract_def GetByteCodeHash_def)
qed

lemma spin_prepare:
  assumes "\<not> gas < 7000" "newConstantinopleInstructionSet ve DELEGATECALL = Some oper"
  shows "prepare DELEGATECALL oper (spinMachine c e 13 [0, x, 0, 0, 0, 0] gas) =
    (Ok (), spinMachine c (e\<lparr>evCallGasTemp := 0\<rparr>) 13 [0, x, 0, 0, 0, 0] (gas - 7000))"
  using assms
  by (auto simp: prepare_def spinMachine_def table_defs calling_def makeStackFunc_def require_def bindA_def returnA_def raiseA_def readA_def modifyA_def tryA_def
    enforceRestrictions_def requiredMemory_def memoryDelegateCall_def memorySpan_def Back_def index_at_def CalcMemSize_def BigMax_def
    noOverflow_def bigUint64_o_def bigUint64_def BitLen_def ToWordSize_def SafeMul_def SafeAdd_def MaxUint64_def chargeGas_def gasDelegateCall_def
    memoryPlus_def memoryGas_def zoomA_def memoryGasCost_def withCallGas_def callGas_def Calls_def useGas_def UseGas_c_def resizeMem_def StackLimit_def NewMemory_def floorlog_def)

lemma spin_call:
  assumes "conCode c = spinCode n" "\<not> gas < 7000" "stopsAt ve e n"
  shows "interpStep ve (RunN (Suc k) ve) (spinMachine c e 13 [0, uint n, 0, 0, 0, 0] gas) =
    Some (Ok Continue, spinMachine c (e\<lparr>evCallGasTemp := 0, evReturnData := []\<rparr>) 14 [1] (2 * (gas - 7000)))"
proof -
  obtain oper where t: "newConstantinopleInstructionSet ve DELEGATECALL = Some oper"
      "oper = calling (opDelegateCall ve) gasDelegateCall (makeStackFunc 6 1) memoryDelegateCall"
    by (simp add: table_defs)
  have j: "JumpTable ve (GetOp (mContract (spinMachine c e 13 [0, uint n, 0, 0, 0, 0] gas)) 13) = Some (DELEGATECALL, oper)"
    using assms(1) t by (simp add: JumpTable_def GetOp_def GetByte_def decodeOp_def opcodes_def spinCode_def spinMachine_def)
  have "stopsAt ve (e\<lparr>evCallGasTemp := 0\<rparr>) n" using assms(3) by (simp add: stopsAt_def)
  from spin_delegate [OF this]
  have "executeOp oper (RunN (Suc k) ve) (spinMachine c (e\<lparr>evCallGasTemp := 0\<rparr>) 13 [0, uint n, 0, 0, 0, 0] (gas - 7000)) =
    Some (Ok Continue, spinMachine c (e\<lparr>evCallGasTemp := 0, evReturnData := []\<rparr>) 14 [1] (2 * (gas - 7000)))"
    unfolding t(2) by (simp add: executeOp_def calling_def opDelegateCall_def spinMachine_def bindP_def liftP_def bindA_def pop_def readA_def
        returnA_def modifyA_def callArgs_def readMem_def GetPtr_def bigInt64_def bigUint64_def onEvmP_def callResult_def push_def onMem_def
        Set_m_def addGas_c_def keepReturnData_def NewMemory_def)
  then show ?thesis using j spin_prepare [OF assms(2) t(1)]
    by (simp add: interpStep_prepare bindP_def liftP_def spinMachine_def)
qed

definition spinGas :: u64 where "spinGas = 63002"

definition spinning :: "VmEnv \<Rightarrow> byte \<Rightarrow> Machine \<Rightarrow> bool" where
  "spinning ve n m \<longleftrightarrow> (\<exists>c e. m = spinMachine c e 0 [] spinGas \<and> conCode c = spinCode n \<and>
     destsOK (conDests c) (conHash c) (spinCode n) \<and> stopsAt ve e n)"

text \<open>One round of the loop: six operands, the call that doubles the gas, and the way back.\<close>

lemma spin_round: "returning (spinning ve n) (interpStep ve (RunN (Suc k) ve))"
  unfolding returning_def
proof (intro allI impI)
  let ?step = "interpStep ve (RunN (Suc k) ve)"
  fix m assume "spinning ve n m"
  then obtain c e where m: "m = spinMachine c e 0 [] 63002" and c: "conCode c = spinCode n"
      and d: "destsOK (conDests c) (conHash c) (spinCode n)" and e: "stopsAt ve e n"
    by (auto simp: spinning_def spinGas_def)
  let ?e = "e\<lparr>evCallGasTemp := 0, evReturnData := []\<rparr>"
  obtain d' where d': "destsOK d' (conHash c) (spinCode n)"
      "?step (spinMachine c ?e 17 [0] 71002) = Some (Ok Continue, spinMachine (c\<lparr>conDests := d'\<rparr>) ?e 0 [] 63002)"
    using spin_jump [OF c _ d, of 71002 ve "RunN (Suc k) ve" ?e] by auto
  have s: "?step m = Some (Ok Continue, spinMachine c e 1 [] 63001)" using spin_plain(1) [OF c] m by simp
  have "turns ?step (spinMachine c e 1 [] 63001) (spinMachine c e 13 [0, uint n, 0, 0, 0, 0] 45001)"
    by (simp add: turns_step spin_push [OF c] turns.here)
  moreover have "turns ?step (spinMachine c e 13 [0, uint n, 0, 0, 0, 0] 45001) (spinMachine (c\<lparr>conDests := d'\<rparr>) ?e 0 [] 63002)"
    using d'(2) by (simp add: turns_step spin_call [OF c _ e] spin_plain [OF c] spin_push [OF c] turns.here del: RunN.simps)
  ultimately have "turns ?step (spinMachine c e 1 [] 63001) (spinMachine (c\<lparr>conDests := d'\<rparr>) ?e 0 [] 63002)"
    by (rule turns_trans)
  moreover have "spinning ve n (spinMachine (c\<lparr>conDests := d'\<rparr>) ?e 0 [] 63002)"
    unfolding spinning_def spinGas_def using c d'(1) e
    by (intro exI [of _ "c\<lparr>conDests := d'\<rparr>"] exI [of _ ?e]) (simp add: stopsAt_def)
  ultimately show "\<exists>m1 m'. ?step m = Some (Ok Continue, m1) \<and> turns ?step m1 m' \<and> spinning ve n m'"
    using s by blast
qed

text \<open>
  C12. A run need not end, although its gas is finite: a contract that delegates in a loop to a contract
  which stops at once gets from every delegation the gas it still had once more, so that with 63002 units
  of gas it is back where it was after every round, and \<^verbatim>\<open>Run\<close> does not return.
\<close>

theorem DelegateCall_spins:
  assumes "conCode c = spinCode n" "conGas c = spinGas" "conValue c = 0" "destsOK (conDests c) (conHash c) (spinCode n)"
    "stopsAt ve evm n" "evDepth evm = 0"
  shows "Run ve input readOnly (evm, c) = None"
proof -
  have "spinning ve n (startOf c input readOnly evm)"
    unfolding spinning_def using assms
    by (intro exI [of _ "c\<lparr>conInput := input\<rparr>"] exI [of _ "mEvm (startOf c input readOnly evm)"])
      (simp add: startOf_def spinMachine_def stopsAt_def CallCreateDepth_def)
  then have "interpLoop (interpStep ve (RunN (Suc 1023) ve)) (startOf c input readOnly evm) = None"
    by (rule loop_spins) (rule spin_round)
  then show ?thesis using assms(1,3) unfolding Run_Suc RunWith_def by (simp add: startOf_def bigUint64_def Let_def spinCode_def)
qed

text \<open>A store with one account, of the address 9, whose code is one \<^verbatim>\<open>STOP\<close>.\<close>

definition stopStore :: StoreDB where
  "stopStore = sampleStore\<lparr>sCache := Some [acctKey sampleEnv (BytesToAddress [9]) \<mapsto>
     DBytes (encStorage sampleEnv (emptyStorage\<lparr>sByteCode := [0]\<rparr>))]\<rparr>"

definition stopEvm :: EVM where
  "stopEvm = NewEVM sampleHeader (sampleTx 0) alice (NewState stopStore 7) 0"

lemma stopEvm_stops: "stopsAt sampleVe stopEvm 9"
proof -
  obtain b where b: "encStorage sampleEnv (emptyStorage\<lparr>sByteCode := [0]\<rparr>) = Some b"
      "decStorage sampleEnv b = Some (emptyStorage\<lparr>sByteCode := [0]\<rparr>)"
    using sampleEnvOK unfolding envOK_def by blast
  have "Get_db (crypto sampleEnv) (acctKey sampleEnv (BytesToAddress [9])) stopStore = (Ok (Some b), stopStore)"
    by (simp add: stopStore_def b(1) sampleStore_def Get_db_def Get_ts_def returnA_def)
  then have "GetByteCode_v sampleVe (BytesToAddress [9]) (NewState stopStore 7) = (Ok (Some [0]), NewState stopStore 7)"
    using b(2) by (simp add: GetByteCode_v_def sampleVe_def onDb_def lookupStorage_def GetStorage_def bindA_def tryA_def returnA_def NewState_def)
  then show ?thesis
    by (simp add: stopsAt_def stopEvm_def NewEVM_def sampleVe_def sampleEnv_def sampleKeccak_def HashLength_def CallCreateDepth_def)
qed

theorem DelegateCall_spins_witness: "Run sampleVe [] False (stopEvm, sampleContract (spinCode 9) spinGas) = None"
  by (rule DelegateCall_spins [OF _ _ _ _ stopEvm_stops])
    (simp_all add: sampleContract_def NewContract_def destsOK_def stopEvm_def NewEVM_def)

end
