(* ===== verification/EvmFees.thy ===== *)
theory EvmFees
  imports EvmSample
begin

section \<open>The price of memory\<close>

text \<open>
  \<^verbatim>\<open>memoryGasCost\<close> computes the price of growing the memory in 64-bit words. The price of a memory of
  \<open>w\<close> words is \<open>3 w + w\<^sup>2 / 512\<close>; the memory remembers the price of its size.
\<close>

definition feeOf :: "nat \<Rightarrow> nat" where
  "feeOf w = 3 * w + w * w div 512"

definition feeOK :: "Memory \<Rightarrow> bool" where
  "feeOK mem \<longleftrightarrow> 32 dvd length (memStore mem) \<and> length (memStore mem) < 32 * 2 ^ 32 \<and>
     unat (memLastGas mem) = feeOf (length (memStore mem) div 32)"

lemma feeOf_mono: "v \<le> w \<Longrightarrow> feeOf v \<le> feeOf w"
  unfolding feeOf_def by (intro add_mono mult_le_mono div_le_mono) simp_all

lemma word_count:
  assumes "unat sz \<le> 32 * (2 ^ 32 - 1)"
  shows "unat (ToWordSize sz) = (unat sz + 31) div 32" "unat (ToWordSize sz) < 2 ^ 32"
    "unat (ToWordSize sz * 32) = 32 * unat (ToWordSize sz)"
proof -
  have "\<not> sz > MaxUint64 - 31" using assms by (simp add: MaxUint64_def word_less_nat_alt)
  moreover have "unat (sz + 31) = unat sz + 31" using assms by (simp add: unat_word_ariths)
  ultimately show 1: "unat (ToWordSize sz) = (unat sz + 31) div 32" by (simp add: ToWordSize_def unat_div)
  then show 2: "unat (ToWordSize sz) < 2 ^ 32" using assms by simp
  then show "unat (ToWordSize sz * 32) = 32 * unat (ToWordSize sz)" by (simp add: unat_word_ariths)
qed

lemma fee_word:
  fixes w :: u64
  assumes "unat w < 2 ^ 32"
  shows "unat (w * MemoryGas + w * w div QuadCoeffDiv) = feeOf (unat w)"
proof -
  have sq: "unat w * unat w < 2 ^ 64" using mult_strict_mono' [OF assms assms] by simp
  then have "unat (w * w) = unat w * unat w" by (simp add: unat_word_ariths)
  moreover have "unat (w * MemoryGas) = 3 * unat w" using assms by (simp add: MemoryGas_def unat_word_ariths)
  moreover have "3 * unat w + unat w * unat w div 512 < 2 ^ 64" using assms sq by simp
  ultimately show ?thesis by (simp add: feeOf_def QuadCoeffDiv_def unat_word_ariths unat_div)
qed

text \<open>
  C24. As long as the memory has fewer than \<open>2\<^sup>3\<^sup>2\<close> words, the fee is exact: growing it to the words that \<open>sz\<close> bytes need
  costs the difference of the prices of the two sizes, nothing wraps around, and the memory
  that the loop resizes remembers the price of its new size.
\<close>

theorem memory_fee_exact:
  assumes "feeOK mem" "unat sz \<le> 32 * (2 ^ 32 - 1)"
  shows "\<exists>cost mem'. memoryGasCost sz mem = (Ok cost, mem') \<and>
    unat cost = feeOf (max ((unat sz + 31) div 32) (length (memStore mem) div 32)) - feeOf (length (memStore mem) div 32) \<and>
    feeOK (Resize (ToWordSize sz * 32) mem')"
proof -
  let ?l = "length (memStore mem)" and ?w = "(unat sz + 31) div 32"
  note w = word_count [OF assms(2)]
  have l: "unat (of_nat ?l :: u64) = ?l" "32 dvd ?l" "unat (memLastGas mem) = feeOf (?l div 32)" "?l < 32 * 2 ^ 32"
    using assms(1) by (auto simp: feeOK_def unsigned_of_nat take_bit_nat_eq_self)
  have grows: "of_nat ?l < ToWordSize sz * 32 \<longleftrightarrow> ?l div 32 < ?w"
    using l(1,2) w by (auto simp: word_less_nat_alt)
  show ?thesis
  proof (cases "?l div 32 < ?w")
    case True
    then have "sz \<noteq> 0" "\<not> sz > 0xffffffffe0" using assms(2) by (auto simp: word_less_nat_alt)
    then have c: "memoryGasCost sz mem = (Ok ((ToWordSize sz * MemoryGas + ToWordSize sz * ToWordSize sz div QuadCoeffDiv) - memLastGas mem),
        mem\<lparr>memLastGas := ToWordSize sz * MemoryGas + ToWordSize sz * ToWordSize sz div QuadCoeffDiv\<rparr>)"
      using grows True by (simp add: memoryGasCost_def Let_def)
    have "feeOf (?l div 32) \<le> feeOf ?w" using True by (simp add: feeOf_mono)
    then show ?thesis unfolding c using True grows l w fee_word [OF w(2)]
      by (simp add: feeOK_def Resize_def unat_sub word_le_nat_alt word_less_nat_alt)
  next
    case False
    then have "memoryGasCost sz mem = (Ok 0, mem)" using assms(2) grows by (simp add: memoryGasCost_def Let_def word_less_nat_alt)
    then show ?thesis using False grows assms(1) by (simp add: Resize_def max_def)
  qed
qed

theorem memory_fee_exact_witness:
  "\<exists>cost mem'. memoryGasCost 100 NewMemory = (Ok cost, mem') \<and> unat cost = 12 \<and> feeOK (Resize 128 mem')"
  using memory_fee_exact [of NewMemory 100] by (simp add: feeOK_def NewMemory_def feeOf_def ToWordSize_def MaxUint64_def)

lemma wrapped_loss: "(m :: nat) \<le> x \<Longrightarrow> m + x mod m \<le> x"
proof -
  assume le: "m \<le> x"
  then have "x mod m = (x - m) mod m" by (rule le_mod_geq)
  also have "\<dots> \<le> x - m" by (rule mod_less_eq_dividend)
  finally show ?thesis using le by simp
qed



end
