(* ===== verification/Spec2Isabelle.thy ===== *)
theory Spec2Isabelle
  imports TrieGCSem BlockTree TemplateProps EvmArith EvmBudget EvmTypes EvmSpin EvmFees
begin

text \<open>
  Verification development for the DREP chain node (Go).
\<close>

end
